(* ===== verification/JS_Prelude.thy ===== *)
theory JS_Prelude
  imports Main "HOL-Library.Word"
begin

text \<open>
  Shared material of the development: the types that stand for JavaScript's typed arrays and
  numbers, the pieces of the language's standard library the sources call
  (\<open>Number.prototype.toString\<close> with a radix, \<open>String.prototype.padStart\<close>, \<open>Array.prototype.join\<close>
  on single pieces, \<open>ToUint32\<close>), the named collections of simplification rules, and the generic
  lemmas on lists, folds and words that the component theories use.

  Numbers: JavaScript's numbers are doubles. Sizes, indices and counters stay below 2 to the 53
  in every use the sources make of them, where double arithmetic on integers is exact, so they
  are \<open>nat\<close>; bit operators coerce to 32 bits, so values that flow only through bit operators and
  \<open>| 0\<close> are \<open>32 word\<close>; measured rates are \<open>rat\<close>.
  Strings: a \<open>string\<close> is a list of \<open>char\<close>, so it holds the code units below 256.
\<close>

unbundle bit_operations_syntax

named_theorems js_simps \<open>equations of the library functions of the language\<close>
named_theorems inv_intros \<open>introduction rules for the component invariants\<close>
named_theorems frame_simps \<open>fields that an operation leaves alone\<close>

type_synonym byte = "8 word"
type_synonym u32 = "32 word"
type_synonym u8array = "byte list"

section \<open>Numbers and strings of the language\<close>

definition ToUint32 :: "nat \<Rightarrow> nat" where
  "ToUint32 n = n mod 2 ^ 32"

text \<open>\<open>Number.prototype.toString(radix)\<close> on a non-negative integer, radix 2 to 16.\<close>

definition digit_char :: "nat \<Rightarrow> char" where
  "digit_char d = ''0123456789abcdef'' ! (d mod 16)"

fun to_radix :: "nat \<Rightarrow> nat \<Rightarrow> string" where
  "to_radix b n =
     (if b < 2 \<or> n < b then [digit_char n] else to_radix b (n div b) @ [digit_char (n mod b)])"

declare to_radix.simps [simp del]

definition js_toString16 :: "nat \<Rightarrow> string" where
  "js_toString16 n = to_radix 16 n"

definition js_String :: "nat \<Rightarrow> string" where
  "js_String n = to_radix 10 n"

definition padStart :: "nat \<Rightarrow> char \<Rightarrow> string \<Rightarrow> string" where
  "padStart n c s = replicate (n - length s) c @ s"

text \<open>\<open>ToLowerInvariant\<close>, \<open>char.IsWhiteSpace\<close> and \<open>Trim\<close> of .NET, on code units below 256 and with
  the invariant lower case of ASCII letters.\<close>

definition to_lower :: "char \<Rightarrow> char" where
  "to_lower c = (if 65 \<le> (of_char c :: nat) \<and> (of_char c :: nat) \<le> 90 then char_of (of_char c + 32 :: nat) else c)"

definition is_white_space :: "char \<Rightarrow> bool" where
  "is_white_space c \<longleftrightarrow> (of_char c :: nat) \<in> {9, 10, 11, 12, 13, 32, 133, 160}"

definition str_trim :: "string \<Rightarrow> string" where
  "str_trim s = rev (dropWhile is_white_space (rev (dropWhile is_white_space s)))"

section \<open>Hexadecimal strings\<close>

definition is_hex_char :: "char \<Rightarrow> bool" where
  "is_hex_char c \<longleftrightarrow> c \<in> set ''0123456789abcdef''"

definition hex_value :: "char \<Rightarrow> nat" where
  "hex_value c = (if of_char c < (58 :: nat) then of_char c - 48 else of_char c - 87)"

fun hex_to_nat :: "nat \<Rightarrow> string \<Rightarrow> nat" where
  "hex_to_nat acc [] = acc"
| "hex_to_nat acc (c # cs) = hex_to_nat (16 * acc + hex_value c) cs"

lemma nat_lt16_cases:
  "d < 16 \<Longrightarrow> d \<in> {0, 1, 2, 3, 4, 5, 6, 7, 8, 9, 10, 11, 12, 13, 14, (15 :: nat)}"
  by (simp add: less_Suc_eq eval_nat_numeral(2,3))

lemma hex_value_digit [simp]: "d < 16 \<Longrightarrow> hex_value (digit_char d) = d"
  by (drule nat_lt16_cases) (auto simp: hex_value_def digit_char_def)

lemma is_hex_digit [simp]: "is_hex_char (digit_char d)"
proof -
  have "d mod 16 < length ''0123456789abcdef''" by simp
  then show ?thesis unfolding is_hex_char_def digit_char_def by (rule nth_mem)
qed

lemma hex_to_nat_append: "hex_to_nat acc (xs @ ys) = hex_to_nat (hex_to_nat acc xs) ys"
  by (induction xs arbitrary: acc) auto

lemma hex_to_nat_acc: "hex_to_nat acc s = acc * 16 ^ length s + hex_to_nat 0 s"
proof (induction s arbitrary: acc)
  case Nil
  then show ?case by simp
next
  case (Cons c cs)
  show ?case
    using Cons.IH [of "16 * acc + hex_value c"] Cons.IH [of "hex_value c"]
    by (simp add: algebra_simps)
qed

lemma hex_to_nat_zeros: "hex_to_nat 0 (replicate k (CHR ''0'') @ s) = hex_to_nat 0 s"
  by (induction k) (auto simp: hex_value_def)

lemma hex_to_nat_toString16 [simp]: "hex_to_nat 0 (js_toString16 n) = n"
  unfolding js_toString16_def
proof (induction "16 :: nat" n rule: to_radix.induct)
  case (1 n)
  show ?case
  proof (cases "n < 16")
    case True
    then show ?thesis by (simp add: to_radix.simps)
  next
    case False
    with 1 show ?thesis
      by (simp add: to_radix.simps [of 16 n] hex_to_nat_append)
  qed
qed

lemma toString16_hex: "list_all is_hex_char (js_toString16 n)"
  unfolding js_toString16_def
proof (induction "16 :: nat" n rule: to_radix.induct)
  case (1 n)
  then show ?case by (simp add: to_radix.simps [of 16 n])
qed

lemma length_toString16_less: "n < 16 ^ k \<Longrightarrow> 0 < k \<Longrightarrow> length (js_toString16 n) \<le> k"
  unfolding js_toString16_def
proof (induction "16 :: nat" n arbitrary: k rule: to_radix.induct)
  case (1 n)
  show ?case
  proof (cases "n < 16")
    case True
    with 1 show ?thesis by (simp add: to_radix.simps)
  next
    case False
    then have "1 < k" using "1.prems"
      by (cases k; cases "k - 1") auto
    then obtain j where k: "k = Suc j" and j: "0 < j" by (cases k) auto
    have "n div 16 < 16 ^ j" using "1.prems" k by (simp add: less_mult_imp_div_less mult.commute)
    with 1 False j have "length (to_radix 16 (n div 16)) \<le> j" by simp
    with False k show ?thesis by (simp add: to_radix.simps [of 16 n])
  qed
qed

lemma padStart_length: "length s \<le> n \<Longrightarrow> length (padStart n c s) = n"
  by (simp add: padStart_def)

lemma hex_to_nat_padStart [simp]: "hex_to_nat 0 (padStart n (CHR ''0'') s) = hex_to_nat 0 s"
  by (simp add: padStart_def hex_to_nat_zeros)

lemma padStart_hex: "list_all is_hex_char s \<Longrightarrow> list_all is_hex_char (padStart n (CHR ''0'') s)"
proof -
  have "is_hex_char (CHR ''0'')" by (simp add: is_hex_char_def)
  then show "list_all is_hex_char s \<Longrightarrow> ?thesis" by (auto simp: padStart_def list_all_iff)
qed

lemma hex_to_nat_inj:
  assumes "padStart k (CHR ''0'') (js_toString16 m) = padStart k (CHR ''0'') (js_toString16 n)"
  shows "m = n"
  using arg_cong [OF assms, of "hex_to_nat 0"] by simp

lemma byte_hex_length: "n < 256 \<Longrightarrow> length (padStart 2 (CHR ''0'') (js_toString16 n)) = 2"
  by (intro padStart_length length_toString16_less) auto

lemma hex_to_nat_app: "hex_to_nat 0 (xs @ ys) = hex_to_nat 0 xs * 16 ^ length ys + hex_to_nat 0 ys"
  using hex_to_nat_acc [of "hex_to_nat 0 xs" ys] by (simp add: hex_to_nat_append)

lemma digit_char_hex_value: "is_hex_char c \<Longrightarrow> digit_char (hex_value c) = c"
  by (auto simp: is_hex_char_def hex_value_def digit_char_def)

lemma hex_value_inj: "is_hex_char c \<Longrightarrow> is_hex_char d \<Longrightarrow> hex_value c = hex_value d \<Longrightarrow> c = d"
  by (metis digit_char_hex_value)

lemma hex_value_less: "is_hex_char c \<Longrightarrow> hex_value c < 16"
  by (auto simp: is_hex_char_def hex_value_def)

lemma hex_to_nat_less: "list_all is_hex_char s \<Longrightarrow> hex_to_nat 0 s < 16 ^ length s"
proof (induction s rule: rev_induct)
  case Nil
  then show ?case by simp
next
  case (snoc c s)
  then have "hex_to_nat 0 s + 1 \<le> 16 ^ length s" "hex_value c < 16" by (auto simp: hex_value_less)
  then have "(hex_to_nat 0 s + 1) * 16 \<le> 16 ^ length s * 16" by (intro mult_right_mono) auto
  then show ?case using \<open>hex_value c < 16\<close> by (simp add: hex_to_nat_app)
qed

lemma hex_string_eqI:
  "length a = length b \<Longrightarrow> list_all is_hex_char a \<Longrightarrow> list_all is_hex_char b \<Longrightarrow>
     hex_to_nat 0 a = hex_to_nat 0 b \<Longrightarrow> a = b"
proof (induction a b rule: rev_induct2)
  case (4 x xs y ys)
  then have "hex_value x < 16" "hex_value y < 16" by (auto simp: hex_value_less)
  moreover have "hex_to_nat 0 xs * 16 + hex_value x = hex_to_nat 0 ys * 16 + hex_value y"
    using 4 by (simp add: hex_to_nat_app)
  moreover from calculation have "hex_to_nat 0 xs = hex_to_nat 0 ys" by linarith
  ultimately have "hex_to_nat 0 xs = hex_to_nat 0 ys" "hex_value x = hex_value y" by simp_all
  with 4 show ?case by (auto intro: hex_value_inj)
qed auto

lemma hex_char_plain:
  "is_hex_char c \<Longrightarrow> \<not> is_white_space c"
  "is_hex_char c \<Longrightarrow> to_lower c = c"
  "is_hex_char c \<Longrightarrow> c \<noteq> CHR ''x''"
  by (auto simp: is_hex_char_def is_white_space_def to_lower_def)

lemma str_trim_plain: "\<forall>c \<in> set s. \<not> is_white_space c \<Longrightarrow> str_trim s = s"
proof -
  have d: "dropWhile is_white_space t = t" if "\<forall>c \<in> set t. \<not> is_white_space c" for t
    using that by (cases t) auto
  then show "\<forall>c \<in> set s. \<not> is_white_space c \<Longrightarrow> ?thesis" by (simp add: str_trim_def d)
qed

section \<open>Lists and folds\<close>

lemma length_fold_update [simp]:
  "length (fold (\<lambda>i xs. xs[i := f i xs]) is ys) = length ys"
  by (induction "is" arbitrary: ys) auto

lemma take_list_update_ge: "n \<le> i \<Longrightarrow> take n (xs[i := v]) = take n xs"
  by (rule take_update_cancel)

text \<open>\<open>target.set(source, offset)\<close> of a typed array: \<open>None\<close> is the \<open>RangeError\<close> it raises when
  the source does not fit behind the offset.\<close>

definition typed_set :: "'a list \<Rightarrow> 'a list \<Rightarrow> nat \<Rightarrow> 'a list option" where
  "typed_set target source offset =
     (if offset + length source \<le> length target
      then Some (take offset target @ source @ drop (offset + length source) target)
      else None)"

lemma length_typed_set: "typed_set t src off = Some r \<Longrightarrow> length r = length t"
  by (auto simp: typed_set_def split: if_splits)

text \<open>\<open>array.subarray(begin, end)\<close> and \<open>blob.slice(begin, end)\<close> with indices clamped to the length.\<close>

definition subarray :: "'a list \<Rightarrow> nat \<Rightarrow> nat \<Rightarrow> 'a list" where
  "subarray xs b e = take (e - b) (drop b xs)"

lemma length_subarray [simp]: "length (subarray xs b e) = min (e - b) (length xs - b)"
  by (simp add: subarray_def)

lemma subarray_all [simp]: "subarray xs 0 (length xs) = xs"
  by (simp add: subarray_def)

lemma subarray_drop_split:
  "e \<le> length xs \<Longrightarrow> b \<le> e \<Longrightarrow> drop b xs = subarray xs b e @ drop e xs"
  by (metis append_take_drop_id drop_drop le_add_diff_inverse2 subarray_def)

section \<open>Words\<close>

lemma word_rotr_shifts:
  fixes x :: u32
  assumes "n < 32"
  shows "word_rotr n x = drop_bit n x OR push_bit (32 - n) x"
proof (rule bit_word_eqI)
  fix i
  assume i: "i < LENGTH(32)"
  show "bit (word_rotr n x) i = bit (drop_bit n x OR push_bit (32 - n) x) i"
  proof (cases "i + n < 32")
    case True
    then show ?thesis using i assms
      by (auto simp: bit_word_rotr_iff bit_or_iff bit_drop_bit_eq bit_push_bit_iff add.commute)
  next
    case False
    then have "(i + n) mod 32 = i + n - 32" using i assms by (simp add: mod_if)
    moreover have "\<not> bit x (n + i)" using False by (auto dest: bit_imp_le_length)
    moreover have "32 - n \<le> i" using False by simp
    ultimately show ?thesis using i assms
      by (simp add: bit_word_rotr_iff bit_or_iff bit_drop_bit_eq bit_push_bit_iff add.commute)
  qed
qed

lemma unat_byte_less [simp]: "unat (b :: byte) < 256"
  using unsigned_less [of b, where ?'a = nat] by simp

lemma unat_byte_div [simp]: "unat (b :: byte) div 16 < 16"
  using unat_byte_less [of b] by (simp add: less_mult_imp_div_less del: unat_byte_less)

end
