(* ===== verification/Sha256_Spec.thy ===== *)
theory Sha256_Spec
  imports Complex_Main JS_Prelude
begin

text \<open>
  SHA-256 as the standard (FIPS 180-4) defines it, written without reference to the streaming
  implementation: the functions of section 4.1.2, the constants of 4.2.2 and 5.3.3 as the
  fractional bits of cube and square roots of primes, the padding of 5.1.1 and the hash
  computation of 6.2.2. The theory \<open>Sha256\<close> proves that the program's streaming hasher
  computes this function.
\<close>

section \<open>Functions and constants\<close>

definition Ch :: "u32 \<Rightarrow> u32 \<Rightarrow> u32 \<Rightarrow> u32" where
  "Ch x y z = (x AND y) XOR (NOT x AND z)"

definition Maj :: "u32 \<Rightarrow> u32 \<Rightarrow> u32 \<Rightarrow> u32" where
  "Maj x y z = (x AND y) XOR (x AND z) XOR (y AND z)"

definition Sigma0 :: "u32 \<Rightarrow> u32" where
  "Sigma0 x = word_rotr 2 x XOR word_rotr 13 x XOR word_rotr 22 x"

definition Sigma1 :: "u32 \<Rightarrow> u32" where
  "Sigma1 x = word_rotr 6 x XOR word_rotr 11 x XOR word_rotr 25 x"

definition sigma0 :: "u32 \<Rightarrow> u32" where
  "sigma0 x = word_rotr 7 x XOR word_rotr 18 x XOR drop_bit 3 x"

definition sigma1 :: "u32 \<Rightarrow> u32" where
  "sigma1 x = word_rotr 17 x XOR word_rotr 19 x XOR drop_bit 10 x"

definition first_primes :: "nat list" where
  "first_primes = [2, 3, 5, 7, 11, 13, 17, 19, 23, 29, 31, 37, 41, 43, 47, 53, 59, 61, 67, 71,
     73, 79, 83, 89, 97, 101, 103, 107, 109, 113, 127, 131, 137, 139, 149, 151, 157, 163, 167,
     173, 179, 181, 191, 193, 197, 199, 211, 223, 227, 229, 233, 239, 241, 251, 257, 263, 269,
     271, 277, 281, 283, 293, 307, 311]"

text \<open>The list is exactly the numbers up to 311 with no proper divisor among the primes up to 17,
  that is, the primes (the square of 19 is above 311).\<close>

lemma first_primes_are_the_primes:
  "first_primes = filter (\<lambda>p. list_all (\<lambda>d. p = d \<or> p mod d \<noteq> 0) [2, 3, 5, 7, 11, 13, 17]) [2..<312]"
  by (simp add: first_primes_def)

text \<open>The first 32 bits of the fractional part of the cube root of the prime number \<open>t\<close>, and of
  the square root: taking the word drops the integer part.\<close>

definition K_spec :: "nat \<Rightarrow> u32" where
  "K_spec t = word_of_int \<lfloor>real (2 ^ 32) * root 3 (real (first_primes ! t))\<rfloor>"

definition H_spec :: "nat \<Rightarrow> u32" where
  "H_spec j = word_of_int \<lfloor>real (2 ^ 32) * sqrt (real (first_primes ! j))\<rfloor>"

text \<open>Integer bounds that determine the constants.\<close>

lemma floor_root3_eq:
  fixes p c N :: nat
  assumes "c ^ 3 \<le> p * N ^ 3" and "p * N ^ 3 < (c + 1) ^ 3"
  shows "\<lfloor>real N * root 3 (real p)\<rfloor> = int c"
proof -
  have e: "root 3 (real (p * N ^ 3)) = real N * root 3 (real p)"
    by (simp add: real_root_mult real_root_power_cancel)
  have "root 3 (real (c ^ 3)) \<le> root 3 (real (p * N ^ 3))"
    using assms(1) by (simp only: real_root_le_iff of_nat_le_iff)
  then have lo: "real c \<le> real N * root 3 (real p)"
    unfolding e by (simp add: real_root_power_cancel)
  have "root 3 (real (p * N ^ 3)) < root 3 (real ((c + 1) ^ 3))"
    using assms(2) by (simp only: real_root_less_iff of_nat_less_iff)
  then have hi: "real N * root 3 (real p) < real c + 1"
    unfolding e of_nat_power by (simp add: real_root_power_cancel add.commute)
  from lo hi show ?thesis by (intro floor_unique) auto
qed

lemma floor_sqrt_eq:
  fixes p c N :: nat
  assumes "c ^ 2 \<le> p * N ^ 2" and "p * N ^ 2 < (c + 1) ^ 2"
  shows "\<lfloor>real N * sqrt (real p)\<rfloor> = int c"
proof -
  have e: "sqrt (real (p * N ^ 2)) = real N * sqrt (real p)"
    by (simp add: real_sqrt_mult)
  have "sqrt (real (c ^ 2)) \<le> sqrt (real (p * N ^ 2))"
    using assms(1) by (simp only: real_sqrt_le_iff of_nat_le_iff)
  then have lo: "real c \<le> real N * sqrt (real p)"
    unfolding e by simp
  have "sqrt (real (p * N ^ 2)) < sqrt (real ((c + 1) ^ 2))"
    using assms(2) by (simp only: real_sqrt_less_iff of_nat_less_iff)
  then have hi: "real N * sqrt (real p) < real c + 1"
    unfolding e of_nat_power by (simp add: add.commute)
  from lo hi show ?thesis by (intro floor_unique) auto
qed

section \<open>Padding and parsing\<close>

definition be32 :: "byte list \<Rightarrow> u32" where
  "be32 bs = push_bit 24 (ucast (bs ! 0)) OR push_bit 16 (ucast (bs ! 1))
     OR push_bit 8 (ucast (bs ! 2)) OR ucast (bs ! 3)"

definition be64_bytes :: "nat \<Rightarrow> byte list" where
  "be64_bytes n = map (\<lambda>i. word_of_nat (n div 256 ^ (7 - i))) [0..<8]"

definition sha_pad :: "byte list \<Rightarrow> byte list" where
  "sha_pad m = m @ [0x80] @ replicate ((119 - length m mod 64) mod 64) 0
     @ be64_bytes (8 * length m)"

fun sha_blocks :: "byte list \<Rightarrow> byte list list" where
  "sha_blocks m = (if length m < 64 then [] else take 64 m # sha_blocks (drop 64 m))"

declare sha_blocks.simps [simp del]

section \<open>Hash computation\<close>

fun W_spec :: "byte list \<Rightarrow> nat \<Rightarrow> u32" where
  "W_spec blk t =
     (if t < 16 then be32 (take 4 (drop (4 * t) blk))
      else sigma1 (W_spec blk (t - 2)) + W_spec blk (t - 7) + sigma0 (W_spec blk (t - 15))
        + W_spec blk (t - 16))"

declare W_spec.simps [simp del]

type_synonym hash_value = "u32 \<times> u32 \<times> u32 \<times> u32 \<times> u32 \<times> u32 \<times> u32 \<times> u32"

fun round_spec :: "u32 \<Rightarrow> u32 \<Rightarrow> hash_value \<Rightarrow> hash_value" where
  "round_spec k w (a, b, c, d, e, f, g, h) =
     (let t1 = h + Sigma1 e + Ch e f g + k + w; t2 = Sigma0 a + Maj a b c
      in (t1 + t2, a, b, c, d + t1, e, f, g))"

fun hash_add :: "hash_value \<Rightarrow> hash_value \<Rightarrow> hash_value" where
  "hash_add (a, b, c, d, e, f, g, h) (a', b', c', d', e', f', g', h') =
     (a + a', b + b', c + c', d + d', e + e', f + f', g + g', h + h')"

definition compress_spec :: "hash_value \<Rightarrow> byte list \<Rightarrow> hash_value" where
  "compress_spec H blk = hash_add H (fold (\<lambda>t. round_spec (K_spec t) (W_spec blk t)) [0..<64] H)"

definition H_init :: hash_value where
  "H_init = (H_spec 0, H_spec 1, H_spec 2, H_spec 3, H_spec 4, H_spec 5, H_spec 6, H_spec 7)"

definition sha256_spec :: "byte list \<Rightarrow> hash_value" where
  "sha256_spec m = foldl compress_spec H_init (sha_blocks (sha_pad m))"

definition word_hex :: "u32 \<Rightarrow> string" where
  "word_hex x = padStart 8 (CHR ''0'') (js_toString16 (unat x))"

fun hash_hex :: "hash_value \<Rightarrow> string" where
  "hash_hex (a, b, c, d, e, f, g, h) =
     word_hex a @ word_hex b @ word_hex c @ word_hex d @ word_hex e @ word_hex f @ word_hex g
       @ word_hex h"

definition sha256_hex_spec :: "byte list \<Rightarrow> string" where
  "sha256_hex_spec m = hash_hex (sha256_spec m)"

section \<open>Facts about blocks and padding\<close>

lemma sha_blocks_short [simp]: "length m < 64 \<Longrightarrow> sha_blocks m = []"
  by (simp add: sha_blocks.simps)

lemma sha_blocks_Cons: "length b = 64 \<Longrightarrow> sha_blocks (b @ m) = b # sha_blocks m"
  by (simp add: sha_blocks.simps [of "b @ m"])

lemma sha_blocks_single [simp]: "length b = 64 \<Longrightarrow> sha_blocks b = [b]"
  using sha_blocks_Cons [of b "[]"] by simp

lemma sha_blocks_append:
  "length xs mod 64 = 0 \<Longrightarrow> sha_blocks (xs @ ys) = sha_blocks xs @ sha_blocks ys"
proof (induction xs rule: sha_blocks.induct)
  case (1 xs)
  show ?case
  proof (cases "length xs < 64")
    case True
    with 1 show ?thesis by simp
  next
    case False
    then have "length (drop 64 xs) mod 64 = 0" using "1.prems" le_mod_geq [of 64 "length xs"] by simp
    with False 1 have IH: "sha_blocks (drop 64 xs @ ys) = sha_blocks (drop 64 xs) @ sha_blocks ys"
      by simp
    have "sha_blocks (take 64 xs @ drop 64 xs @ ys) = take 64 xs # sha_blocks (drop 64 xs @ ys)"
      using False by (intro sha_blocks_Cons) simp
    moreover have "sha_blocks (take 64 xs @ drop 64 xs) = take 64 xs # sha_blocks (drop 64 xs)"
      using False by (intro sha_blocks_Cons) simp
    ultimately show ?thesis using IH by (simp flip: append_assoc)
  qed
qed

lemma length_be64_bytes [simp]: "length (be64_bytes n) = 8"
  by (simp add: be64_bytes_def)

lemma pad_zeros:
  "(119 - length m mod 64) mod 64 =
     (if length m mod 64 < 56 then 55 - length m mod 64 else 119 - length m mod 64)"
proof (cases "length m mod 64 < 56")
  case True
  then have "119 - length m mod 64 = 64 + (55 - length m mod 64)" by linarith
  moreover have "55 - length m mod 64 < 64" by simp
  ultimately show ?thesis using True by (simp only: mod_add_self1 mod_less if_True)
next
  case False
  then have "119 - length m mod 64 < 64" by linarith
  then show ?thesis using False by (simp only: mod_less if_False)
qed

lemma length_sha_pad: "length (sha_pad m) mod 64 = 0"
proof -
  define q r where "q = length m div 64" and "r = length m mod 64"
  have r: "r < 64" and m: "length m = 64 * q + r" by (simp_all add: q_def r_def)
  have "length (sha_pad m) = (if r < 56 then 64 * (q + 1) else 64 * (q + 2))"
  proof (cases "r < 56")
    case True
    then show ?thesis using m unfolding sha_pad_def pad_zeros unfolding r_def [symmetric] by simp
  next
    case False
    have "(119 - r) + r = 119" using r by simp
    then have "length m + 1 + (119 - r) + 8 = 64 * (q + 2)" using m by (simp add: algebra_simps)
    then show ?thesis using False unfolding sha_pad_def pad_zeros unfolding r_def [symmetric] by simp
  qed
  then show ?thesis by simp
qed

lemma word_hex_length: "length (word_hex x) = 8"
proof -
  have "unat x < 16 ^ 8" using unsigned_less [of x, where ?'a = nat] by simp
  then show ?thesis
    unfolding word_hex_def by (intro padStart_length length_toString16_less) auto
qed

lemma word_hex_chars: "list_all is_hex_char (word_hex x)"
  unfolding word_hex_def by (intro padStart_hex toString16_hex)

lemma hash_hex_length: "length (hash_hex H) = 64"
  by (cases H rule: hash_hex.cases) (simp add: word_hex_length)

lemma hash_hex_chars: "list_all is_hex_char (hash_hex H)"
  by (cases H rule: hash_hex.cases) (simp add: word_hex_chars)

lemma word_hex_inj: "word_hex x = word_hex y \<Longrightarrow> x = y"
  unfolding word_hex_def by (drule hex_to_nat_inj) (rule unsigned_word_eqI)

end
