(* ===== verification/Sha256.thy ===== *)
theory Sha256
  imports Sha256_Spec
begin

text \<open>
  The streaming SHA-256 of \<open>createSha256\<close> in \<open>src/WebApp/wwwroot/js/upload.js\<close>: the closure's
  variables as the record \<open>sha\<close>, \<open>compress\<close>, \<open>update\<close> and \<open>hexDigest\<close> as state-passing
  functions, and the callers that slice a file. Values that the source keeps in \<open>Uint32Array\<close>
  cells or truncates with \<open>| 0\<close> are \<open>32 word\<close>; the two halves of the bit counter are numbers
  below 2 to the 32. \<open>None\<close> is the \<open>RangeError\<close> of \<open>TypedArray.prototype.set\<close>.
\<close>

section \<open>The closure's state\<close>

record sha =
  sha_h0 :: u32
  sha_h1 :: u32
  sha_h2 :: u32
  sha_h3 :: u32
  sha_h4 :: u32
  sha_h5 :: u32
  sha_h6 :: u32
  sha_h7 :: u32
  sha_w :: "u32 list"
  sha_buf :: u8array
  sha_bufLen :: nat
  sha_totalBitsLo :: nat
  sha_totalBitsHi :: nat

text \<open>The round constants, row by row as the source lists them.\<close>

definition sha_K :: "u32 list" where
  "sha_K = concat [
     [0x428a2f98, 0x71374491, 0xb5c0fbcf, 0xe9b5dba5, 0x3956c25b, 0x59f111f1, 0x923f82a4, 0xab1c5ed5],
     [0xd807aa98, 0x12835b01, 0x243185be, 0x550c7dc3, 0x72be5d74, 0x80deb1fe, 0x9bdc06a7, 0xc19bf174],
     [0xe49b69c1, 0xefbe4786, 0x0fc19dc6, 0x240ca1cc, 0x2de92c6f, 0x4a7484aa, 0x5cb0a9dc, 0x76f988da],
     [0x983e5152, 0xa831c66d, 0xb00327c8, 0xbf597fc7, 0xc6e00bf3, 0xd5a79147, 0x06ca6351, 0x14292967],
     [0x27b70a85, 0x2e1b2138, 0x4d2c6dfc, 0x53380d13, 0x650a7354, 0x766a0abb, 0x81c2c92e, 0x92722c85],
     [0xa2bfe8a1, 0xa81a664b, 0xc24b8b70, 0xc76c51a3, 0xd192e819, 0xd6990624, 0xf40e3585, 0x106aa070],
     [0x19a4c116, 0x1e376c08, 0x2748774c, 0x34b0bcb5, 0x391c0cb3, 0x4ed8aa4a, 0x5b9cca4f, 0x682e6ff3],
     [0x748f82ee, 0x78a5636f, 0x84c87814, 0x8cc70208, 0x90befffa, 0xa4506ceb, 0xbef9a3f7, 0xc67178f2]]"

definition createSha256 :: sha where
  "createSha256 = \<lparr>
     sha_h0 = 0x6a09e667, sha_h1 = 0xbb67ae85, sha_h2 = 0x3c6ef372, sha_h3 = 0xa54ff53a,
     sha_h4 = 0x510e527f, sha_h5 = 0x9b05688c, sha_h6 = 0x1f83d9ab, sha_h7 = 0x5be0cd19,
     sha_w = replicate 64 0, sha_buf = replicate 64 0, sha_bufLen = 0,
     sha_totalBitsLo = 0, sha_totalBitsHi = 0\<rparr>"

section \<open>compress\<close>

definition rotr :: "u32 \<Rightarrow> nat \<Rightarrow> u32" where
  "rotr x n = drop_bit n x OR push_bit (32 - n) x"

definition load_word :: "u8array \<Rightarrow> nat \<Rightarrow> u32" where
  "load_word block i =
     push_bit 24 (ucast (block ! (i * 4))) OR push_bit 16 (ucast (block ! (i * 4 + 1)))
     OR push_bit 8 (ucast (block ! (i * 4 + 2))) OR ucast (block ! (i * 4 + 3))"

definition expand_word :: "u32 list \<Rightarrow> nat \<Rightarrow> u32" where
  "expand_word w i =
     (let s0 = rotr (w ! (i - 15)) 7 XOR rotr (w ! (i - 15)) 18 XOR drop_bit 3 (w ! (i - 15));
          s1 = rotr (w ! (i - 2)) 17 XOR rotr (w ! (i - 2)) 19 XOR drop_bit 10 (w ! (i - 2))
      in w ! (i - 16) + s0 + w ! (i - 7) + s1)"

fun sha_round :: "u32 \<Rightarrow> u32 \<Rightarrow> hash_value \<Rightarrow> hash_value" where
  "sha_round Ki wi (a, b, c, d, e, f, g, h) =
     (let S1 = rotr e 6 XOR rotr e 11 XOR rotr e 25;
          ch = (e AND f) XOR (NOT e AND g);
          t1 = h + S1 + ch + Ki + wi;
          S0 = rotr a 2 XOR rotr a 13 XOR rotr a 22;
          maj = (a AND b) XOR (a AND c) XOR (b AND c);
          t2 = S0 + maj
      in (t1 + t2, a, b, c, d + t1, e, f, g))"

definition sha_schedule :: "u8array \<Rightarrow> u32 list \<Rightarrow> u32 list" where
  "sha_schedule block w =
     fold (\<lambda>i w. w[i := expand_word w i]) [16..<64]
       (fold (\<lambda>i w. w[i := load_word block i]) [0..<16] w)"

definition sha_rounds :: "u32 list \<Rightarrow> hash_value \<Rightarrow> hash_value" where
  "sha_rounds w st = fold (\<lambda>i. sha_round (sha_K ! i) (w ! i)) [0..<64] st"

definition sha_compress :: "u8array \<Rightarrow> sha \<Rightarrow> sha" where
  "sha_compress block s =
     (let w = sha_schedule block (sha_w s);
          (a, b, c, d, e, f, g, h) =
            sha_rounds w
              (sha_h0 s, sha_h1 s, sha_h2 s, sha_h3 s, sha_h4 s, sha_h5 s, sha_h6 s, sha_h7 s)
      in s\<lparr>sha_w := w,
           sha_h0 := sha_h0 s + a, sha_h1 := sha_h1 s + b, sha_h2 := sha_h2 s + c,
           sha_h3 := sha_h3 s + d, sha_h4 := sha_h4 s + e, sha_h5 := sha_h5 s + f,
           sha_h6 := sha_h6 s + g, sha_h7 := sha_h7 s + h\<rparr>)"

section \<open>update\<close>

text \<open>The 64-bit message length is kept in two halves; the carry test compares the new low half
  with the bits added.\<close>

definition add_bits :: "nat \<Rightarrow> nat \<Rightarrow> nat \<Rightarrow> nat \<times> nat" where
  "add_bits lo hi len =
     (let bits = len * 8;
          lo' = ToUint32 (lo + bits);
          hi' = (if lo' < bits then hi + 1 else hi)
      in (lo', ToUint32 (hi' + len div 0x20000000)))"

function (sequential) sha_update_loop :: "u8array \<Rightarrow> nat \<Rightarrow> sha \<Rightarrow> sha option" where
  "sha_update_loop u8 off s =
     (if off < length u8 then
        if 64 < sha_bufLen s then None
        else
          let tk = min (64 - sha_bufLen s) (length u8 - off) in
          case typed_set (sha_buf s) (subarray u8 off (off + tk)) (sha_bufLen s) of
            None \<Rightarrow> None
          | Some buf' \<Rightarrow>
              let s1 = s\<lparr>sha_buf := buf', sha_bufLen := sha_bufLen s + tk\<rparr> in
              sha_update_loop u8 (off + tk)
                (if sha_bufLen s1 = 64 then (sha_compress (sha_buf s1) s1)\<lparr>sha_bufLen := 0\<rparr>
                 else s1)
      else Some s)"
  by pat_completeness auto
termination
  by (relation "measures [\<lambda>(u8, off, s). length u8 - off, \<lambda>(u8, off, s). sha_bufLen s]")
    (auto simp: min_def)

declare sha_update_loop.simps [simp del]

definition sha_update :: "u8array \<Rightarrow> sha \<Rightarrow> sha option" where
  "sha_update u8 s =
     (let (lo, hi) = add_bits (sha_totalBitsLo s) (sha_totalBitsHi s) (length u8)
      in sha_update_loop u8 0 (s\<lparr>sha_totalBitsLo := lo, sha_totalBitsHi := hi\<rparr>))"

section \<open>hexDigest\<close>

function (sequential) fill_zero :: "nat \<Rightarrow> u8array \<Rightarrow> nat \<Rightarrow> u8array" where
  "fill_zero stop block bl =
     (if bl < stop then fill_zero stop (block[bl := 0]) (bl + 1) else block)"
  by pat_completeness auto
termination
  by (relation "measure (\<lambda>(stop, block, bl). stop - bl)") auto

declare fill_zero.simps [simp del]

definition put_length :: "nat \<Rightarrow> nat \<Rightarrow> u8array \<Rightarrow> u8array" where
  "put_length lenBitsHi lenBits block = block[
     56 := word_of_nat (lenBitsHi div 2 ^ 24 mod 256),
     57 := word_of_nat (lenBitsHi div 2 ^ 16 mod 256),
     58 := word_of_nat (lenBitsHi div 2 ^ 8 mod 256),
     59 := word_of_nat (lenBitsHi mod 256),
     60 := word_of_nat (lenBits div 2 ^ 24 mod 256),
     61 := word_of_nat (lenBits div 2 ^ 16 mod 256),
     62 := word_of_nat (lenBits div 2 ^ 8 mod 256),
     63 := word_of_nat (lenBits mod 256)]"

definition w4 :: "u32 \<Rightarrow> string" where
  "w4 x = concat (map (\<lambda>b. padStart 2 (CHR ''0'') (js_toString16 (unat b)))
     [drop_bit 24 x, drop_bit 16 x AND 0xff, drop_bit 8 x AND 0xff, x AND 0xff])"

definition sha_finish :: "sha \<Rightarrow> sha option" where
  "sha_finish s =
     (case typed_set (replicate 64 0) (subarray (sha_buf s) 0 (sha_bufLen s)) 0 of
        None \<Rightarrow> None
      | Some block0 \<Rightarrow>
          let block1 = block0[sha_bufLen s := 0x80];
              bl = sha_bufLen s + 1;
              (block2, s2, bl2) =
                (if 56 < bl
                 then (replicate 64 0, sha_compress (fill_zero 64 block1 bl) s, 0)
                 else (block1, s, bl));
              block3 = put_length (sha_totalBitsHi s) (sha_totalBitsLo s) (fill_zero 56 block2 bl2)
          in Some (sha_compress block3 s2))"

definition sha_hexDigest :: "sha \<Rightarrow> (string \<times> sha) option" where
  "sha_hexDigest s =
     (case sha_finish s of
        None \<Rightarrow> None
      | Some t \<Rightarrow> Some
          (w4 (sha_h0 t) @ w4 (sha_h1 t) @ w4 (sha_h2 t) @ w4 (sha_h3 t) @ w4 (sha_h4 t)
             @ w4 (sha_h5 t) @ w4 (sha_h6 t) @ w4 (sha_h7 t), t))"

section \<open>Callers\<close>

definition bufferToHex :: "u8array \<Rightarrow> string" where
  "bufferToHex u8 =
     concat (map (\<lambda>b. (if b < 16 then ''0'' else '''') @ js_toString16 (unat b)) u8)"

text \<open>\<open>HASH_SLICE\<close> and the loop of the hash worker: \<open>file.slice(offset, end)\<close> until the end.\<close>

definition HASH_SLICE :: nat where
  "HASH_SLICE = 32 * 1024 * 1024"

function (sequential) worker_hash_loop :: "nat \<Rightarrow> u8array \<Rightarrow> nat \<Rightarrow> sha \<Rightarrow> sha option" where
  "worker_hash_loop hslice file offset s =
     (if offset < length file \<and> 0 < hslice then
        let e = min (offset + hslice) (length file) in
        case sha_update (subarray file offset e) s of
          None \<Rightarrow> None
        | Some s' \<Rightarrow> worker_hash_loop hslice file e s'
      else Some s)"
  by pat_completeness auto
termination
  by (relation "measure (\<lambda>(hslice, file, offset, s). length file - offset)") auto

declare worker_hash_loop.simps [simp del]

definition worker_hash :: "nat \<Rightarrow> u8array \<Rightarrow> string option" where
  "worker_hash hslice file =
     (case worker_hash_loop hslice file 0 createSha256 of
        None \<Rightarrow> None
      | Some s \<Rightarrow> map_option fst (sha_hexDigest s))"

text \<open>\<open>sha256HexOfBuffer\<close>: \<open>subtle\<close> is the browser's \<open>crypto.subtle.digest\<close> (\<open>None\<close>: not
  available; an inner \<open>None\<close>: it rejects), whose bytes are printed with \<open>bufferToHex\<close>.\<close>

definition sha256HexOfBuffer :: "(u8array \<Rightarrow> u8array option) option \<Rightarrow> u8array \<Rightarrow> string option" where
  "sha256HexOfBuffer subtle u8 =
     (let js = (case sha_update u8 createSha256 of
                  None \<Rightarrow> None
                | Some s \<Rightarrow> map_option fst (sha_hexDigest s))
      in case subtle of
           None \<Rightarrow> js
         | Some dig \<Rightarrow> (case dig u8 of Some d \<Rightarrow> Some (bufferToHex d) | None \<Rightarrow> js))"

section \<open>compress computes the compression function of the standard\<close>

lemma rotr_word_rotr: "n < 32 \<Longrightarrow> rotr x n = word_rotr n x"
  by (simp add: rotr_def word_rotr_shifts)

lemma sha_round_spec: "sha_round k w st = round_spec k w st"
  by (cases st rule: hash_hex.cases)
    (simp add: rotr_word_rotr Sigma0_def Sigma1_def Ch_def Maj_def Let_def)

lemma length_sha_schedule [simp]: "length (sha_schedule block w) = length w"
  unfolding sha_schedule_def by (simp only: length_fold_update)

lemma fold_store_nth:
  "n \<le> length w \<Longrightarrow> j < n \<Longrightarrow> fold (\<lambda>i w. w[i := f i]) [0..<n] w ! j = f j"
  by (induction n) (auto simp: nth_list_update less_Suc_eq)

lemma load_word_be32: "i < 16 \<Longrightarrow> length block = 64 \<Longrightarrow> load_word block i = be32 (take 4 (drop (4 * i) block))"
  by (simp add: load_word_def be32_def mult.commute add.commute)

lemma expand_word_spec:
  "expand_word w i = sigma1 (w ! (i - 2)) + w ! (i - 7) + sigma0 (w ! (i - 15)) + w ! (i - 16)"
  by (simp add: expand_word_def rotr_word_rotr sigma0_def sigma1_def Let_def ac_simps)

lemma fold_expand_nth:
  assumes "length w = 64" and "\<forall>j<16. w ! j = W_spec blk j" and "16 \<le> n" and "n \<le> 64"
  shows "\<forall>j<n. fold (\<lambda>i w. w[i := expand_word w i]) [16..<n] w ! j = W_spec blk j"
  using assms(3,4)
proof (induction n rule: nat_induct_at_least)
  case base
  then show ?case using assms by simp
next
  case (Suc n)
  let ?w = "fold (\<lambda>i w. w[i := expand_word w i]) [16..<n] w"
  have IH: "\<forall>j<n. ?w ! j = W_spec blk j" using Suc by simp
  have e: "expand_word ?w n = W_spec blk n"
    using IH Suc.hyps by (subst W_spec.simps) (simp add: expand_word_spec)
  have l: "length ?w = 64" using assms(1) by simp
  show ?case using IH e l Suc by (auto simp: less_Suc_eq nth_list_update)
qed

lemma sha_schedule_spec:
  assumes "length w = 64" and "length block = 64" and "t < 64"
  shows "sha_schedule block w ! t = W_spec block t"
proof -
  define w0 where "w0 = fold (\<lambda>i w. w[i := load_word block i]) [0..<16] w"
  have l: "length w0 = 64" unfolding w0_def using assms(1) by (simp only: length_fold_update)
  have "w0 ! j = W_spec block j" if "j < 16" for j
  proof -
    have "w0 ! j = load_word block j"
      unfolding w0_def using assms(1) that by (intro fold_store_nth) auto
    then show ?thesis using that assms(2) by (simp add: W_spec.simps load_word_be32)
  qed
  then have "\<forall>j<64. fold (\<lambda>i w. w[i := expand_word w i]) [16..<64] w0 ! j = W_spec block j"
    using l by (intro fold_expand_nth) auto
  then show ?thesis using assms(3) unfolding sha_schedule_def w0_def by blast
qed

definition sha_hash :: "sha \<Rightarrow> hash_value" where
  "sha_hash s = (sha_h0 s, sha_h1 s, sha_h2 s, sha_h3 s, sha_h4 s, sha_h5 s, sha_h6 s, sha_h7 s)"


definition root_bounds :: "nat \<Rightarrow> nat \<Rightarrow> nat \<Rightarrow> nat \<Rightarrow> bool" where
  "root_bounds r c p k \<longleftrightarrow>
     (c * 2 ^ 32 + k) ^ r \<le> p * (2 ^ 32) ^ r \<and> p * (2 ^ 32) ^ r < (c * 2 ^ 32 + k + 1) ^ r"

definition icbrt :: "nat \<Rightarrow> nat" where
  "icbrt p = (if p < 8 then 1 else if p < 27 then 2 else if p < 64 then 3 else if p < 125 then 4
     else if p < 216 then 5 else 6)"

lemma K_bounds: "list_all2 (\<lambda>p k. root_bounds 3 (icbrt p) p (unat k)) first_primes sha_K"
  by (simp add: first_primes_def sha_K_def root_bounds_def icbrt_def)

lemma of_int_frac: "word_of_int (int (c * 2 ^ 32 + unat k)) = (k :: u32)"
proof -
  have z: "(4294967296 :: u32) = 0" by simp
  show ?thesis by (simp add: z)
qed

lemma length_sha_K: "length first_primes = 64" "length sha_K = 64"
  by (simp_all add: first_primes_def sha_K_def)

lemma sha_K_spec:
  assumes "t < 64"
  shows "sha_K ! t = K_spec t"
proof -
  define c where "c = icbrt (first_primes ! t)"
  have "root_bounds 3 c (first_primes ! t) (unat (sha_K ! t))"
    using list_all2_nthD [OF K_bounds, of t] assms by (simp add: length_sha_K c_def)
  then have "\<lfloor>real (2 ^ 32) * root 3 (real (first_primes ! t))\<rfloor> =
    int (c * 2 ^ 32 + unat (sha_K ! t))"
    unfolding root_bounds_def by (intro floor_root3_eq) auto
  then show ?thesis by (simp only: K_spec_def of_int_frac)
qed

lemma H_spec_eqI:
  assumes "root_bounds 2 c (first_primes ! j) (unat k)"
  shows "H_spec j = k"
proof -
  have "\<lfloor>real (2 ^ 32) * sqrt (real (first_primes ! j))\<rfloor> = int (c * 2 ^ 32 + unat k)"
    using assms unfolding root_bounds_def by (intro floor_sqrt_eq) auto
  then show ?thesis by (simp only: H_spec_def of_int_frac)
qed

lemma sha_H_spec: "sha_hash createSha256 = H_init"
proof -
  have "H_spec 0 = 0x6a09e667" "H_spec 1 = 0xbb67ae85"
    by (rule H_spec_eqI [of 1], simp add: first_primes_def root_bounds_def)+
  moreover have "H_spec 2 = 0x3c6ef372" "H_spec 3 = 0xa54ff53a"
    by (rule H_spec_eqI [of 2], simp add: first_primes_def root_bounds_def)+
  moreover have "H_spec 4 = 0x510e527f" "H_spec 5 = 0x9b05688c"
    by (rule H_spec_eqI [of 3], simp add: first_primes_def root_bounds_def)+
  moreover have "H_spec 6 = 0x1f83d9ab" "H_spec 7 = 0x5be0cd19"
    by (rule H_spec_eqI [of 4], simp add: first_primes_def root_bounds_def)+
  ultimately show ?thesis by (simp add: H_init_def sha_hash_def createSha256_def)
qed

lemma sha_rounds_spec:
  assumes "\<And>t. t < 64 \<Longrightarrow> w ! t = W_spec block t"
  shows "sha_rounds w H = fold (\<lambda>t. round_spec (K_spec t) (W_spec block t)) [0..<64] H"
  unfolding sha_rounds_def
proof (rule fold_cong)
  fix t
  assume "t \<in> set [0..<64]"
  then have "t < 64" by (simp only: set_upt atLeastLessThan_iff)
  then show "sha_round (sha_K ! t) (w ! t) = round_spec (K_spec t) (W_spec block t)"
    using assms by (intro ext) (simp add: sha_K_spec sha_round_spec)
qed (rule refl)+

lemma sha_compress_hash:
  assumes "length (sha_w s) = 64" and "length block = 64"
  shows "sha_hash (sha_compress block s) = compress_spec (sha_hash s) block"
proof -
  define r where "r = sha_rounds (sha_schedule block (sha_w s)) (sha_hash s)"
  have "sha_hash (sha_compress block s) = hash_add (sha_hash s) r"
    unfolding sha_compress_def r_def Let_def sha_hash_def [symmetric]
    by (cases "sha_rounds (sha_schedule block (sha_w s)) (sha_hash s)" rule: hash_hex.cases)
      (simp add: sha_hash_def)
  then show ?thesis
    unfolding compress_spec_def r_def by (simp only: sha_rounds_spec [OF sha_schedule_spec [OF assms]])
qed

lemma sha_compress_frame [frame_simps, simp]:
  "sha_buf (sha_compress block s) = sha_buf s"
  "sha_bufLen (sha_compress block s) = sha_bufLen s"
  "sha_totalBitsLo (sha_compress block s) = sha_totalBitsLo s"
  "sha_totalBitsHi (sha_compress block s) = sha_totalBitsHi s"
  "length (sha_w (sha_compress block s)) = length (sha_w s)"
  unfolding sha_compress_def Let_def by (simp_all add: split_beta)

end
