(* ===== verification/Sha256_Correct.thy ===== *)
theory Sha256_Correct
  imports Sha256
begin

text \<open>
  Correctness of the streaming hasher against the standard: \<open>update\<close> absorbs its argument
  whatever the boundaries of the calls, \<open>hexDigest\<close> pads and prints, and the two callers (the
  hash worker over slices of a file and \<open>sha256HexOfBuffer\<close>) return the digest of the standard.
\<close>

section \<open>update absorbs its argument\<close>

text \<open>The state after \<open>full @ rest\<close> has been fed in: whole blocks are hashed, the rest is buffered.\<close>

definition sha_rel :: "sha \<Rightarrow> byte list \<Rightarrow> byte list \<Rightarrow> bool" where
  "sha_rel s full rest \<longleftrightarrow>
     length (sha_w s) = 64 \<and> length (sha_buf s) = 64 \<and> length full mod 64 = 0
     \<and> length rest < 64 \<and> sha_bufLen s = length rest \<and> take (length rest) (sha_buf s) = rest
     \<and> sha_hash s = foldl compress_spec H_init (sha_blocks full)"

definition sha_bits :: "sha \<Rightarrow> nat \<Rightarrow> bool" where
  "sha_bits s n \<longleftrightarrow> sha_totalBitsLo s = 8 * n mod 2 ^ 32 \<and> sha_totalBitsHi s = 8 * n div 2 ^ 32 mod 2 ^ 32"

lemma sha_rel_absorb:
  assumes "sha_rel s full rest" and "length rest + length piece \<le> 64"
    and "typed_set (sha_buf s) piece (sha_bufLen s) = Some buf'"
    and "s1 = s\<lparr>sha_buf := buf', sha_bufLen := sha_bufLen s + length piece\<rparr>"
    and "s2 = (if sha_bufLen s1 = 64 then (sha_compress (sha_buf s1) s1)\<lparr>sha_bufLen := 0\<rparr> else s1)"
  shows "\<exists>full' rest'. full' @ rest' = full @ rest @ piece \<and> sha_rel s2 full' rest'"
proof -
  from assms(1) have f: "length (sha_w s) = 64" "length (sha_buf s) = 64" "length full mod 64 = 0"
    "sha_bufLen s = length rest" "take (length rest) (sha_buf s) = rest"
    "sha_hash s = foldl compress_spec H_init (sha_blocks full)"
    by (auto simp: sha_rel_def)
  have b: "buf' = rest @ piece @ drop (length rest + length piece) (sha_buf s)"
    using assms(2,3) f by (simp add: typed_set_def)
  have s1h: "sha_hash s1 = sha_hash s" using assms(4) by (simp add: sha_hash_def)
  show ?thesis
  proof (cases "length rest + length piece = 64")
    case True
    then have bb: "buf' = rest @ piece" using b f by simp
    have s2: "s2 = (sha_compress buf' s1)\<lparr>sha_bufLen := 0\<rparr>" using assms True f by simp
    have "sha_hash s2 = sha_hash (sha_compress buf' s1)" by (simp add: s2 sha_hash_def)
    also have "\<dots> = compress_spec (sha_hash s1) buf'"
      using assms(4) f bb True by (intro sha_compress_hash) auto
    also have "\<dots> = foldl compress_spec H_init (sha_blocks (full @ rest @ piece))"
      using f s1h bb True by (simp add: sha_blocks_append)
    finally have "sha_rel s2 (full @ rest @ piece) []"
      using f True s2 bb assms(4) unfolding sha_rel_def by (simp add: mod_add_eq [symmetric])
    then show ?thesis by (metis append_Nil2)
  next
    case False
    then have "s2 = s1" using assms f by simp
    then have "sha_rel s2 full (rest @ piece)"
      using False assms(2,4) f b s1h unfolding sha_rel_def by simp
    then show ?thesis by blast
  qed
qed

lemma sha_absorb_bits [simp]:
  "sha_bits (if b then (sha_compress blk s)\<lparr>sha_bufLen := k\<rparr> else s) n = sha_bits s n"
  "sha_bits (s\<lparr>sha_buf := buf, sha_bufLen := j\<rparr>) n = sha_bits s n"
  by (simp_all add: sha_bits_def)

lemma sha_update_loop_rel:
  assumes "sha_rel s full rest" and "off \<le> length u8"
  shows "\<exists>s' full' rest'. sha_update_loop u8 off s = Some s'
    \<and> full' @ rest' = full @ rest @ drop off u8 \<and> sha_rel s' full' rest'
    \<and> (\<forall>n. sha_bits s' n = sha_bits s n)"
  using assms
proof (induction u8 off s arbitrary: full rest rule: sha_update_loop.induct)
  case (1 u8 off s)
  show ?case
  proof (cases "off < length u8")
    case False
    then have "sha_update_loop u8 off s = Some s" by (simp add: sha_update_loop.simps [of u8 off s])
    with False "1.prems" show ?thesis by fastforce
  next
    case True
    define tk where "tk = min (64 - sha_bufLen s) (length u8 - off)"
    define piece where "piece = subarray u8 off (off + tk)"
    from "1.prems" have r: "sha_bufLen s = length rest" "length rest < 64" "length (sha_buf s) = 64"
      by (auto simp: sha_rel_def)
    have lp: "length piece = tk" using True by (simp add: piece_def tk_def)
    have fit: "length rest + length piece \<le> 64" using r by (simp add: lp tk_def)
    then obtain buf' where buf': "typed_set (sha_buf s) piece (sha_bufLen s) = Some buf'"
      using r by (simp add: typed_set_def)
    define s1 where "s1 = s\<lparr>sha_buf := buf', sha_bufLen := sha_bufLen s + tk\<rparr>"
    define s2 where
      "s2 = (if sha_bufLen s1 = 64 then (sha_compress (sha_buf s1) s1)\<lparr>sha_bufLen := 0\<rparr> else s1)"
    obtain full' rest' where fr: "full' @ rest' = full @ rest @ piece" "sha_rel s2 full' rest'"
      using sha_rel_absorb [OF "1.prems"(1) fit buf', of s1 s2] by (auto simp: s1_def s2_def lp)
    have unf: "sha_update_loop u8 off s = sha_update_loop u8 (off + tk) s2"
    proof -
      have "\<not> 64 < sha_bufLen s" using r by simp
      then show ?thesis
        unfolding sha_update_loop.simps [of u8 off s] Let_def s1_def s2_def
          tk_def [symmetric] piece_def [symmetric] buf'
        using True by (simp only: if_True if_False option.case)
    qed
    have "off + tk \<le> length u8" using True by (simp add: tk_def)
    then obtain s' f'' r'' where IH: "sha_update_loop u8 (off + tk) s2 = Some s'"
      "f'' @ r'' = full' @ rest' @ drop (off + tk) u8" "sha_rel s' f'' r''"
      "\<forall>n. sha_bits s' n = sha_bits s2 n"
      using "1.IH" [OF True _ tk_def _ s1_def fr(2) [unfolded s2_def]] r buf'
      unfolding piece_def s2_def by auto
    have "drop off u8 = piece @ drop (off + tk) u8"
      unfolding piece_def using \<open>off + tk \<le> length u8\<close> by (intro subarray_drop_split) auto
    then have "f'' @ r'' = full @ rest @ drop off u8"
      using IH(2) fr(1) by (metis append_assoc)
    moreover have "sha_bits s2 n = sha_bits s n" for n by (simp add: s2_def s1_def)
    ultimately show ?thesis using unf IH by auto
  qed
qed

lemma add_bits_exact:
  assumes "len < 2 ^ 29" and "lo < 2 ^ 32"
  shows "add_bits lo hi len =
    ((hi * 2 ^ 32 + lo + 8 * len) mod 2 ^ 32, (hi * 2 ^ 32 + lo + 8 * len) div 2 ^ 32 mod 2 ^ 32)"
proof -
  have len0: "len div 0x20000000 = 0" and bits: "len * 8 < 2 ^ 32" using assms(1) by simp_all
  have m: "(hi * 2 ^ 32 + lo + 8 * len) mod 2 ^ 32 = (lo + len * 8) mod 2 ^ 32"
    by (simp add: add.assoc mult.commute)
  have d: "(hi * 2 ^ 32 + lo + 8 * len) div 2 ^ 32 = hi + (lo + len * 8) div 2 ^ 32"
    by (simp add: add.assoc mult.commute)
  have c: "(lo + len * 8) div 2 ^ 32 = (if (lo + len * 8) mod 2 ^ 32 < len * 8 then 1 else 0)"
  proof (cases "lo + len * 8 < 2 ^ 32")
    case True
    then show ?thesis by simp
  next
    case False
    then have q: "lo + len * 8 = 2 ^ 32 + (lo + len * 8 - 2 ^ 32)" by simp
    moreover have "lo + len * 8 - 2 ^ 32 < len * 8" using assms(2) bits False by linarith
    moreover have "lo + len * 8 - 2 ^ 32 < 2 ^ 32" using assms(2) bits by linarith
    ultimately show ?thesis
      by (metis div_add_self1 div_less mod_add_self1 mod_less One_nat_def
          add_0 power_not_zero zero_neq_numeral)
  qed
  show ?thesis unfolding add_bits_def Let_def ToUint32_def m d c len0 by simp
qed

lemma sha_update_correct:
  assumes "sha_rel s full rest" and "sha_bits s (length (full @ rest))"
    and "length u8 < 2 ^ 29"
  shows "\<exists>s' full' rest'. sha_update u8 s = Some s' \<and> full' @ rest' = full @ rest @ u8
    \<and> sha_rel s' full' rest' \<and> sha_bits s' (length (full' @ rest'))"
proof -
  define n where "n = length (full @ rest)"
  obtain lo hi where lh: "add_bits (sha_totalBitsLo s) (sha_totalBitsHi s) (length u8) = (lo, hi)"
    by (cases "add_bits (sha_totalBitsLo s) (sha_totalBitsHi s) (length u8)")
  define s0 where "s0 = s\<lparr>sha_totalBitsLo := lo, sha_totalBitsHi := hi\<rparr>"
  have r0: "sha_rel s0 full rest" using assms(1) by (simp add: s0_def sha_rel_def sha_hash_def)
  have b0: "sha_bits s0 (n + length u8)"
  proof -
    have l: "sha_totalBitsLo s = 8 * n mod 2 ^ 32" "sha_totalBitsHi s = 8 * n div 2 ^ 32 mod 2 ^ 32"
      using assms(2) by (simp_all add: sha_bits_def n_def)
    define X where "X = (8 * n div 2 ^ 32 mod 2 ^ 32) * 2 ^ 32 + 8 * n mod 2 ^ 32"
    have "(lo, hi) = ((X + 8 * length u8) mod 2 ^ 32, (X + 8 * length u8) div 2 ^ 32 mod 2 ^ 32)"
      using add_bits_exact [OF assms(3), of "sha_totalBitsLo s" "sha_totalBitsHi s"] lh
      unfolding l X_def by simp
    moreover have "X = 8 * n mod 2 ^ 64"
      using mod_mult2_eq [of "8 * n" "2 ^ 32" "2 ^ 32"] by (simp add: X_def)
    moreover have "(8 * n mod 2 ^ 64 + 8 * length u8) mod 2 ^ 32 = (8 * n + 8 * length u8) mod 2 ^ 32"
      by (rule mod_add_cong) (simp_all add: mod_mod_cancel)
    moreover have "(8 * n mod 2 ^ 64 + 8 * length u8) div 2 ^ 32 mod 2 ^ 32 =
      (8 * n + 8 * length u8) div 2 ^ 32 mod 2 ^ 32"
    proof -
      have dm: "a div 2 ^ 32 mod 2 ^ 32 = a mod 2 ^ 64 div 2 ^ 32" for a :: nat
        using mod_mult2_eq [of a "2 ^ 32" "2 ^ 32"] by simp
      show ?thesis unfolding dm mod_add_left_eq ..
    qed
    ultimately show ?thesis by (simp add: sha_bits_def s0_def algebra_simps)
  qed
  obtain s' full' rest' where "sha_update_loop u8 0 s0 = Some s'"
    "full' @ rest' = full @ rest @ u8" "sha_rel s' full' rest'" "\<forall>n. sha_bits s' n = sha_bits s0 n"
    using sha_update_loop_rel [OF r0, of 0 u8] by auto
  moreover have "length (full' @ rest') = n + length u8" using calculation(2) by (simp add: n_def)
  ultimately show ?thesis using b0 lh unfolding sha_update_def s0_def
    by (intro exI [of _ s'] exI [of _ full'] exI [of _ rest']) (simp del: length_append)
qed
section \<open>hexDigest pads and prints\<close>

lemma fill_zero_eq:
  "bl \<le> stop \<Longrightarrow> stop \<le> length b \<Longrightarrow>
     fill_zero stop b bl = take bl b @ replicate (stop - bl) 0 @ drop stop b"
proof (induction stop b bl rule: fill_zero.induct)
  case (1 stop b bl)
  show ?case
  proof (cases "bl < stop")
    case True
    then have "fill_zero stop b bl = take (bl + 1) (b[bl := 0]) @ replicate (stop - (bl + 1)) 0
      @ drop stop (b[bl := 0])"
      using 1 by (simp add: fill_zero.simps [of stop b bl])
    moreover have "take (bl + 1) (b[bl := 0]) = take bl b @ [0]"
      using True "1.prems" by (simp add: take_Suc_conv_app_nth)
    moreover have "replicate (stop - bl) (0 :: byte) = 0 # replicate (stop - (bl + 1)) 0"
      using True by (metis Suc_diff_Suc Suc_eq_plus1 replicate_Suc)
    ultimately show ?thesis using True by simp
  next
    case False
    then have "fill_zero stop b bl = b" by (simp add: fill_zero.simps [of stop b bl])
    with False "1.prems" show ?thesis by simp
  qed
qed

lemma put_length_eq:
  assumes "length b = 64"
  shows "put_length hi lo b = take 56 b @
    [word_of_nat (hi div 2 ^ 24 mod 256), word_of_nat (hi div 2 ^ 16 mod 256),
     word_of_nat (hi div 2 ^ 8 mod 256), word_of_nat (hi mod 256),
     word_of_nat (lo div 2 ^ 24 mod 256), word_of_nat (lo div 2 ^ 16 mod 256),
     word_of_nat (lo div 2 ^ 8 mod 256), word_of_nat (lo mod 256)]"
proof -
  define c where "c = drop 56 b"
  have "length c = 8" using assms by (simp add: c_def)
  then obtain c0 c1 c2 c3 c4 c5 c6 c7 where c: "c = [c0, c1, c2, c3, c4, c5, c6, c7]"
    by (auto simp: length_Suc_conv eval_nat_numeral)
  have "b = take 56 b @ c" by (simp add: c_def)
  moreover have "length (take 56 b) = 56" using assms by simp
  ultimately obtain a where b: "b = a @ [c0, c1, c2, c3, c4, c5, c6, c7]" and a: "length a = 56"
    using c by metis
  show ?thesis unfolding put_length_def b using a by (simp add: list_update_append)
qed

lemma byte_of_nat_cong: "a mod 256 = b mod 256 \<Longrightarrow> (word_of_nat a :: byte) = word_of_nat b"
  by (simp add: word_of_nat_eq_iff take_bit_eq_mod)

lemma byte_of_mod: "(word_of_nat (n mod 256) :: byte) = word_of_nat n"
  by (rule byte_of_nat_cong) simp

lemma byte_of_half:
  assumes "k + 8 \<le> 32"
  shows "(word_of_nat (n mod 2 ^ 32 div 2 ^ k) :: byte) = word_of_nat (n div 2 ^ k)"
proof (rule byte_of_nat_cong)
  have "take_bit 8 (drop_bit k (take_bit 32 n)) = take_bit 8 (drop_bit k n)"
    using assms by (simp add: drop_bit_take_bit)
  then show "n mod 2 ^ 32 div 2 ^ k mod 256 = n div 2 ^ k mod 256"
    by (simp add: take_bit_eq_mod drop_bit_eq_div)
qed

lemma be64_bytes_list:
  "be64_bytes N =
    [word_of_nat (N div 2 ^ 32 div 2 ^ 24), word_of_nat (N div 2 ^ 32 div 2 ^ 16),
     word_of_nat (N div 2 ^ 32 div 2 ^ 8), word_of_nat (N div 2 ^ 32 div 2 ^ 0),
     word_of_nat (N div 2 ^ 24), word_of_nat (N div 2 ^ 16), word_of_nat (N div 2 ^ 8),
     word_of_nat (N div 2 ^ 0)]"
  by (simp add: be64_bytes_def upt_rec div_mult2_eq [symmetric])

lemma put_length_be64:
  assumes "length b = 64"
  shows "put_length (N div 2 ^ 32 mod 2 ^ 32) (N mod 2 ^ 32) b = take 56 b @ be64_bytes N"
proof -
  have z: "(word_of_nat (M mod 2 ^ 32) :: byte) = word_of_nat (M div 2 ^ 0)" for M :: nat
    using byte_of_half [of 0 M] by simp
  show ?thesis
    unfolding put_length_eq [OF assms] be64_bytes_list byte_of_mod z
    by (simp only: byte_of_half z)
qed

lemma put_length_bits:
  assumes "sha_bits s n" and "length b = 64"
  shows "put_length (sha_totalBitsHi s) (sha_totalBitsLo s) b = take 56 b @ be64_bytes (8 * n)"
proof -
  have "sha_totalBitsHi s = 8 * n div 2 ^ 32 mod 2 ^ 32" "sha_totalBitsLo s = 8 * n mod 2 ^ 32"
    using assms(1) unfolding sha_bits_def by blast+
  then show ?thesis by (simp only: put_length_be64 [OF assms(2)])
qed
lemma sha_first_block:
  assumes "sha_rel s full rest"
  shows "typed_set (replicate 64 0) (subarray (sha_buf s) 0 (sha_bufLen s)) 0 =
      Some (rest @ replicate (64 - length rest) 0)"
    and "(rest @ replicate (64 - length rest) 0)[sha_bufLen s := 0x80] =
      rest @ [0x80] @ replicate (63 - length rest) 0"
proof -
  from assms have r: "sha_bufLen s = length rest" "length rest < 64" "length (sha_buf s) = 64"
    "take (length rest) (sha_buf s) = rest"
    by (auto simp: sha_rel_def)
  show "typed_set (replicate 64 0) (subarray (sha_buf s) 0 (sha_bufLen s)) 0 =
      Some (rest @ replicate (64 - length rest) 0)"
    using r by (simp add: typed_set_def subarray_def)
  have "64 - length rest = Suc (63 - length rest)" using r(2) by linarith
  then have "replicate (64 - length rest) (0 :: byte) = 0 # replicate (63 - length rest) 0"
    by (simp only: replicate_Suc)
  then show "(rest @ replicate (64 - length rest) 0)[sha_bufLen s := 0x80] =
      rest @ [0x80] @ replicate (63 - length rest) 0"
    using r by (simp add: list_update_append)
qed

lemma sha_pad_parts:
  assumes "length full mod 64 = 0" and "length rest < 64"
  shows "sha_blocks (sha_pad (full @ rest)) = sha_blocks full @
    (let len8 = be64_bytes (8 * length (full @ rest)) in
     if length rest < 56 then [rest @ [0x80] @ replicate (55 - length rest) 0 @ len8]
     else [rest @ [0x80] @ replicate (63 - length rest) 0, replicate 56 0 @ len8])"
proof -
  let ?len8 = "be64_bytes (8 * length (full @ rest))"
  have m: "length (full @ rest) mod 64 = length rest"
    using assms by (simp add: mod_add_left_eq [symmetric])
  show ?thesis
  proof (cases "length rest < 56")
    case True
    have "sha_pad (full @ rest) = full @ (rest @ [0x80] @ replicate (55 - length rest) 0 @ ?len8)"
      unfolding sha_pad_def pad_zeros unfolding m using True by simp
    then show ?thesis using True assms by (simp add: sha_blocks_append)
  next
    case False
    have "replicate (119 - length rest) (0 :: byte) = replicate (63 - length rest) 0 @ replicate 56 0"
      using assms by (simp add: replicate_add [symmetric])
    then have "sha_pad (full @ rest) =
      full @ (rest @ [0x80] @ replicate (63 - length rest) 0) @ (replicate 56 0 @ ?len8)"
      unfolding sha_pad_def pad_zeros unfolding m using False by simp
    moreover have "sha_blocks ((rest @ [0x80] @ replicate (63 - length rest) 0) @ (replicate 56 0 @ ?len8)) =
      (rest @ [0x80] @ replicate (63 - length rest) 0) # sha_blocks (replicate 56 0 @ ?len8)"
      using assms by (intro sha_blocks_Cons) simp
    ultimately show ?thesis using False assms
      by (simp only: sha_blocks_append [OF assms(1)]) simp
  qed
qed

lemma sha_finish_correct:
  assumes rel: "sha_rel s full rest" and bits: "sha_bits s (length (full @ rest))"
  shows "\<exists>t. sha_finish s = Some t \<and> sha_hash t = sha256_spec (full @ rest)"
proof -
  from rel have r: "sha_bufLen s = length rest" "length rest < 64" "length (sha_w s) = 64"
    "length full mod 64 = 0" "sha_hash s = foldl compress_spec H_init (sha_blocks full)"
    by (auto simp: sha_rel_def)
  note blk = sha_first_block [OF rel, unfolded r(1)]
  define len8 where "len8 = be64_bytes (8 * length (full @ rest))"
  have l8: "length len8 = 8" by (simp add: len8_def)
  show ?thesis
  proof (cases "length rest < 56")
    case True
    define b where "b = rest @ [0x80] @ replicate (55 - length rest) 0 @ len8"
    have k: "56 - length rest = Suc (55 - length rest)" using True by linarith
    then have "fill_zero 56 (rest @ [0x80] @ replicate (63 - length rest) 0) (length rest + 1) =
      (rest @ [0x80] @ replicate (55 - length rest) 0) @ replicate 8 0"
      using True by (simp add: fill_zero_eq)
    then have "sha_finish s = Some (sha_compress b s)"
      unfolding sha_finish_def r(1) blk using True r put_length_bits [OF bits]
      by (simp add: blk Let_def b_def len8_def k)
    moreover have "sha_hash (sha_compress b s) = sha256_spec (full @ rest)"
      using True r l8 sha_compress_hash [OF r(3), of b]
      unfolding sha256_spec_def sha_pad_parts [OF r(4,2)] by (simp add: b_def len8_def Let_def)
    ultimately show ?thesis by blast
  next
    case False
    define a where "a = rest @ [0x80] @ replicate (63 - length rest) 0"
    define b where "b = replicate 56 0 @ len8"
    have "fill_zero 64 a (length rest + 1) = a" "fill_zero 56 (replicate 64 0) 0 = replicate 64 0"
      using False r by (simp_all add: fill_zero_eq a_def replicate_add [symmetric])
    then have "sha_finish s = Some (sha_compress b (sha_compress a s))"
      unfolding sha_finish_def r(1) blk using False r put_length_bits [OF bits, of "replicate 64 0"]
      by (simp add: blk Let_def a_def b_def len8_def)
    moreover have "sha_hash (sha_compress b (sha_compress a s)) = sha256_spec (full @ rest)"
      using False r l8 sha_compress_hash [OF r(3), of a] sha_compress_hash [of "sha_compress a s" b]
      unfolding sha256_spec_def sha_pad_parts [OF r(4,2)] by (simp add: a_def b_def len8_def Let_def)
    ultimately show ?thesis by blast
  qed
qed

lemma w4_word_hex: "w4 x = word_hex x"
proof (rule hex_string_eqI)
  have m: "unat (y AND 255) = unat y mod 256" for y :: u32
  proof -
    have "y AND 255 = take_bit 8 y" by (simp add: take_bit_eq_mask mask_eq_exp_minus_1)
    then show ?thesis by (simp only: unsigned_take_bit_eq) (simp add: take_bit_eq_mod)
  qed
  have d: "unat (drop_bit k x) = unat x div 2 ^ k" for k
    unfolding unat_drop_bit_eq by (rule drop_bit_eq_div)
  have x: "unat x < 2 ^ 32" using unsigned_less [of x, where ?'a = nat] by simp
  then have "unat x div 2 ^ 24 < 256" by simp
  then have l: "length (padStart 2 (CHR ''0'') (js_toString16 (unat (drop_bit 24 x)))) = 2"
    "length (padStart 2 (CHR ''0'') (js_toString16 (unat (y AND 0xff)))) = 2" for y :: u32
    unfolding d m by (auto intro!: byte_hex_length)
  show "length (w4 x) = length (word_hex x)"
    by (simp add: w4_def word_hex_length l)
  show "list_all is_hex_char (w4 x)"
    by (simp add: w4_def padStart_hex toString16_hex)
  show "list_all is_hex_char (word_hex x)" by (rule word_hex_chars)
  have "hex_to_nat 0 (w4 x) = ((unat x div 2 ^ 24 * 256 + unat x div 2 ^ 16 mod 256) * 256
    + unat x div 2 ^ 8 mod 256) * 256 + unat x mod 256"
    by (simp add: w4_def hex_to_nat_app l) (simp add: m d algebra_simps)
  also have "\<dots> = unat x"
  proof -
    have e: "n div 2 ^ 16 mod 256 + n div 2 ^ 24 * 256 = n div 2 ^ 16"
      "n div 2 ^ 8 mod 256 + n div 2 ^ 16 * 256 = n div 2 ^ 8" for n :: nat
      using div_mult_mod_eq [of "n div 2 ^ 16" 256] div_mult_mod_eq [of "n div 2 ^ 8" 256]
      by (simp_all add: div_mult2_eq [symmetric])
    show ?thesis
      using e [of "unat x"] div_mult_mod_eq [of "unat x" 256] by (simp add: add.commute)
  qed
  finally show "hex_to_nat 0 (w4 x) = hex_to_nat 0 (word_hex x)" by (simp add: word_hex_def)
qed

lemma sha_hexDigest_correct:
  assumes "sha_rel s full rest" and "sha_bits s (length (full @ rest))"
  shows "\<exists>t. sha_hexDigest s = Some (sha256_hex_spec (full @ rest), t)"
proof -
  obtain t where "sha_finish s = Some t" "sha_hash t = sha256_spec (full @ rest)"
    using sha_finish_correct [OF assms] by blast
  moreover have "hash_hex (sha_hash t) = word_hex (sha_h0 t) @ word_hex (sha_h1 t) @
      word_hex (sha_h2 t) @ word_hex (sha_h3 t) @ word_hex (sha_h4 t) @ word_hex (sha_h5 t) @
      word_hex (sha_h6 t) @ word_hex (sha_h7 t)"
    by (simp add: sha_hash_def)
  ultimately show ?thesis by (simp add: sha_hexDigest_def sha256_hex_spec_def w4_word_hex)
qed

lemma sha_rel_create: "sha_rel createSha256 [] []" "sha_bits createSha256 0"
  using sha_H_spec by (simp_all add: sha_rel_def sha_bits_def createSha256_def)

section \<open>Any sequence of updates\<close>

fun sha_updates :: "u8array list \<Rightarrow> sha \<Rightarrow> sha option" where
  "sha_updates [] s = Some s"
| "sha_updates (c # cs) s = (case sha_update c s of None \<Rightarrow> None | Some s' \<Rightarrow> sha_updates cs s')"

lemma sha_updates_rel:
  assumes "sha_rel s full rest" and "sha_bits s (length (full @ rest))"
    and "list_all (\<lambda>c. length c < 2 ^ 29) cs"
  shows "\<exists>s' full' rest'. sha_updates cs s = Some s' \<and> full' @ rest' = full @ rest @ concat cs
    \<and> sha_rel s' full' rest' \<and> sha_bits s' (length (full' @ rest'))"
  using assms
proof (induction cs arbitrary: s full rest)
  case Nil
  then show ?case by fastforce
next
  case (Cons c cs)
  then have "length c < 2 ^ 29" by simp
  then obtain s1 f1 r1 where 1: "sha_update c s = Some s1" "f1 @ r1 = full @ rest @ c"
    "sha_rel s1 f1 r1" "sha_bits s1 (length (f1 @ r1))"
    using sha_update_correct [OF Cons.prems(1,2)] by blast
  have "list_all (\<lambda>c. length c < 2 ^ 29) cs" using Cons.prems(3) by simp
  then obtain s' f' r' where "sha_updates cs s1 = Some s'" "f' @ r' = f1 @ r1 @ concat cs"
    "sha_rel s' f' r'" "sha_bits s' (length (f' @ r'))"
    using Cons.IH [OF 1(3,4)] by blast
  moreover have "f1 @ r1 @ concat cs = full @ rest @ concat (c # cs)" using 1(2) by (metis append_assoc concat.simps(2))
  ultimately show ?case using 1(1) by (intro exI [of _ s'] exI [of _ f'] exI [of _ r']) simp
qed

lemma sha_updates_digest:
  assumes "list_all (\<lambda>c. length c < 2 ^ 29) cs"
  obtains s t where "sha_updates cs createSha256 = Some s"
    and "sha_hexDigest s = Some (sha256_hex_spec (concat cs), t)"
proof -
  have "\<exists>s f r. sha_updates cs createSha256 = Some s \<and> f @ r = concat cs \<and> sha_rel s f r
    \<and> sha_bits s (length (f @ r))"
    using sha_updates_rel [OF sha_rel_create(1) _ assms] sha_rel_create(2) by simp
  then obtain s f r where "sha_updates cs createSha256 = Some s" "f @ r = concat cs" "sha_rel s f r"
    "sha_bits s (length (f @ r))"
    by blast
  then show thesis using sha_hexDigest_correct [of s f r] that by auto
qed

lemma worker_hash_loop_updates:
  assumes "0 < n" and "offset \<le> length file"
  shows "\<exists>cs. concat cs = drop offset file \<and> list_all (\<lambda>c. length c \<le> n) cs
    \<and> worker_hash_loop n file offset s = sha_updates cs s"
  using assms
proof (induction n "file" offset s rule: worker_hash_loop.induct)
  case (1 n "file" offset s)
  show ?case
  proof (cases "offset < length file")
    case False
    then have "worker_hash_loop n file offset s = sha_updates [] s" "concat [] = drop offset file"
      by (simp_all add: worker_hash_loop.simps [of n "file" offset s])
    then show ?thesis by (intro exI [of _ "[]"]) simp
  next
    case True
    define e where "e = min (offset + n) (length file)"
    define c where "c = subarray file offset e"
    have c: "length c \<le> n" "drop offset file = c @ drop e file"
      using True by (auto simp: c_def e_def intro: subarray_drop_split)
    have unf: "worker_hash_loop n file offset s =
      (case sha_update c s of None \<Rightarrow> None | Some s' \<Rightarrow> worker_hash_loop n file e s')"
      unfolding worker_hash_loop.simps [of n "file" offset s] Let_def e_def [symmetric] c_def [symmetric]
      using True "1.prems" by simp
    show ?thesis
    proof (cases "sha_update c s")
      case None
      have "\<exists>cs. concat cs = drop e file \<and> list_all (\<lambda>c. length c \<le> n) cs"
        using "1.prems" by (intro exI [of _ "map (\<lambda>b. [b]) (drop e file)"]) (auto simp: list_all_iff)
      then obtain cs where "concat cs = drop e file" "list_all (\<lambda>c. length c \<le> n) cs" by blast
      then show ?thesis using None c unf by (intro exI [of _ "c # cs"]) simp
    next
      case (Some s1)
      have "e \<le> length file" by (simp add: e_def)
      then obtain cs where "concat cs = drop e file" "list_all (\<lambda>c. length c \<le> n) cs"
        "worker_hash_loop n file e s1 = sha_updates cs s1"
        using "1.IH" [of e s1] True "1.prems" Some by (auto simp: e_def c_def)
      then show ?thesis using Some c unf by (intro exI [of _ "c # cs"]) simp
    qed
  qed
qed

lemma worker_hash_correct:
  assumes "0 < n" and "n < 2 ^ 29"
  shows "worker_hash n file = Some (sha256_hex_spec file)"
proof -
  obtain cs where cs: "concat cs = file" "list_all (\<lambda>c. length c \<le> n) cs"
    "worker_hash_loop n file 0 createSha256 = sha_updates cs createSha256"
    using worker_hash_loop_updates [OF assms(1), of 0 "file" createSha256] by auto
  then have "list_all (\<lambda>c. length c < 2 ^ 29) cs" using assms(2) by (auto simp: list_all_iff)
  then obtain s t where "sha_updates cs createSha256 = Some s"
    "sha_hexDigest s = Some (sha256_hex_spec file, t)"
    using sha_updates_digest cs(1) by metis
  then show ?thesis using cs(3) by (simp add: worker_hash_def)
qed
section \<open>Printing bytes\<close>

lemma bufferToHex_padStart:
  "bufferToHex u8 = concat (map (\<lambda>b. padStart 2 (CHR ''0'') (js_toString16 (unat b))) u8)"
proof -
  have "(if b < 16 then ''0'' else '''') @ js_toString16 (unat b) =
    padStart 2 (CHR ''0'') (js_toString16 (unat b))" for b :: byte
  proof (cases "b < 16")
    case True
    then have "unat b < 16" by (simp add: word_less_nat_alt)
    then have "length (js_toString16 (unat b)) = 1"
      by (simp add: js_toString16_def to_radix.simps [of 16 "unat b"])
    with True show ?thesis by (simp add: padStart_def)
  next
    case False
    then have "16 \<le> unat b" by (simp add: word_less_nat_alt not_less)
    then have "2 \<le> length (js_toString16 (unat b))"
      using to_radix.simps [of 16 "unat b"] to_radix.simps [of 16 "unat b div 16"]
      by (auto simp: js_toString16_def)
    with False show ?thesis by (simp add: padStart_def)
  qed
  then show ?thesis by (simp add: bufferToHex_def)
qed

fun hex_to_bytes :: "string \<Rightarrow> u8array" where
  "hex_to_bytes (c # d # cs) = word_of_nat (hex_to_nat 0 [c, d]) # hex_to_bytes cs"
| "hex_to_bytes _ = []"

lemma hex_to_bytes_bufferToHex: "hex_to_bytes (bufferToHex u8) = u8"
proof (induction u8)
  case Nil
  then show ?case by (simp add: bufferToHex_def)
next
  case (Cons b u8)
  let ?p = "padStart 2 (CHR ''0'') (js_toString16 (unat b))"
  have "length ?p = 2" by (rule byte_hex_length) simp
  then obtain c d where cd: "?p = [c, d]" by (auto simp: length_Suc_conv numeral_2_eq_2)
  then have "hex_to_nat 0 [c, d] = unat b" by (metis hex_to_nat_padStart hex_to_nat_toString16)
  then have "word_of_nat (hex_to_nat 0 [c, d]) = b" by (simp del: hex_to_nat.simps)
  moreover have "bufferToHex (b # u8) = c # d # bufferToHex u8"
    using cd by (simp add: bufferToHex_padStart)
  ultimately show ?case using Cons by simp
qed

text \<open>The bytes of a hash value, most significant first, as \<open>crypto.subtle.digest\<close> returns them.\<close>

definition word_bytes :: "u32 \<Rightarrow> u8array" where
  "word_bytes x = [ucast (drop_bit 24 x), ucast (drop_bit 16 x), ucast (drop_bit 8 x), ucast x]"

fun hash_bytes :: "hash_value \<Rightarrow> u8array" where
  "hash_bytes (a, b, c, d, e, f, g, h) = concat (map word_bytes [a, b, c, d, e, f, g, h])"

lemma bufferToHex_word_bytes: "bufferToHex (word_bytes x) = word_hex x"
proof -
  have u: "unat (ucast y :: byte) = unat (y AND 255)" for y :: u32
  proof -
    have "y AND 255 = take_bit 8 y" by (simp add: take_bit_eq_mask mask_eq_exp_minus_1)
    then show ?thesis by (simp only: unsigned_take_bit_eq) (simp add: unsigned_ucast_eq)
  qed
  have "drop_bit 24 x AND 255 = drop_bit 24 x"
  proof -
    have "drop_bit 24 x AND 255 = take_bit 8 (drop_bit 24 x)"
      by (simp add: take_bit_eq_mask mask_eq_exp_minus_1)
    also have "\<dots> = drop_bit 24 x" by (simp add: take_bit_drop_bit take_bit_word_eq_self)
    finally show ?thesis .
  qed
  then show ?thesis
    unfolding w4_word_hex [symmetric] w4_def bufferToHex_padStart word_bytes_def
    by (simp only: list.map u)
qed

lemma bufferToHex_append: "bufferToHex (a @ b) = bufferToHex a @ bufferToHex b"
  by (simp add: bufferToHex_def)

lemma bufferToHex_hash_bytes: "bufferToHex (hash_bytes H) = hash_hex H"
proof -
  have "bufferToHex [] = []" by (simp add: bufferToHex_def)
  then show ?thesis
    by (cases H rule: hash_hex.cases) (simp add: bufferToHex_append bufferToHex_word_bytes)
qed

lemma sha256HexOfBuffer_digest:
  assumes "length u8 < 2 ^ 29"
    and "\<And>dig d. subtle = Some dig \<Longrightarrow> dig u8 = Some d \<Longrightarrow> d = hash_bytes (sha256_spec u8)"
  shows "sha256HexOfBuffer subtle u8 = Some (sha256_hex_spec u8)"
proof -
  have "list_all (\<lambda>c. length c < 2 ^ 29) [u8]" using assms(1) by simp
  then obtain s t where "sha_updates [u8] createSha256 = Some s"
    "sha_hexDigest s = Some (sha256_hex_spec u8, t)"
    using sha_updates_digest [of "[u8]"] by auto
  then have js: "sha256HexOfBuffer None u8 = Some (sha256_hex_spec u8)"
    by (auto simp: sha256HexOfBuffer_def split: option.splits)
  have "bufferToHex d = sha256_hex_spec u8" if "subtle = Some dig" "dig u8 = Some d" for dig d
    using assms(2) [OF that] by (simp only: bufferToHex_hash_bytes sha256_hex_spec_def)
  then show ?thesis using js
    by (auto simp: sha256HexOfBuffer_def Let_def split: option.splits)
qed

section \<open>Properties\<close>

text \<open>C6. Whatever the boundaries at which a message is cut into calls of \<open>update\<close> (each call below
  2 to the 29 bytes), \<open>hexDigest\<close> returns the SHA-256 of the whole message, as FIPS 180-4 defines
  it, in lower-case hexadecimal; no call raises.\<close>

theorem sha_stream_correct:
  assumes "list_all (\<lambda>c. length c < 2 ^ 29) cs"
  shows "\<exists>s t. sha_updates cs createSha256 = Some s
    \<and> sha_hexDigest s = Some (sha256_hex_spec (concat cs), t)"
  using sha_updates_digest [OF assms] by metis

theorem sha_stream_correct_witness:
  "list_all (\<lambda>c. length c < 2 ^ 29) [[97], [98, 99 :: byte]] \<and>
   (\<exists>s t. sha_updates [[97], [98, 99]] createSha256 = Some s
      \<and> sha_hexDigest s = Some (sha256_hex_spec [97, 98, 99], t))"
  using sha_stream_correct [of "[[97], [98, 99]]"] by simp

text \<open>The hash worker, which feeds a file of any size to the hasher in slices of
  \<open>HASH_SLICE\<close> bytes, terminates and posts the SHA-256 of the whole file.\<close>

theorem worker_hash_file: "worker_hash HASH_SLICE bytes = Some (sha256_hex_spec bytes)"
  by (rule worker_hash_correct) (simp_all add: HASH_SLICE_def)

text \<open>\<open>sha256HexOfBuffer\<close> returns the same digest on both of its paths: through
  \<open>crypto.subtle\<close> when that is present and does not reject (it is documented to return the
  SHA-256 of its argument), and through the pure JavaScript hasher otherwise.\<close>

theorem sha256HexOfBuffer_correct:
  assumes "length u8 < 2 ^ 29"
    and "\<And>dig d. subtle = Some dig \<Longrightarrow> dig u8 = Some d \<Longrightarrow> d = hash_bytes (sha256_spec u8)"
  shows "sha256HexOfBuffer subtle u8 = Some (sha256_hex_spec u8)"
  by (rule sha256HexOfBuffer_digest [OF assms])

theorem sha256HexOfBuffer_correct_witness:
  "sha256HexOfBuffer (Some (\<lambda>m. Some (hash_bytes (sha256_spec m)))) [1, 2, 3] =
   sha256HexOfBuffer None [1, 2, 3]"
proof -
  have "sha256HexOfBuffer None [1, 2, 3] = Some (sha256_hex_spec [1, 2, 3])"
    by (rule sha256HexOfBuffer_correct) auto
  moreover have "sha256HexOfBuffer (Some (\<lambda>m. Some (hash_bytes (sha256_spec m)))) [1, 2, 3] =
    Some (sha256_hex_spec [1, 2, 3])"
    by (rule sha256HexOfBuffer_correct) auto
  ultimately show ?thesis by simp
qed

text \<open>The carry test of \<open>update\<close> is wrong for a single call of 2 to the 29 bytes (512 MiB) or
  more: at exactly that length it counts the carry twice, so the high half of the bit length is 2
  and not 1. The callers stay below that length.\<close>

theorem add_bits_double_carry:
  "add_bits 0 0 (2 ^ 29) = (0, 2) \<and> (8 * 2 ^ 29) div 2 ^ 32 = (1 :: nat)"
  by (simp add: add_bits_def ToUint32_def Let_def)

end
