(* ===== verification/Crc32.thy ===== *)
theory Crc32
  imports JS_Prelude
begin

text \<open>
  The chunk checksum: \<open>crc32Hex\<close> of \<open>src/WebApp/wwwroot/js/upload.js\<close> with its memoised lookup
  table, and the server's side of it in \<open>src/WebApi/Infrastructure/ChunkCrc32.cs\<close>
  (\<open>ComputeHex\<close>, \<open>EqualsHex\<close>) and \<open>UploadController.UploadChunk\<close>. The reference is the bitwise
  CRC-32 of IEEE 802.3 (reflected polynomial EDB88320). \<open>System.IO.Hashing.Crc32\<close> of .NET is not
  in the repository: its \<open>GetCurrentHash\<close> is the parameter \<open>hash\<close> of the server's definitions.
\<close>

section \<open>The client\<close>

definition table_step :: "u32 \<Rightarrow> u32" where
  "table_step c = (if c AND 1 \<noteq> 0 then 0xEDB88320 XOR drop_bit 1 c else drop_bit 1 c)"

definition make_table :: "u32 list" where
  "make_table = map (\<lambda>i. (table_step ^^ 8) (word_of_nat i)) [0..<256]"

definition crc_lookup_step :: "u32 list \<Rightarrow> u32 \<Rightarrow> byte \<Rightarrow> u32" where
  "crc_lookup_step table crc b = drop_bit 8 crc XOR table ! unat ((crc XOR ucast b) AND 0xFF)"

text \<open>The table is kept in the function object (\<open>crc32Hex._t\<close>): the first call computes it and
  later calls find it there. The second component of the result is that property afterwards.\<close>

definition crc32Hex :: "u32 list option \<Rightarrow> u8array \<Rightarrow> string \<times> u32 list option" where
  "crc32Hex cache u8 =
     (let table = (case cache of Some t \<Rightarrow> t | None \<Rightarrow> make_table);
          crc = foldl (crc_lookup_step table) (0 XOR - 1) u8
      in (padStart 8 (CHR ''0'') (js_toString16 (unat (crc XOR - 1))), Some table))"

section \<open>The server\<close>

text \<open>\<open>Convert.ToHexString(bytes).ToLowerInvariant()\<close>.\<close>

definition ToHexStringLower :: "u8array \<Rightarrow> string" where
  "ToHexStringLower bs = concat (map (\<lambda>b. [digit_char (unat b div 16), digit_char (unat b mod 16)]) bs)"

definition ComputeHex :: "(u8array \<Rightarrow> u8array) \<Rightarrow> u8array \<Rightarrow> string" where
  "ComputeHex hash data = ToHexStringLower (hash data)"

definition EqualsHex :: "string option \<Rightarrow> string \<Rightarrow> bool" where
  "EqualsHex expected actual =
     (case expected of
        None \<Rightarrow> False
      | Some s \<Rightarrow>
          if list_all is_white_space s then False
          else let e = map to_lower (str_trim s);
                   e' = (if take 2 e = ''0x'' then drop 2 e else e)
               in map to_lower e' = map to_lower actual)"

section \<open>The reference: one shift per bit\<close>

definition crc_bit :: "u32 \<Rightarrow> u32" where
  "crc_bit c = (if bit c 0 then drop_bit 1 c XOR 0xEDB88320 else drop_bit 1 c)"

definition crc_byte :: "u32 \<Rightarrow> byte \<Rightarrow> u32" where
  "crc_byte c b = (crc_bit ^^ 8) (c XOR ucast b)"

definition crc32_spec :: "byte list \<Rightarrow> u32" where
  "crc32_spec m = NOT (foldl crc_byte (NOT 0) m)"

text \<open>The bytes of a word, least significant first: the order in which
  \<open>System.IO.Hashing.Crc32\<close> is documented to emit its result.\<close>

definition le_bytes :: "u32 \<Rightarrow> u8array" where
  "le_bytes x = [ucast x, ucast (drop_bit 8 x), ucast (drop_bit 16 x), ucast (drop_bit 24 x)]"

section \<open>Linearity of the bitwise step\<close>

lemma crc_bit_eq: "crc_bit c = drop_bit 1 c XOR (if bit c 0 then 0xEDB88320 else 0)"
  by (simp add: crc_bit_def)

lemma table_step_crc_bit: "table_step c = crc_bit c"
proof -
  have "c AND 1 \<noteq> 0 \<longleftrightarrow> bit c 0" by (simp add: and_one_eq odd_iff_mod_2_eq_one bit_0)
  then show ?thesis by (simp add: table_step_def crc_bit_def xor.commute)
qed

lemma drop_bit_xor_u32: "drop_bit n (x XOR y) = drop_bit n x XOR drop_bit n (y :: u32)"
  by (rule bit_word_eqI) (simp add: bit_drop_bit_eq bit_xor_iff)

lemma xor_cancel_left: "a XOR x = a XOR y \<Longrightarrow> x = (y :: u32)"
proof (rule bit_word_eqI)
  fix i
  assume "a XOR x = a XOR y"
  then have "bit (a XOR x) i = bit (a XOR y) i" by simp
  then show "bit x i = bit y i" by (auto simp: bit_xor_iff)
qed

lemma xor_cancel_right: "x XOR a = y XOR a \<Longrightarrow> x = (y :: u32)"
  by (rule xor_cancel_left [of a]) (simp add: xor.commute)

lemma crc_bit_xor: "crc_bit (x XOR y) = crc_bit x XOR crc_bit y"
  by (auto simp: crc_bit_eq drop_bit_xor_u32 bit_xor_iff ac_simps)

lemma crc_bits_xor: "(crc_bit ^^ n) (x XOR y) = (crc_bit ^^ n) x XOR (crc_bit ^^ n) y"
  by (induction n) (simp_all add: crc_bit_xor)

lemma crc_bits_shift:
  "(\<And>i. i < n \<Longrightarrow> \<not> bit x i) \<Longrightarrow> (crc_bit ^^ n) x = drop_bit n x"
proof (induction n arbitrary: x)
  case 0
  then show ?case by simp
next
  case (Suc n)
  have "\<not> bit x 0" using Suc.prems [of 0] by simp
  then have "crc_bit x = drop_bit 1 x" by (simp add: crc_bit_def)
  moreover have "\<not> bit (drop_bit 1 x) i" if "i < n" for i
    using Suc.prems [of "Suc i"] that by (simp add: bit_drop_bit_eq)
  ultimately show ?case using Suc.IH [of "drop_bit 1 x"]
    by (simp add: funpow_swap1)
qed

lemma crc_bit_inj: "crc_bit x = crc_bit y \<Longrightarrow> x = y"
proof -
  assume "crc_bit x = crc_bit y"
  then have z: "crc_bit (x XOR y) = 0" by (simp add: crc_bit_xor)
  have "\<not> bit (x XOR y) 0"
  proof
    define d where "d = x XOR y"
    assume "bit (x XOR y) 0"
    moreover have "\<not> bit d 32" by (auto dest: bit_imp_le_length)
    ultimately have "bit (crc_bit (x XOR y)) 31"
      unfolding d_def [symmetric] by (simp add: crc_bit_eq bit_xor_iff bit_drop_bit_eq)
    with z show False by simp
  qed
  then have d: "drop_bit 1 (x XOR y) = 0" "\<not> bit (x XOR y) 0" using z by (simp_all add: crc_bit_eq)
  have "\<not> bit (x XOR y) i" for i
  proof (cases i)
    case (Suc j)
    then have "bit (x XOR y) i = bit (drop_bit 1 (x XOR y)) j"
      by (simp add: bit_drop_bit_eq bit_xor_iff)
    with d show ?thesis by simp
  qed (use d in simp)
  then have "x XOR y = 0" by (intro bit_word_eqI) simp
  then show "x = y" using xor_cancel_left [of x y x] by (simp add: xor.commute)
qed

lemma crc_bits_inj: "(crc_bit ^^ n) x = (crc_bit ^^ n) y \<Longrightarrow> x = y"
  by (induction n) (auto dest: crc_bit_inj)

section \<open>Table lookup equals eight single-bit steps\<close>

lemma make_table_nth: "i < 256 \<Longrightarrow> make_table ! i = (crc_bit ^^ 8) (word_of_nat i)"
proof -
  have "table_step = crc_bit" by (rule ext) (rule table_step_crc_bit)
  then show "i < 256 \<Longrightarrow> ?thesis" unfolding make_table_def by (simp del: upt_rec_numeral)
qed

lemma crc_lookup_step_eq: "crc_lookup_step make_table crc b = crc_byte crc b"
proof -
  define x where "x = crc XOR ucast b"
  have m: "x AND 0xFF = take_bit 8 x" by (simp add: take_bit_eq_mask mask_eq_exp_minus_1)
  have lt: "unat (take_bit 8 x) < 256"
    by (simp add: unsigned_take_bit_eq take_bit_nat_less_exp [of 8, simplified])
  have split: "x = take_bit 8 x XOR push_bit 8 (drop_bit 8 x)"
    by (rule bit_word_eqI) (auto simp: bit_xor_iff bit_take_bit_iff bit_push_bit_iff bit_drop_bit_eq)
  have hi: "(crc_bit ^^ 8) (push_bit 8 (drop_bit 8 x)) = drop_bit 8 x"
  proof -
    have "(crc_bit ^^ 8) (push_bit 8 (drop_bit 8 x)) = drop_bit 8 (push_bit 8 (drop_bit 8 x))"
      by (rule crc_bits_shift) (simp add: bit_push_bit_iff)
    also have "\<dots> = drop_bit 8 x"
      by (rule bit_word_eqI) (auto simp: bit_push_bit_iff bit_drop_bit_eq dest: bit_imp_le_length)
    finally show ?thesis .
  qed
  have "crc_byte crc b = (crc_bit ^^ 8) (take_bit 8 x) XOR (crc_bit ^^ 8) (push_bit 8 (drop_bit 8 x))"
    unfolding crc_byte_def x_def [symmetric] by (subst split) (rule crc_bits_xor)
  also have "\<dots> = (crc_bit ^^ 8) (take_bit 8 x) XOR drop_bit 8 x" by (simp only: hi)
  also have "drop_bit 8 x = drop_bit 8 crc"
  proof -
    have "drop_bit 8 (ucast b :: u32) = 0"
      by (rule bit_word_eqI) (auto simp: bit_drop_bit_eq bit_ucast_iff dest: bit_imp_le_length)
    then show ?thesis by (simp add: x_def drop_bit_xor_u32)
  qed
  also have "(crc_bit ^^ 8) (take_bit 8 x) = make_table ! unat (take_bit 8 x)"
    using make_table_nth [OF lt] by simp
  finally show ?thesis unfolding crc_lookup_step_def x_def [symmetric] m by (simp only: xor.commute)
qed

lemma crc32Hex_spec:
  "cache = None \<or> cache = Some make_table \<Longrightarrow>
     crc32Hex cache u8 = (padStart 8 (CHR ''0'') (js_toString16 (unat (crc32_spec u8))), Some make_table)"
proof -
  assume "cache = None \<or> cache = Some make_table"
  moreover have "crc_lookup_step make_table = crc_byte"
    by (intro ext) (rule crc_lookup_step_eq)
  moreover have "x XOR - 1 = NOT x" for x :: u32 by (rule bit_word_eqI) (simp add: bit_xor_iff bit_not_iff)
  ultimately show ?thesis by (auto simp: crc32Hex_def crc32_spec_def)
qed

section \<open>Corruption of up to four consecutive bytes\<close>

fun pack :: "byte list \<Rightarrow> u32" where
  "pack [] = 0"
| "pack (b # bs) = ucast b XOR push_bit 8 (pack bs)"

lemma bit_pack: "bit (pack bs) i \<Longrightarrow> i < 8 * length bs"
proof (induction bs arbitrary: i)
  case Nil
  then show ?case by simp
next
  case (Cons b bs)
  then have "bit (ucast b :: u32) i \<or> bit (push_bit 8 (pack bs)) i" by (auto simp: bit_xor_iff)
  then show ?case
  proof
    assume "bit (ucast b :: u32) i"
    then have "i < 8" by (auto simp: bit_ucast_iff dest: bit_imp_le_length)
    then show ?thesis by simp
  next
    assume "bit (push_bit 8 (pack bs)) i"
    then show ?thesis using Cons.IH [of "i - 8"] by (auto simp: bit_push_bit_iff)
  qed
qed

lemma drop_push_pack: "length bs \<le> 3 \<Longrightarrow> drop_bit 8 (push_bit 8 (pack bs)) = pack bs"
proof (rule bit_word_eqI)
  fix i
  assume "length bs \<le> 3" and "i < LENGTH(32)"
  then show "bit (drop_bit 8 (push_bit 8 (pack bs))) i = bit (pack bs) i"
    using bit_pack [of bs i] by (auto simp: bit_drop_bit_eq bit_push_bit_iff)
qed

lemma pack_inj: "length xs = length ys \<Longrightarrow> length xs \<le> 4 \<Longrightarrow> pack xs = pack ys \<Longrightarrow> xs = ys"
proof (induction xs ys rule: list_induct2)
  case Nil
  then show ?case by simp
next
  case (Cons x xs y ys)
  have low: "ucast (ucast b XOR push_bit 8 v :: u32) = b" for b :: byte and v
    by (rule bit_word_eqI) (simp add: bit_ucast_iff bit_xor_iff bit_push_bit_iff)
  from Cons.prems(2) have "ucast (pack (x # xs)) = (ucast (pack (y # ys)) :: byte)" by simp
  then have "x = y" by (simp only: pack.simps low)
  then have "push_bit 8 (pack xs) = push_bit 8 (pack ys)"
    using Cons.prems(2) by (auto dest: xor_cancel_left)
  then have "pack xs = pack ys"
    using drop_push_pack [of xs] drop_push_pack [of ys] Cons by fastforce
  with Cons \<open>x = y\<close> show ?case by simp
qed

lemma foldl_crc_byte_pack:
  "length bs \<le> 4 \<Longrightarrow> foldl crc_byte c bs = (crc_bit ^^ (8 * length bs)) (c XOR pack bs)"
proof (induction bs arbitrary: c)
  case Nil
  then show ?case by simp
next
  case (Cons b bs)
  then have l: "length bs \<le> 3" by simp
  have "(crc_bit ^^ 8) (push_bit 8 (pack bs)) = pack bs"
    using drop_push_pack [OF l] crc_bits_shift [of 8 "push_bit 8 (pack bs)"] by (simp add: bit_push_bit_iff)
  then have "crc_byte c b XOR pack bs = (crc_bit ^^ 8) (c XOR pack (b # bs))"
    by (simp add: crc_byte_def crc_bits_xor xor.assoc)
  moreover have "8 * length (b # bs) = 8 * length bs + 8" by simp
  ultimately show ?case using Cons by (simp only: foldl_Cons funpow_add o_apply)
qed

lemma foldl_crc_byte_state_inj: "foldl crc_byte c m = foldl crc_byte d m \<Longrightarrow> c = d"
proof (induction m arbitrary: c d)
  case (Cons b m)
  then have "crc_byte c b = crc_byte d b" by simp
  then have "c XOR ucast b = d XOR ucast b" unfolding crc_byte_def by (rule crc_bits_inj)
  then show ?case by (rule xor_cancel_right)
qed simp

lemma crc32_spec_burst:
  assumes "length xs = length ys" and "length xs \<le> 4" and "xs \<noteq> ys"
  shows "crc32_spec (p @ xs @ q) \<noteq> crc32_spec (p @ ys @ q)"
proof
  assume "crc32_spec (p @ xs @ q) = crc32_spec (p @ ys @ q)"
  then have "foldl crc_byte (foldl crc_byte (NOT 0) (p @ xs)) q = foldl crc_byte (foldl crc_byte (NOT 0) (p @ ys)) q"
    by (simp add: crc32_spec_def)
  then have "foldl crc_byte (NOT 0) (p @ xs) = foldl crc_byte (NOT 0) (p @ ys)"
    by (rule foldl_crc_byte_state_inj)
  then have "(crc_bit ^^ (8 * length xs)) (foldl crc_byte (NOT 0) p XOR pack xs) =
    (crc_bit ^^ (8 * length xs)) (foldl crc_byte (NOT 0) p XOR pack ys)"
    using assms(1,2) by (simp add: foldl_crc_byte_pack)
  then have "pack xs = pack ys"
    by (blast dest: crc_bits_inj xor_cancel_left)
  with assms pack_inj show False by blast
qed

section \<open>Client text against server text\<close>

lemma ToHexStringLower_length: "length (ToHexStringLower bs) = 2 * length bs"
  by (induction bs) (auto simp: ToHexStringLower_def)

lemma ToHexStringLower_hex: "list_all is_hex_char (ToHexStringLower bs)"
  by (induction bs) (auto simp: ToHexStringLower_def)

lemma ToHexStringLower_inj: "ToHexStringLower xs = ToHexStringLower ys \<Longrightarrow> xs = ys"
proof (induction xs arbitrary: ys)
  case Nil
  then show ?case by (cases ys) (auto simp: ToHexStringLower_def)
next
  case (Cons x xs)
  then obtain y ys' where ys: "ys = y # ys'" by (cases ys) (auto simp: ToHexStringLower_def)
  have "digit_char (unat x div 16) = digit_char (unat y div 16)"
    "digit_char (unat x mod 16) = digit_char (unat y mod 16)"
    and t: "ToHexStringLower xs = ToHexStringLower ys'"
    using Cons.prems by (simp_all add: ys ToHexStringLower_def)
  moreover have "unat z mod 16 < 16" for z :: byte by simp
  ultimately have "unat x div 16 = unat y div 16" "unat x mod 16 = unat y mod 16"
    by (metis hex_value_digit unat_byte_div)+
  then have "unat x = unat y" by (metis div_mult_mod_eq)
  then have "x = y" by (rule unsigned_word_eqI)
  with Cons.IH [OF t] ys show ?case by simp
qed

lemma client_hex_bytes:
  "padStart 8 (CHR ''0'') (js_toString16 (unat x)) = ToHexStringLower (rev (le_bytes x))"
proof (rule hex_string_eqI)
  have x: "unat x < 16 ^ 8" using unsigned_less [of x, where ?'a = nat] by simp
  show "length (padStart 8 (CHR ''0'') (js_toString16 (unat x))) =
    length (ToHexStringLower (rev (le_bytes x)))"
    using padStart_length [OF length_toString16_less [OF x], of "CHR ''0''"]
    by (simp add: ToHexStringLower_length le_bytes_def)
  show "list_all is_hex_char (padStart 8 (CHR ''0'') (js_toString16 (unat x)))"
    by (intro padStart_hex toString16_hex)
  show "list_all is_hex_char (ToHexStringLower (rev (le_bytes x)))" by (rule ToHexStringLower_hex)
  have u: "unat (ucast (drop_bit k x) :: byte) = unat x div 2 ^ k mod 256" for k
  proof -
    have "unat (ucast y :: byte) = unat y mod 256" for y :: u32
      by (simp add: unsigned_ucast_eq take_bit_eq_mod)
    moreover have "unat (drop_bit k x) = unat x div 2 ^ k"
      unfolding unat_drop_bit_eq by (rule drop_bit_eq_div)
    ultimately show ?thesis by simp
  qed
  define nib where "nib b = [digit_char (unat b div 16), digit_char (unat b mod 16)]" for b :: byte
  have nib: "hex_to_nat 0 (nib b) = unat b" "length (nib b) = 2" for b by (simp_all add: nib_def)
  have "hex_to_nat 0 (ToHexStringLower (rev (le_bytes x))) =
    ((unat x div 2 ^ 24 mod 256 * 256 + unat x div 2 ^ 16 mod 256) * 256
     + unat x div 2 ^ 8 mod 256) * 256 + unat x div 2 ^ 0 mod 256"
  proof -
    have "ToHexStringLower (rev (le_bytes x)) = nib (ucast (drop_bit 24 x)) @ nib (ucast (drop_bit 16 x))
      @ nib (ucast (drop_bit 8 x)) @ nib (ucast (drop_bit 0 x))"
      by (simp add: ToHexStringLower_def le_bytes_def nib_def)
    then show ?thesis
      by (simp only: hex_to_nat_app nib u length_append) (simp add: algebra_simps)
  qed
  also have "\<dots> = unat x"
  proof -
    have "unat x div 2 ^ 24 < 256" using x by simp
    then have a: "unat x div 2 ^ 24 mod 256 = unat x div 2 ^ 24" by simp
    have e: "n div 2 ^ 24 * 256 + n div 2 ^ 16 mod 256 = n div 2 ^ 16"
      "n div 2 ^ 16 * 256 + n div 2 ^ 8 mod 256 = n div 2 ^ 8" for n :: nat
      using div_mult_mod_eq [of "n div 2 ^ 16" 256] div_mult_mod_eq [of "n div 2 ^ 8" 256]
      by (simp_all add: div_mult2_eq [symmetric])
    show ?thesis unfolding a e using div_mult_mod_eq [of "unat x" 256] by simp
  qed
  finally show "hex_to_nat 0 (padStart 8 (CHR ''0'') (js_toString16 (unat x))) =
    hex_to_nat 0 (ToHexStringLower (rev (le_bytes x)))" by simp
qed

lemma EqualsHex_hex:
  assumes "list_all is_hex_char s" and "s \<noteq> []" and "list_all is_hex_char t"
  shows "EqualsHex (Some s) t \<longleftrightarrow> s = t"
proof -
  have l: "map to_lower r = r" if "list_all is_hex_char r" for r
    using that by (induction r) (auto simp: hex_char_plain)
  have "\<forall>c \<in> set s. \<not> is_white_space c" using assms(1) by (auto simp: list_all_iff hex_char_plain)
  then have "str_trim s = s" "\<not> list_all is_white_space s"
    using assms(2) by (auto simp: str_trim_plain list_all_iff neq_Nil_conv)
  moreover have "take 2 s \<noteq> ''0x''"
  proof
    assume "take 2 s = ''0x''"
    then have "CHR ''x'' \<in> set s" by (metis in_set_takeD list.set_intros)
    with assms(1) show False by (auto simp: list_all_iff dest: hex_char_plain(3))
  qed
  ultimately show ?thesis using assms l by (simp add: EqualsHex_def)
qed

section \<open>Properties\<close>

text \<open>C33. \<open>crc32Hex\<close>, by table lookup and whether or not the table is already cached, returns the
  bitwise CRC-32 of the chunk as eight lower-case hexadecimal digits, and leaves the table
  cached.\<close>

theorem crc32Hex_correct:
  assumes "cache = None \<or> cache = Some make_table"
  shows "crc32Hex cache u8 =
    (padStart 8 (CHR ''0'') (js_toString16 (unat (crc32_spec u8))), Some make_table)"
  by (rule crc32Hex_spec [OF assms])

theorem crc32Hex_correct_witness:
  "snd (crc32Hex None [1, 2]) = Some make_table \<and> crc32Hex (Some make_table) [1, 2] = crc32Hex None [1, 2]"
  using crc32Hex_correct [of None "[1, 2]"] crc32Hex_correct [of "Some make_table" "[1, 2]"] by simp

text \<open>Any corruption confined to at most four consecutive bytes of a chunk changes the checksum
  the client sends.\<close>

theorem crc32Hex_detects_burst:
  assumes "length xs = length ys" and "length xs \<le> 4" and "xs \<noteq> ys"
  shows "fst (crc32Hex None (p @ xs @ q)) \<noteq> fst (crc32Hex None (p @ ys @ q))"
proof
  assume "fst (crc32Hex None (p @ xs @ q)) = fst (crc32Hex None (p @ ys @ q))"
  then have "unat (crc32_spec (p @ xs @ q)) = unat (crc32_spec (p @ ys @ q))"
    by (simp add: crc32Hex_spec hex_to_nat_inj)
  then have "crc32_spec (p @ xs @ q) = crc32_spec (p @ ys @ q)" by (rule unsigned_word_eqI)
  with crc32_spec_burst [OF assms] show False by blast
qed

theorem crc32Hex_detects_burst_witness:
  "fst (crc32Hex None ([9] @ [1, 2] @ [7])) \<noteq> fst (crc32Hex None ([9] @ [1, 3] @ [7]))"
  by (rule crc32Hex_detects_burst) simp_all

text \<open>C38. With the little-endian byte order that .NET documents for \<open>Crc32.GetCurrentHash\<close>, the
  server accepts the checksum header the client computes for a chunk exactly when the four bytes
  of the CRC read the same in both directions: for almost every intact chunk the server reports a
  mismatch.\<close>

theorem crc_header_accepted_iff:
  assumes "hash u8 = le_bytes (crc32_spec u8)"
  shows "EqualsHex (Some (fst (crc32Hex None u8))) (ComputeHex hash u8) \<longleftrightarrow>
    rev (le_bytes (crc32_spec u8)) = le_bytes (crc32_spec u8)"
proof -
  define x where "x = crc32_spec u8"
  have c: "fst (crc32Hex None u8) = ToHexStringLower (rev (le_bytes x))"
    by (simp only: crc32Hex_spec fst_conv client_hex_bytes x_def simp_thms)
  have n: "ToHexStringLower (rev (le_bytes x)) \<noteq> []"
    by (simp add: ToHexStringLower_def le_bytes_def)
  have "EqualsHex (Some (fst (crc32Hex None u8))) (ComputeHex hash u8) \<longleftrightarrow>
    ToHexStringLower (rev (le_bytes x)) = ToHexStringLower (le_bytes x)"
    unfolding c ComputeHex_def assms x_def [symmetric]
    by (rule EqualsHex_hex [OF ToHexStringLower_hex n ToHexStringLower_hex])
  then show ?thesis unfolding x_def using ToHexStringLower_inj by metis
qed

lemma crc_bits_8: "(crc_bit ^^ 8) x = crc_bit (crc_bit (crc_bit (crc_bit (crc_bit (crc_bit (crc_bit (crc_bit x)))))))"
  by (simp add: eval_nat_numeral)

lemma crc32_spec_zero_byte: "crc32_spec [0] = 0xD202EF8D"
proof -
  have n: "(NOT 0 :: u32) = 0xFFFFFFFF" by simp
  show ?thesis unfolding crc32_spec_def n by (simp add: crc_byte_def crc_bits_8 crc_bit_def)
qed

theorem crc_header_accepted_iff_witness:
  "\<not> EqualsHex (Some (fst (crc32Hex None [0]))) (ComputeHex (\<lambda>m. le_bytes (crc32_spec m)) [0])"
  using crc_header_accepted_iff [of "\<lambda>m. le_bytes (crc32_spec m)" "[0]"]
  by (simp add: crc32_spec_zero_byte le_bytes_def)

end
