(* ===== verification/Transition_System.thy ===== *)
theory Transition_System
  imports JS_Prelude
begin

text \<open>
  The interface between a component given by labelled steps (a partial function from an event and a
  state to the next state) and an invariant of it: runs over event lists, reachable states, and the
  facts every component with an inductive invariant gets. The upload scheduler and the page are
  instances.
\<close>

fun exec_events :: "('e \<Rightarrow> 's \<Rightarrow> 's option) \<Rightarrow> 'e list \<Rightarrow> 's \<Rightarrow> 's option" where
  "exec_events step [] s = Some s"
| "exec_events step (e # es) s =
     (case step e s of None \<Rightarrow> None | Some t \<Rightarrow> exec_events step es t)"

inductive reachable_from :: "('e \<Rightarrow> 's \<Rightarrow> 's option) \<Rightarrow> 's \<Rightarrow> 's \<Rightarrow> bool"
  for step :: "'e \<Rightarrow> 's \<Rightarrow> 's option" and s0 :: 's where
  reach_init: "reachable_from step s0 s0"
| reach_step: "reachable_from step s0 s \<Longrightarrow> step e s = Some t \<Longrightarrow> reachable_from step s0 t"

inductive_cases reachable_fromE: "reachable_from step s0 s"

lemma exec_events_append:
  "exec_events step (xs @ ys) s =
     (case exec_events step xs s of None \<Rightarrow> None | Some t \<Rightarrow> exec_events step ys t)"
  by (induction xs arbitrary: s) (auto split: option.splits)

lemma exec_events_reachable:
  "exec_events step es s = Some t \<Longrightarrow> reachable_from step s0 s \<Longrightarrow> reachable_from step s0 t"
proof (induction es arbitrary: s)
  case (Cons e es)
  then show ?case by (auto split: option.splits intro: reachable_from.reach_step)
qed simp

lemma reachable_exec:
  "reachable_from step s0 t \<longleftrightarrow> (\<exists>es. exec_events step es s0 = Some t)"
proof
  assume "reachable_from step s0 t"
  then show "\<exists>es. exec_events step es s0 = Some t"
  proof (induction rule: reachable_from.induct)
    case reach_init
    show ?case by (intro exI [of _ "[]"]) simp
  next
    case (reach_step s e t)
    then obtain es where "exec_events step es s0 = Some s" by blast
    with reach_step have "exec_events step (es @ [e]) s0 = Some t" by (simp add: exec_events_append)
    then show ?case by blast
  qed
next
  assume "\<exists>es. exec_events step es s0 = Some t"
  then show "reachable_from step s0 t"
    using exec_events_reachable reachable_from.reach_init by metis
qed

section \<open>Systems with an inductive invariant\<close>

locale invariant_system =
  fixes step :: "'e \<Rightarrow> 's \<Rightarrow> 's option"
    and inv :: "'s \<Rightarrow> bool"
  assumes inv_step: "inv s \<Longrightarrow> step e s = Some t \<Longrightarrow> inv t"
begin

lemma inv_exec: "inv s \<Longrightarrow> exec_events step es s = Some t \<Longrightarrow> inv t"
proof (induction es arbitrary: s)
  case (Cons e es)
  then show ?case by (auto split: option.splits dest: inv_step)
qed simp

lemma inv_reachable: "reachable_from step s0 s \<Longrightarrow> inv s0 \<Longrightarrow> inv s"
  by (induction rule: reachable_from.induct) (auto dest: inv_step)

end

text \<open>With a budget that counted events use up, runs contain at most that many counted events.\<close>

locale bounded_system = invariant_system step inv
  for step :: "'e \<Rightarrow> 's \<Rightarrow> 's option" and inv :: "'s \<Rightarrow> bool" +
  fixes counted :: "'e \<Rightarrow> bool" and budget :: "'s \<Rightarrow> nat"
  assumes budget_step: "inv s \<Longrightarrow> step e s = Some t \<Longrightarrow>
    (if counted e then budget t < budget s else budget t \<le> budget s)"
begin

lemma counted_bound:
  "inv s \<Longrightarrow> exec_events step es s = Some t \<Longrightarrow>
     length (filter counted es) + budget t \<le> budget s"
proof (induction es arbitrary: s)
  case (Cons e es)
  then obtain u where u: "step e s = Some u" "exec_events step es u = Some t"
    by (auto split: option.splits)
  then have "length (filter counted es) + budget t \<le> budget u"
    using Cons.IH [of u] inv_step Cons.prems by blast
  with budget_step [OF Cons.prems(1) u(1)] show ?case by (auto split: if_splits)
qed simp

end

end
