(* ===== verification/Adaptive.thy ===== *)
theory Adaptive
  imports Complex_Main JS_Prelude
begin

text \<open>
  The throughput window and what it controls (\<open>noteBytes\<close>, \<open>adaptWorkers\<close>, \<open>setSpeed\<close> of
  \<open>upload.js\<close>), and the progress bar (\<open>setProgress\<close>). \<open>performance.now()\<close> and the rates derived from
  it are rationals.
\<close>

definition MIN_WORKERS :: nat where "MIN_WORKERS = 2"
definition MAX_WORKERS_CAP :: nat where "MAX_WORKERS_CAP = 12"

record speed =
  sp_windowStart :: rat
  sp_windowBytes :: nat
  sp_recentMbps :: "rat list"
  sp_adaptiveWorkers :: nat
  sp_compressionEnabled :: bool
  sp_text :: string

text \<open>\<open>navigator.hardwareConcurrency || 4\<close>, halved and clamped.\<close>

definition initial_workers :: "nat option \<Rightarrow> nat" where
  "initial_workers hardwareConcurrency =
     (let hc = (case hardwareConcurrency of Some n \<Rightarrow> if n = 0 then 4 else n | None \<Rightarrow> 4)
      in min (max MIN_WORKERS (hc div 2)) MAX_WORKERS_CAP)"

definition initial_speed :: "nat option \<Rightarrow> speed" where
  "initial_speed hardwareConcurrency =
     \<lparr>sp_windowStart = 0, sp_windowBytes = 0, sp_recentMbps = [],
      sp_adaptiveWorkers = initial_workers hardwareConcurrency, sp_compressionEnabled = False,
      sp_text = []\<rparr>"

text \<open>\<open>mbps.toFixed(1) + ' MB/s'\<close> on a non-negative number; \<open>None\<close> is \<open>null\<close>.\<close>

definition toFixed1 :: "rat \<Rightarrow> string" where
  "toFixed1 x =
     (let n = nat \<lfloor>x * 10 + 1 / 2\<rfloor> in js_String (n div 10) @ ''.'' @ js_String (n mod 10))"

definition setSpeed :: "rat option \<Rightarrow> speed \<Rightarrow> speed" where
  "setSpeed mbps sp =
     sp\<lparr>sp_text := (case mbps of None \<Rightarrow> [] | Some m \<Rightarrow> toFixed1 m @ '' MB/s'')\<rparr>"

definition adaptWorkers :: "speed \<Rightarrow> speed" where
  "adaptWorkers sp =
     (if length (sp_recentMbps sp) < 3 then sp
      else
        let avg = foldl (+) 0 (sp_recentMbps sp) / of_nat (length (sp_recentMbps sp));
            w = sp_adaptiveWorkers sp
        in sp\<lparr>sp_adaptiveWorkers :=
                (if 20 < avg \<and> w < MAX_WORKERS_CAP then w + 1
                 else if avg < 4 \<and> MIN_WORKERS < w then w - 1 else w),
              sp_compressionEnabled := avg < 8\<rparr>)"

definition noteBytes :: "rat \<Rightarrow> nat \<Rightarrow> speed \<Rightarrow> speed" where
  "noteBytes now n sp =
     (let bytes = sp_windowBytes sp + n;
          sp1 = sp\<lparr>sp_windowBytes := bytes\<rparr>;
          elapsed = (now - sp_windowStart sp) / 1000
      in if elapsed \<ge> 1 / 2 then
           let mbps = of_nat bytes / (1024 * 1024) / elapsed;
               sp2 = setSpeed (Some mbps) sp1;
               pushed = sp_recentMbps sp2 @ [mbps];
               sp3 = sp2\<lparr>sp_recentMbps := (if length pushed > 6 then tl pushed else pushed)\<rparr>
           in (adaptWorkers sp3)\<lparr>sp_windowStart := now, sp_windowBytes := 0\<rparr>
         else sp1)"

section \<open>The progress bar\<close>

record progress_bar =
  pb_width :: string
  pb_aria_valuenow :: string
  pb_text :: string

text \<open>\<open>percent | 0\<close> of an integer.\<close>

definition ToInt32 :: "int \<Rightarrow> int" where
  "ToInt32 x = (x + 2 ^ 31) mod 2 ^ 32 - 2 ^ 31"

definition clamp_percent :: "int \<Rightarrow> nat" where
  "clamp_percent percent = nat (max 0 (min 100 (ToInt32 percent)))"

definition setProgress :: "int \<Rightarrow> string option \<Rightarrow> progress_bar" where
  "setProgress percent label =
     (let p = js_String (clamp_percent percent)
      in \<lparr>pb_width = p @ ''%'', pb_aria_valuenow = p,
          pb_text = (case label of Some l \<Rightarrow> if l = [] then p @ ''%'' else l | None \<Rightarrow> p @ ''%'')\<rparr>)"

section \<open>The invariant of the window\<close>

definition speed_inv :: "speed \<Rightarrow> bool" where
  "speed_inv sp \<longleftrightarrow> MIN_WORKERS \<le> sp_adaptiveWorkers sp \<and> sp_adaptiveWorkers sp \<le> MAX_WORKERS_CAP
     \<and> length (sp_recentMbps sp) \<le> 6"

lemma initial_workers_bounds:
  "MIN_WORKERS \<le> initial_workers hc" "initial_workers hc \<le> MAX_WORKERS_CAP"
  by (auto simp: initial_workers_def MIN_WORKERS_def MAX_WORKERS_CAP_def Let_def)

lemma speed_inv_initial [inv_intros]: "speed_inv (initial_speed hc)"
  by (simp add: speed_inv_def initial_speed_def initial_workers_bounds)

lemma speed_inv_setSpeed [inv_intros]: "speed_inv sp \<Longrightarrow> speed_inv (setSpeed m sp)"
  by (simp add: speed_inv_def setSpeed_def)

lemma speed_inv_adaptWorkers [inv_intros]: "speed_inv sp \<Longrightarrow> speed_inv (adaptWorkers sp)"
  by (auto simp: speed_inv_def adaptWorkers_def Let_def)

lemma speed_inv_window [inv_intros]:
  "speed_inv sp \<Longrightarrow> speed_inv (sp\<lparr>sp_windowStart := t, sp_windowBytes := b\<rparr>)"
  "speed_inv sp \<Longrightarrow> speed_inv (sp\<lparr>sp_windowBytes := b\<rparr>)"
  by (simp_all add: speed_inv_def)

lemma speed_inv_push [inv_intros]:
  "speed_inv sp \<Longrightarrow> speed_inv (sp\<lparr>sp_recentMbps :=
     (if length (sp_recentMbps sp @ [m]) > 6 then tl (sp_recentMbps sp @ [m]) else sp_recentMbps sp @ [m])\<rparr>)"
  by (simp add: speed_inv_def)

lemma noteBytes_inv [inv_intros]: "speed_inv sp \<Longrightarrow> speed_inv (noteBytes now n sp)"
  unfolding noteBytes_def Let_def
  by (cases "1 / 2 \<le> (now - sp_windowStart sp) / 1000") (simp_all only: if_True if_False, intro inv_intros)+

lemma adaptWorkers_step:
  "sp_adaptiveWorkers (adaptWorkers sp) \<in>
     {sp_adaptiveWorkers sp - 1, sp_adaptiveWorkers sp, sp_adaptiveWorkers sp + 1}"
  by (simp add: adaptWorkers_def Let_def)

fun note_all :: "(rat \<times> nat) list \<Rightarrow> speed \<Rightarrow> speed" where
  "note_all [] sp = sp"
| "note_all ((now, n) # es) sp = note_all es (noteBytes now n sp)"

lemma note_all_inv: "speed_inv sp \<Longrightarrow> speed_inv (note_all es sp)"
  by (induction es sp rule: note_all.induct) (simp_all add: noteBytes_inv)

section \<open>Properties\<close>

text \<open>Whatever the sequence of finished chunks and measured times, the number of workers the
  client aims at stays between \<open>MIN_WORKERS\<close> (2) and \<open>MAX_WORKERS_CAP\<close> (12), and the window keeps at
  most six samples.\<close>

theorem workers_within_bounds:
  "2 \<le> sp_adaptiveWorkers (note_all events (initial_speed hardwareConcurrency))
   \<and> sp_adaptiveWorkers (note_all events (initial_speed hardwareConcurrency)) \<le> 12
   \<and> length (sp_recentMbps (note_all events (initial_speed hardwareConcurrency))) \<le> 6"
  using note_all_inv [OF speed_inv_initial, of events hardwareConcurrency]
  by (simp add: speed_inv_def MIN_WORKERS_def MAX_WORKERS_CAP_def)

text \<open>The progress bar never shows a value outside 0 to 100, and inside that range shows the
  percentage it is given.\<close>

lemma setProgress_shows:
  "pb_aria_valuenow (setProgress percent label) = js_String (clamp_percent percent)
   \<and> clamp_percent percent \<le> 100
   \<and> (clamp_percent (int k) = k \<or> 100 < k)"
proof -
  have "clamp_percent (int k) = k" if "k \<le> 100"
  proof -
    have "(int k + 2 ^ 31) mod 2 ^ 32 = int k + 2 ^ 31" using that by (intro mod_pos_pos_trivial) auto
    then show ?thesis using that by (simp add: clamp_percent_def ToInt32_def)
  qed
  then show ?thesis by (auto simp: setProgress_def Let_def clamp_percent_def)
qed

end
