(* ===== verification/JS_Regex.thy ===== *)
theory JS_Regex
  imports JS_Prelude
begin

text \<open>
  The regular expressions of the sources and \<open>RegExp.prototype.test\<close> on them. A pattern is a value
  of \<open>regex\<close> over character classes; a pattern with \<open>^\<close> and \<open>$\<close> is matched against the whole string,
  one with \<open>^\<close> only against its prefixes, one with \<open>$\<close> only against its suffixes, one without anchors
  against its substrings. Intersection and complement serve the negative lookaheads. Matching is by
  derivatives with simplifying constructors, so it evaluates; \<open>rmatch_lang\<close> shows that it decides
  membership in the pattern's language.
\<close>

section \<open>Patterns and their languages\<close>

datatype regex =
    RZero
  | REps
  | RCls "char \<Rightarrow> bool"
  | RSeq regex regex
  | RAlt regex regex
  | RStar regex
  | RAnd regex regex
  | RNot regex

inductive_set star_of :: "string set \<Rightarrow> string set" for L where
  star_nil: "[] \<in> star_of L"
| star_cons: "u \<in> L \<Longrightarrow> v \<in> star_of L \<Longrightarrow> u @ v \<in> star_of L"

fun lang :: "regex \<Rightarrow> string set" where
  "lang RZero = {}"
| "lang REps = {[]}"
| "lang (RCls P) = {[c] | c. P c}"
| "lang (RSeq r q) = {u @ v | u v. u \<in> lang r \<and> v \<in> lang q}"
| "lang (RAlt r q) = lang r \<union> lang q"
| "lang (RStar r) = star_of (lang r)"
| "lang (RAnd r q) = lang r \<inter> lang q"
| "lang (RNot r) = - lang r"

section \<open>Matching by derivatives\<close>

fun nullable :: "regex \<Rightarrow> bool" where
  "nullable RZero = False"
| "nullable REps = True"
| "nullable (RCls P) = False"
| "nullable (RSeq r q) = (nullable r \<and> nullable q)"
| "nullable (RAlt r q) = (nullable r \<or> nullable q)"
| "nullable (RStar r) = True"
| "nullable (RAnd r q) = (nullable r \<and> nullable q)"
| "nullable (RNot r) = (\<not> nullable r)"

fun mk_seq :: "regex \<Rightarrow> regex \<Rightarrow> regex" where
  "mk_seq RZero q = RZero"
| "mk_seq REps q = q"
| "mk_seq r q = RSeq r q"

fun mk_alt :: "regex \<Rightarrow> regex \<Rightarrow> regex" where
  "mk_alt RZero q = q"
| "mk_alt r RZero = r"
| "mk_alt r q = RAlt r q"

fun deriv :: "char \<Rightarrow> regex \<Rightarrow> regex" where
  "deriv c RZero = RZero"
| "deriv c REps = RZero"
| "deriv c (RCls P) = (if P c then REps else RZero)"
| "deriv c (RSeq r q) =
     (if nullable r then mk_alt (mk_seq (deriv c r) q) (deriv c q) else mk_seq (deriv c r) q)"
| "deriv c (RAlt r q) = mk_alt (deriv c r) (deriv c q)"
| "deriv c (RStar r) = mk_seq (deriv c r) (RStar r)"
| "deriv c (RAnd r q) = RAnd (deriv c r) (deriv c q)"
| "deriv c (RNot r) = RNot (deriv c r)"

fun rmatch :: "regex \<Rightarrow> string \<Rightarrow> bool" where
  "rmatch r [] = nullable r"
| "rmatch r (c # s) = rmatch (deriv c r) s"

fun rmatch_prefix :: "regex \<Rightarrow> string \<Rightarrow> bool" where
  "rmatch_prefix r [] = nullable r"
| "rmatch_prefix r (c # s) = (nullable r \<or> rmatch_prefix (deriv c r) s)"

fun rmatch_sub :: "regex \<Rightarrow> string \<Rightarrow> bool" where
  "rmatch_sub r [] = nullable r"
| "rmatch_sub r (c # s) = (rmatch_prefix r (c # s) \<or> rmatch_sub r s)"

definition rmatch_suffix :: "regex \<Rightarrow> string \<Rightarrow> bool" where
  "rmatch_suffix r s = rmatch (RSeq (RStar (RCls (\<lambda>c. True))) r) s"

section \<open>Notation of the source patterns\<close>

definition RChr :: "char \<Rightarrow> regex" where
  "RChr c = RCls (\<lambda>d. d = c)"

fun RStr :: "string \<Rightarrow> regex" where
  "RStr [] = REps"
| "RStr [c] = RChr c"
| "RStr (c # d # s) = RSeq (RChr c) (RStr (d # s))"

fun RAlts :: "regex list \<Rightarrow> regex" where
  "RAlts [] = RZero"
| "RAlts [r] = r"
| "RAlts (r # q # rs) = RAlt r (RAlts (q # rs))"

fun RSeqs :: "regex list \<Rightarrow> regex" where
  "RSeqs [] = REps"
| "RSeqs [r] = r"
| "RSeqs (r # q # rs) = RSeq r (RSeqs (q # rs))"

definition ROpt :: "regex \<Rightarrow> regex" where
  "ROpt r = RAlt r REps"

definition RPlus :: "regex \<Rightarrow> regex" where
  "RPlus r = RSeq r (RStar r)"

fun RRep :: "nat \<Rightarrow> regex \<Rightarrow> regex" where
  "RRep 0 r = REps"
| "RRep (Suc n) r = RSeq r (RRep n r)"

fun RUpto :: "nat \<Rightarrow> regex \<Rightarrow> regex" where
  "RUpto 0 r = REps"
| "RUpto (Suc n) r = RAlt (RSeq r (RUpto n r)) REps"

definition RBetween :: "nat \<Rightarrow> nat \<Rightarrow> regex \<Rightarrow> regex" where
  "RBetween m n r = RSeq (RRep m r) (RUpto (n - m) r)"

definition in_range :: "char \<Rightarrow> char \<Rightarrow> char \<Rightarrow> bool" where
  "in_range lo hi c \<longleftrightarrow> of_char lo \<le> (of_char c :: nat) \<and> (of_char c :: nat) \<le> of_char hi"

definition is_dig :: "char \<Rightarrow> bool" where
  "is_dig c \<longleftrightarrow> in_range (CHR ''0'') (CHR ''9'') c"

definition RDigit :: regex where
  "RDigit = RCls is_dig"

text \<open>Character classes: a range, a set of characters, \<open>\w\<close>, \<open>\s\<close>, \<open>.\<close> (on code units below 256), and the
  negative lookahead \<open>(?!r)q\<close>, where \<open>q\<close> is all that follows.\<close>

definition RRange :: "char \<Rightarrow> char \<Rightarrow> regex" where
  "RRange lo hi = RCls (in_range lo hi)"

definition RSet :: "string \<Rightarrow> regex" where
  "RSet cs = RCls (\<lambda>c. c \<in> set cs)"

definition is_upper :: "char \<Rightarrow> bool" where
  "is_upper c \<longleftrightarrow> in_range (CHR ''A'') (CHR ''Z'') c"

definition is_lower :: "char \<Rightarrow> bool" where
  "is_lower c \<longleftrightarrow> in_range (CHR ''a'') (CHR ''z'') c"

definition is_word :: "char \<Rightarrow> bool" where
  "is_word c \<longleftrightarrow> is_dig c \<or> is_upper c \<or> is_lower c \<or> c = CHR ''_''"

definition is_space :: "char \<Rightarrow> bool" where
  "is_space c \<longleftrightarrow> (of_char c :: nat) \<in> {9, 10, 11, 12, 13, 32, 160}"

definition RSpace :: regex where
  "RSpace = RCls is_space"

definition RDot :: regex where
  "RDot = RCls (\<lambda>c. (of_char c :: nat) \<notin> {10, 13})"

definition RAnys :: regex where
  "RAnys = RStar (RCls (\<lambda>c. True))"

definition RNotAhead :: "regex \<Rightarrow> regex \<Rightarrow> regex" where
  "RNotAhead r q = RAnd (RNot (RSeq r RAnys)) q"

definition upper_char :: "char \<Rightarrow> char" where
  "upper_char c = (if in_range (CHR ''a'') (CHR ''z'') c then char_of (of_char c - 32 :: nat) else c)"

definition toUpperCase :: "string \<Rightarrow> string" where
  "toUpperCase s = map upper_char s"

text \<open>ASCII lower case, for patterns with the flag \<open>i\<close>: pattern and subject are both folded.\<close>

definition lower_char :: "char \<Rightarrow> char" where
  "lower_char c = (if in_range (CHR ''A'') (CHR ''Z'') c then char_of (of_char c + 32 :: nat) else c)"

definition toLowerCase :: "string \<Rightarrow> string" where
  "toLowerCase s = map lower_char s"

section \<open>Matching decides the language\<close>

lemma nullable_lang: "nullable r \<longleftrightarrow> [] \<in> lang r"
  by (induction r) (auto intro: star_of.intros)

lemma lang_mk_seq [simp]: "lang (mk_seq r q) = lang (RSeq r q)"
  by (induction r q rule: mk_seq.induct) auto

lemma lang_mk_alt [simp]: "lang (mk_alt r q) = lang (RAlt r q)"
  by (induction r q rule: mk_alt.induct) auto

lemma star_Cons:
  "c # s \<in> star_of L \<longleftrightarrow> (\<exists>u v. c # u \<in> L \<and> v \<in> star_of L \<and> s = u @ v)"
proof
  assume "c # s \<in> star_of L"
  then show "\<exists>u v. c # u \<in> L \<and> v \<in> star_of L \<and> s = u @ v"
  proof (induction "c # s" arbitrary: s rule: star_of.induct)
    case (star_cons u v)
    show ?case
    proof (cases u)
      case Nil
      with star_cons show ?thesis by simp
    next
      case (Cons d u')
      with star_cons show ?thesis by auto
    qed
  qed
next
  assume "\<exists>u v. c # u \<in> L \<and> v \<in> star_of L \<and> s = u @ v"
  then obtain u v where "c # u \<in> L" "v \<in> star_of L" "s = u @ v" by blast
  then show "c # s \<in> star_of L" using star_of.star_cons [of "c # u" L v] by simp
qed

lemma lang_deriv: "s \<in> lang (deriv c r) \<longleftrightarrow> c # s \<in> lang r"
proof (induction r arbitrary: s)
  case (RSeq r q)
  have "c # s \<in> lang (RSeq r q) \<longleftrightarrow>
    (\<exists>u v. s = u @ v \<and> c # u \<in> lang r \<and> v \<in> lang q) \<or> ([] \<in> lang r \<and> c # s \<in> lang q)"
    by (auto simp: Cons_eq_append_conv)
  then show ?case using RSeq by (auto simp: nullable_lang)
next
  case (RStar r)
  show ?case using RStar by (auto simp: star_Cons)
qed auto

lemma rmatch_lang: "rmatch r s \<longleftrightarrow> s \<in> lang r"
  by (induction r s rule: rmatch.induct) (simp_all add: nullable_lang lang_deriv)

lemma rmatch_prefix_lang: "rmatch_prefix r s \<longleftrightarrow> (\<exists>u v. s = u @ v \<and> u \<in> lang r)"
proof (induction r s rule: rmatch_prefix.induct)
  case (1 r)
  then show ?case by (simp add: nullable_lang)
next
  case (2 r c s)
  have "(\<exists>u v. c # s = u @ v \<and> u \<in> lang r) \<longleftrightarrow>
    [] \<in> lang r \<or> (\<exists>u v. s = u @ v \<and> c # u \<in> lang r)"
    by (auto simp: Cons_eq_append_conv)
  then show ?case using 2 by (simp add: nullable_lang lang_deriv)
qed

lemma rmatch_sub_lang: "rmatch_sub r s \<longleftrightarrow> (\<exists>p u v. s = p @ u @ v \<and> u \<in> lang r)"
proof (induction r s rule: rmatch_sub.induct)
  case (1 r)
  then show ?case by (simp add: nullable_lang)
next
  case (2 r c s)
  have "(\<exists>p u v. c # s = p @ u @ v \<and> u \<in> lang r) \<longleftrightarrow>
    (\<exists>u v. c # s = u @ v \<and> u \<in> lang r) \<or> (\<exists>p u v. s = p @ u @ v \<and> u \<in> lang r)"
    by (metis Cons_eq_append_conv append_Cons append_Nil)
  then show ?case using 2 by (simp add: rmatch_prefix_lang)
qed

lemma star_any: "s \<in> lang (RStar (RCls (\<lambda>c. True)))"
proof (induction s)
  case (Cons c s)
  then have "[c] @ s \<in> star_of {[c] | c. True}" by (intro star_of.star_cons) auto
  then show ?case by simp
qed (simp add: star_of.star_nil)

lemma rmatch_suffix_lang: "rmatch_suffix r s \<longleftrightarrow> (\<exists>p u. s = p @ u \<and> u \<in> lang r)"
  using star_any by (auto simp: rmatch_suffix_def rmatch_lang)

lemma lang_RNotAhead:
  "s \<in> lang (RNotAhead r q) \<longleftrightarrow> s \<in> lang q \<and> \<not> (\<exists>u v. s = u @ v \<and> u \<in> lang r)"
  using star_any by (auto simp: RNotAhead_def RAnys_def)

section \<open>Languages of the derived forms\<close>

lemma lang_RChr [simp]: "lang (RChr c) = {[c]}"
  by (auto simp: RChr_def)

lemma lang_RStr [simp]: "lang (RStr s) = {s}"
  by (induction s rule: RStr.induct) auto

lemma lang_RAlts: "lang (RAlts rs) = (\<Union>r \<in> set rs. lang r)"
  by (induction rs rule: RAlts.induct) auto

lemma lang_ROpt [simp]: "lang (ROpt r) = insert [] (lang r)"
  by (auto simp: ROpt_def)

lemma star_cls: "s \<in> star_of {[c] | c. P c} \<longleftrightarrow> list_all P s"
proof (induction s)
  case Nil
  then show ?case by (simp add: star_of.star_nil)
next
  case (Cons c s)
  then show ?case by (auto simp: star_Cons)
qed

lemma lang_RStar_cls [simp]: "s \<in> lang (RStar (RCls P)) \<longleftrightarrow> list_all P s"
  using star_cls by simp

lemma lang_cls_seq: "s \<in> lang (RSeq (RCls P) q) \<longleftrightarrow> (\<exists>c t. s = c # t \<and> P c \<and> t \<in> lang q)"
  by (auto simp: Cons_eq_append_conv) (metis append_Cons append_Nil)

lemma lang_RPlus_cls: "s \<in> lang (RPlus (RCls P)) \<longleftrightarrow> s \<noteq> [] \<and> list_all P s"
  by (cases s) (simp_all only: RPlus_def lang_cls_seq lang_RStar_cls, auto)

lemma lang_RRep_cls: "s \<in> lang (RRep n (RCls P)) \<longleftrightarrow> length s = n \<and> list_all P s"
proof (induction n arbitrary: s)
  case (Suc n)
  then show ?case by (cases s) (simp_all only: RRep.simps lang_cls_seq, auto)
qed auto

lemma lang_RUpto_cls: "s \<in> lang (RUpto n (RCls P)) \<longleftrightarrow> length s \<le> n \<and> list_all P s"
proof (induction n arbitrary: s)
  case (Suc n)
  have "s \<in> lang (RUpto (Suc n) (RCls P)) \<longleftrightarrow> s = [] \<or> (\<exists>c t. s = c # t \<and> P c \<and> t \<in> lang (RUpto n (RCls P)))"
    using lang_cls_seq [of s P "RUpto n (RCls P)"] by auto
  then show ?case using Suc by (cases s) auto
qed auto

lemma lang_RBetween_cls:
  "m \<le> n \<Longrightarrow> s \<in> lang (RBetween m n (RCls P)) \<longleftrightarrow> m \<le> length s \<and> length s \<le> n \<and> list_all P s"
proof -
  assume mn: "m \<le> n"
  have "s \<in> lang (RBetween m n (RCls P)) \<longleftrightarrow>
    (\<exists>u v. s = u @ v \<and> length u = m \<and> list_all P u \<and> length v \<le> n - m \<and> list_all P v)"
    by (auto simp: RBetween_def lang_RRep_cls lang_RUpto_cls)
  also have "\<dots> \<longleftrightarrow> m \<le> length s \<and> length s \<le> n \<and> list_all P s"
  proof
    assume "m \<le> length s \<and> length s \<le> n \<and> list_all P s"
    then show "\<exists>u v. s = u @ v \<and> length u = m \<and> list_all P u \<and> length v \<le> n - m \<and> list_all P v"
      by (intro exI [of _ "take m s"] exI [of _ "drop m s"])
        (auto simp: list_all_iff dest: in_set_takeD in_set_dropD)
  qed (use mn in auto)
  finally show ?thesis .
qed

end
