(* ===== verification/Http_Api.thy ===== *)
theory Http_Api
  imports JS_Regex Sha256_Correct Crc32
begin

text \<open>
  The client's HTTP layer (\<open>authHeaders\<close>, \<open>apiInitiate\<close>, \<open>maybeCompressChunk\<close>, \<open>apiUploadChunk\<close>,
  \<open>apiComplete\<close>, \<open>apiStatus\<close>, \<open>apiAbort\<close> of \<open>upload.js\<close>) and the server's
  \<open>ChunkDecompression.Wrap\<close>. Each asynchronous call is split at its \<open>await fetch\<close>: one definition
  builds the request, one turns the outcome into the value returned or the error thrown
  (\<open>Inl message\<close>). The network is the environment: an outcome is a rejection of \<open>fetch\<close> or a
  response with a status and, where it parses as a JSON object, a body. \<open>CompressionStream\<close> and
  \<open>crypto.subtle\<close> are parameters.
\<close>

section \<open>Requests, responses, files\<close>

datatype rbody = NoBody | FormBody "(string \<times> string) list" | RawBody u8array

record request =
  rq_method :: string
  rq_url :: string
  rq_headers :: "string \<rightharpoonup> string"
  rq_keepalive :: bool
  rq_body :: rbody

text \<open>The fields of a JSON response body that the client reads; \<open>None\<close> is \<open>undefined\<close> or \<open>null\<close>.\<close>

record reply =
  b_error :: "string option"
  b_status :: "string option"
  b_alreadyExists :: "bool option"
  b_uploadId :: "string option"
  b_existingUploadId :: "string option"
  b_path :: "string option"
  b_fileName :: "string option"
  b_finalFileName :: "string option"
  b_totalSize :: "nat option"
  b_totalChunks :: "nat option"
  b_checksum :: "string option"
  b_received :: "nat list option"
  b_receivedCount :: "nat option"
  b_isExpired :: "bool option"
  b_requireChunkCrc32 :: "bool option"
  b_requireChunkSha256 :: "bool option"

definition empty_reply :: reply where
  "empty_reply = \<lparr>b_error = None, b_status = None, b_alreadyExists = None, b_uploadId = None,
     b_existingUploadId = None, b_path = None, b_fileName = None, b_finalFileName = None,
     b_totalSize = None, b_totalChunks = None, b_checksum = None, b_received = None,
     b_receivedCount = None, b_isExpired = None, b_requireChunkCrc32 = None,
     b_requireChunkSha256 = None\<rparr>"

datatype outcome = FetchRejects string | Response nat "reply option"

record js_file =
  f_name :: string
  f_type :: string
  f_bytes :: u8array

definition f_size :: "js_file \<Rightarrow> nat" where
  "f_size f = length (f_bytes f)"

definition status_ok :: "nat \<Rightarrow> bool" where
  "status_ok st \<longleftrightarrow> 200 \<le> st \<and> st \<le> 299"

text \<open>\<open>x || d\<close> for a string that may be missing: the empty string is falsy.\<close>

definition js_or :: "string option \<Rightarrow> string \<Rightarrow> string" where
  "js_or x d = (case x of Some s \<Rightarrow> if s = [] then d else s | None \<Rightarrow> d)"

definition truthy :: "string option \<Rightarrow> bool" where
  "truthy x \<longleftrightarrow> (case x of Some s \<Rightarrow> s \<noteq> [] | None \<Rightarrow> False)"

text \<open>\<open>await r.json().catch(() => ({}))\<close>.\<close>

definition json_or_empty :: "reply option \<Rightarrow> reply" where
  "json_or_empty b = (case b of Some r \<Rightarrow> r | None \<Rightarrow> empty_reply)"

section \<open>The calls\<close>

definition CHUNK_SIZE :: nat where
  "CHUNK_SIZE = 32 * 1024 * 1024"

definition authHeaders :: "string \<Rightarrow> (string \<rightharpoonup> string) \<Rightarrow> (string \<rightharpoonup> string)" where
  "authHeaders API_KEY extra = (if API_KEY \<noteq> [] then extra(''X-Api-Key'' \<mapsto> API_KEY) else extra)"

definition apiInitiate_request :: "string \<Rightarrow> string \<Rightarrow> js_file \<Rightarrow> string option \<Rightarrow> request" where
  "apiInitiate_request apiBase API_KEY f checksum =
     \<lparr>rq_method = ''POST'', rq_url = apiBase @ ''/api/uploads/initiate'',
      rq_headers = authHeaders API_KEY Map.empty, rq_keepalive = True,
      rq_body = FormBody
        ([(''fileName'', f_name f), (''totalSize'', js_String (f_size f)),
          (''chunkSize'', js_String CHUNK_SIZE)]
         @ (if f_type f \<noteq> [] then [(''contentType'', f_type f)] else [])
         @ (if truthy checksum then [(''checksum'', the checksum)] else []))\<rparr>"

definition apiInitiate_result :: "outcome \<Rightarrow> string + reply" where
  "apiInitiate_result out =
     (case out of
        FetchRejects e \<Rightarrow> Inl e
      | Response st b \<Rightarrow>
          let body = json_or_empty b in
          if \<not> status_ok st then Inl (js_or (b_error body) (''initiate failed: '' @ js_String st))
          else Inr body)"

text \<open>\<open>COMPRESS_MIME_SKIP\<close>, matched at the start of the lower-cased MIME type.\<close>

definition COMPRESS_MIME_SKIP :: regex where
  "COMPRESS_MIME_SKIP = RAlts
     [RSeqs [RStr ''image/'', RAlts (map RStr [''jpeg'', ''png'', ''gif'', ''webp'', ''avif''])],
      RStr ''video/'',
      RStr ''audio/'',
      RSeqs [RStr ''application/'',
             RAlts (map RStr [''zip'', ''gzip'', ''x-gzip'', ''x-rar'', ''pdf'', ''octet-stream''])]]"

definition mime_skip :: "string \<Rightarrow> bool" where
  "mime_skip mime = rmatch_prefix COMPRESS_MIME_SKIP (toLowerCase mime)"

text \<open>\<open>gzip\<close> is the outcome of piping the blob through \<open>CompressionStream('gzip')\<close>: \<open>None\<close> when the
  browser has no such class, an inner \<open>None\<close> when the stream fails. The result is the body to send
  and the encoding.\<close>

definition maybeCompressChunk ::
  "bool \<Rightarrow> (u8array \<Rightarrow> u8array option) option \<Rightarrow> u8array \<Rightarrow> string \<Rightarrow> u8array \<times> string option" where
  "maybeCompressChunk compressionEnabled gzip blob fileMime =
     (if \<not> compressionEnabled then (blob, None)
      else case gzip of
             None \<Rightarrow> (blob, None)
           | Some gz \<Rightarrow>
               if fileMime \<noteq> [] \<and> mime_skip fileMime then (blob, None)
               else case gz blob of
                      None \<Rightarrow> (blob, None)
                    | Some compressed \<Rightarrow>
                        if 100 * length compressed < 95 * length blob
                        then (compressed, Some ''gzip'') else (blob, None))"

record chunk_env =
  env_apiBase :: string
  env_apiKey :: string
  env_requireCrc32 :: bool
  env_requireSha256 :: bool
  env_compression :: bool
  env_gzip :: "(u8array \<Rightarrow> u8array option) option"
  env_subtle :: "(u8array \<Rightarrow> u8array option) option"
  env_crcTable :: "u32 list option"

text \<open>\<open>None\<close>: the pure JavaScript hasher threw.\<close>

definition apiUploadChunk_request ::
  "chunk_env \<Rightarrow> string \<Rightarrow> nat \<Rightarrow> u8array \<Rightarrow> string \<Rightarrow> request option" where
  "apiUploadChunk_request env uploadId index blob fileMime =
     (let url = env_apiBase env @ ''/api/uploads/'' @ uploadId @ ''/chunk/'' @ js_String index;
          headers = authHeaders (env_apiKey env) Map.empty
      in if env_requireCrc32 env \<or> env_requireSha256 env then
           let h1 = (if env_requireCrc32 env
                     then headers(''X-Chunk-CRC32'' \<mapsto> fst (crc32Hex (env_crcTable env) blob))
                     else headers)
           in if env_requireSha256 env then
                (case sha256HexOfBuffer (env_subtle env) blob of
                   None \<Rightarrow> None
                 | Some hex \<Rightarrow> Some \<lparr>rq_method = ''PUT'', rq_url = url,
                     rq_headers = h1(''X-Chunk-SHA256'' \<mapsto> hex), rq_keepalive = True,
                     rq_body = RawBody blob\<rparr>)
              else Some \<lparr>rq_method = ''PUT'', rq_url = url, rq_headers = h1, rq_keepalive = True,
                     rq_body = RawBody blob\<rparr>
         else
           let (body, encoding) = maybeCompressChunk (env_compression env) (env_gzip env) blob fileMime
           in Some \<lparr>rq_method = ''PUT'', rq_url = url,
                rq_headers = (case encoding of Some e \<Rightarrow> headers(''Content-Encoding'' \<mapsto> e) | None \<Rightarrow> headers),
                rq_keepalive = True, rq_body = RawBody body\<rparr>)"

definition apiUploadChunk_result :: "nat \<Rightarrow> outcome \<Rightarrow> string + unit" where
  "apiUploadChunk_result index out =
     (case out of
        FetchRejects e \<Rightarrow> Inl e
      | Response st b \<Rightarrow>
          if \<not> status_ok st
          then Inl (js_or (b_error (json_or_empty b))
                      (''chunk '' @ js_String index @ '' failed: '' @ js_String st))
          else Inr ())"

definition apiComplete_request :: "string \<Rightarrow> string \<Rightarrow> string \<Rightarrow> string option \<Rightarrow> request" where
  "apiComplete_request apiBase API_KEY uploadId checksum =
     \<lparr>rq_method = ''POST'', rq_url = apiBase @ ''/api/uploads/'' @ uploadId @ ''/complete'',
      rq_headers = authHeaders API_KEY Map.empty, rq_keepalive = True,
      rq_body = FormBody (if truthy checksum then [(''checksum'', the checksum)] else [])\<rparr>"

record complete_reply =
  c_accepted :: bool
  c_status :: "string option"
  c_path :: "string option"

definition apiComplete_result :: "outcome \<Rightarrow> string + complete_reply" where
  "apiComplete_result out =
     (case out of
        FetchRejects e \<Rightarrow> Inl e
      | Response st b \<Rightarrow>
          let body = json_or_empty b in
          if st = 202 \<or> b_status body = Some ''Completing''
          then Inr \<lparr>c_accepted = True,
                    c_status = (case b_status body of Some s \<Rightarrow> Some s | None \<Rightarrow> Some ''Completing''),
                    c_path = b_path body\<rparr>
          else if \<not> status_ok st
          then Inl (js_or (b_error body) (''complete failed: '' @ js_String st))
          else Inr \<lparr>c_accepted = False, c_status = b_status body, c_path = b_path body\<rparr>)"

definition apiAbort_request :: "string \<Rightarrow> string \<Rightarrow> string \<Rightarrow> request" where
  "apiAbort_request apiBase API_KEY uploadId =
     \<lparr>rq_method = ''DELETE'', rq_url = apiBase @ ''/api/uploads/'' @ uploadId,
      rq_headers = authHeaders API_KEY Map.empty, rq_keepalive = False, rq_body = NoBody\<rparr>"

definition apiStatus_request :: "string \<Rightarrow> string \<Rightarrow> string \<Rightarrow> request" where
  "apiStatus_request apiBase API_KEY uploadId =
     \<lparr>rq_method = ''GET'', rq_url = apiBase @ ''/api/uploads/'' @ uploadId @ ''/status'',
      rq_headers = authHeaders API_KEY Map.empty, rq_keepalive = False, rq_body = NoBody\<rparr>"

text \<open>\<open>Inr None\<close> is \<open>null\<close> (404); a body that is not JSON makes \<open>r.json()\<close> reject.\<close>

definition apiStatus_result :: "outcome \<Rightarrow> string + reply option" where
  "apiStatus_result out =
     (case out of
        FetchRejects e \<Rightarrow> Inl e
      | Response st b \<Rightarrow>
          if st = 404 then Inr None
          else if \<not> status_ok st then Inl (''status failed: '' @ js_String st)
          else case b of Some r \<Rightarrow> Inr (Some r) | None \<Rightarrow> Inl ''SyntaxError'')"

section \<open>The server's decoding of a chunk body\<close>

datatype decode_error = UnsupportedEncoding string | InvalidData

record decoders =
  d_gunzip :: "u8array \<Rightarrow> u8array option"
  d_inflate :: "u8array \<Rightarrow> u8array option"
  d_brotli :: "u8array \<Rightarrow> u8array option"

definition decode_with :: "(u8array \<Rightarrow> u8array option) \<Rightarrow> u8array \<Rightarrow> decode_error + u8array" where
  "decode_with d body = (case d body of Some r \<Rightarrow> Inr r | None \<Rightarrow> Inl InvalidData)"

text \<open>\<open>ChunkDecompression.Wrap\<close>, as the bytes that reading the wrapped stream yields.\<close>

definition chunk_Wrap :: "decoders \<Rightarrow> u8array \<Rightarrow> string \<Rightarrow> decode_error + u8array" where
  "chunk_Wrap d body contentEncoding =
     (if list_all is_white_space contentEncoding then Inr body
      else
        let encoding = map to_lower (str_trim (takeWhile (\<lambda>c. c \<noteq> CHR '','') contentEncoding)) in
        if encoding = ''gzip'' \<or> encoding = ''x-gzip'' then decode_with (d_gunzip d) body
        else if encoding = ''deflate'' then decode_with (d_inflate d) body
        else if encoding = ''br'' \<or> encoding = ''brotli'' then decode_with (d_brotli d) body
        else if encoding = ''identity'' then Inr body
        else Inl (UnsupportedEncoding encoding))"

text \<open>The header as \<open>Request.Headers.ContentEncoding.ToString()\<close> reads it: empty when absent.\<close>

definition header_string :: "request \<Rightarrow> string \<Rightarrow> string" where
  "header_string r name = (case rq_headers r name of Some v \<Rightarrow> v | None \<Rightarrow> [])"

section \<open>What the server receives\<close>

lemma chunk_Wrap_none: "chunk_Wrap d body [] = Inr body"
  by (simp add: chunk_Wrap_def)

lemma chunk_Wrap_gzip: "chunk_Wrap d body ''gzip'' = decode_with (d_gunzip d) body"
  by (simp add: chunk_Wrap_def is_white_space_def str_trim_def to_lower_def)

lemma maybeCompress_cases:
  "maybeCompressChunk on gzip blob mime = (blob, None) \<or>
   (\<exists>gz c. gzip = Some gz \<and> gz blob = Some c \<and> 100 * length c < 95 * length blob
      \<and> maybeCompressChunk on gzip blob mime = (c, Some ''gzip''))"
  by (auto simp: maybeCompressChunk_def split: option.splits)

lemma authHeaders_encoding: "authHeaders key Map.empty ''Content-Encoding'' = None"
  by (simp add: authHeaders_def)

lemma upload_request_cases:
  assumes "apiUploadChunk_request env uid i blob mime = Some r"
  obtains (plain) "rq_body r = RawBody blob" "header_string r ''Content-Encoding'' = []"
  | (gzip) gz c where "env_gzip env = Some gz" "gz blob = Some c" "rq_body r = RawBody c"
      "header_string r ''Content-Encoding'' = ''gzip''"
      "\<not> env_requireCrc32 env" "\<not> env_requireSha256 env" "100 * length c < 95 * length blob"
proof (cases "env_requireCrc32 env \<or> env_requireSha256 env")
  case True
  with assms have "rq_body r = RawBody blob" "header_string r ''Content-Encoding'' = []"
    by (auto simp: apiUploadChunk_request_def header_string_def authHeaders_def Let_def
        split: if_splits option.splits)
  then show ?thesis by (rule plain)
next
  case False
  then show ?thesis
    using maybeCompress_cases [of "env_compression env" "env_gzip env" blob mime] assms that
    by (auto simp: apiUploadChunk_request_def header_string_def authHeaders_def Let_def)
qed

lemma sha_header_defined:
  assumes "length blob < 2 ^ 29"
    and "\<And>dig d. env_subtle env = Some dig \<Longrightarrow> dig blob = Some d \<Longrightarrow> d = hash_bytes (sha256_spec blob)"
  shows "sha256HexOfBuffer (env_subtle env) blob = Some (sha256_hex_spec blob)"
  by (rule sha256HexOfBuffer_digest) (use assms in auto)

section \<open>Properties\<close>

text \<open>C34. The bytes the server stores for a chunk are the bytes the client sliced off the file,
  whether the body was sent raw or gzip-compressed: decoding the body by its \<open>Content-Encoding\<close>
  header gives the slice back, given that decompression inverts the browser's compression.\<close>

theorem chunk_body_decodes:
  assumes "apiUploadChunk_request env uploadId index blob mime = Some r"
    and "\<And>gz b c. env_gzip env = Some gz \<Longrightarrow> gz b = Some c \<Longrightarrow> d_gunzip d c = Some b"
  shows "\<exists>body. rq_body r = RawBody body
    \<and> chunk_Wrap d body (header_string r ''Content-Encoding'') = Inr blob"
  using assms(1)
proof (cases rule: upload_request_cases)
  case plain
  then show ?thesis by (simp add: chunk_Wrap_none)
next
  case (gzip gz c)
  then show ?thesis using assms(2) by (simp add: chunk_Wrap_gzip decode_with_def)
qed

definition demo_env :: chunk_env where
  "demo_env = \<lparr>env_apiBase = ''http://h'', env_apiKey = ''k'', env_requireCrc32 = False,
     env_requireSha256 = False, env_compression = True,
     env_gzip = Some (\<lambda>b. if b = replicate 40 0 then Some [40] else None),
     env_subtle = None, env_crcTable = None\<rparr>"

definition demo_decoders :: decoders where
  "demo_decoders = \<lparr>d_gunzip = \<lambda>c. if c = [40] then Some (replicate 40 0) else None,
     d_inflate = \<lambda>_. None, d_brotli = \<lambda>_. None\<rparr>"

lemma demo_request:
  "\<exists>r. apiUploadChunk_request demo_env ''id'' 0 (replicate 40 0) ''text/plain'' = Some r"
  unfolding apiUploadChunk_request_def demo_env_def by (simp add: split_beta Let_def)

theorem chunk_body_decodes_witness:
  "\<exists>r body. apiUploadChunk_request demo_env ''id'' 0 (replicate 40 0) ''text/plain'' = Some r
     \<and> rq_body r = RawBody body
     \<and> chunk_Wrap demo_decoders body (header_string r ''Content-Encoding'') = Inr (replicate 40 0)"
proof -
  obtain r where r: "apiUploadChunk_request demo_env ''id'' 0 (replicate 40 0) ''text/plain'' = Some r"
    using demo_request by blast
  have "\<exists>body. rq_body r = RawBody body
     \<and> chunk_Wrap demo_decoders body (header_string r ''Content-Encoding'') = Inr (replicate 40 0)"
    by (rule chunk_body_decodes [OF r]) (auto simp: demo_env_def demo_decoders_def split: if_splits)
  with r show ?thesis by blast
qed

text \<open>When the server asks for integrity headers, the chunk is sent uncompressed and the headers
  are the CRC-32 and the SHA-256 of exactly the bytes in the body (for chunks of at most
  \<open>CHUNK_SIZE\<close> bytes and a \<open>crypto.subtle\<close> that implements SHA-256).\<close>

theorem integrity_headers_cover_body:
  assumes "env_requireCrc32 env" and "env_requireSha256 env" and "length blob \<le> CHUNK_SIZE"
    and "env_crcTable env = None \<or> env_crcTable env = Some make_table"
    and "\<And>dig d. env_subtle env = Some dig \<Longrightarrow> dig blob = Some d \<Longrightarrow> d = hash_bytes (sha256_spec blob)"
  shows "\<exists>r. apiUploadChunk_request env uploadId index blob mime = Some r \<and> rq_body r = RawBody blob
    \<and> rq_headers r ''X-Chunk-CRC32'' = Some (padStart 8 (CHR ''0'') (js_toString16 (unat (crc32_spec blob))))
    \<and> rq_headers r ''X-Chunk-SHA256'' = Some (sha256_hex_spec blob)
    \<and> rq_headers r ''Content-Encoding'' = None"
proof -
  have "length blob < 2 ^ 29" using assms(3) by (simp add: CHUNK_SIZE_def)
  then have s: "sha256HexOfBuffer (env_subtle env) blob = Some (sha256_hex_spec blob)"
    using assms(5) by (rule sha_header_defined)
  have c: "fst (crc32Hex (env_crcTable env) blob) =
    padStart 8 (CHR ''0'') (js_toString16 (unat (crc32_spec blob)))"
    using crc32Hex_spec [OF assms(4)] by simp
  show ?thesis using assms(1,2)
    by (simp add: apiUploadChunk_request_def s c authHeaders_def)
qed

theorem integrity_headers_cover_body_witness:
  "\<exists>r. apiUploadChunk_request (demo_env\<lparr>env_requireCrc32 := True, env_requireSha256 := True\<rparr>)
      ''id'' 3 [1, 2] ''text/plain'' = Some r \<and> rq_body r = RawBody [1, 2]"
proof -
  have "\<exists>r. apiUploadChunk_request (demo_env\<lparr>env_requireCrc32 := True, env_requireSha256 := True\<rparr>)
      ''id'' 3 [1, 2] ''text/plain'' = Some r \<and> rq_body r = RawBody [1, 2]
    \<and> rq_headers r ''X-Chunk-CRC32'' = Some (padStart 8 (CHR ''0'') (js_toString16 (unat (crc32_spec [1, 2]))))
    \<and> rq_headers r ''X-Chunk-SHA256'' = Some (sha256_hex_spec [1, 2])
    \<and> rq_headers r ''Content-Encoding'' = None"
    by (rule integrity_headers_cover_body) (simp_all add: demo_env_def CHUNK_SIZE_def)
  then show ?thesis by blast
qed

text \<open>Every chunk \<open>PUT\<close> is sent with \<open>keepalive: true\<close>. In a browser that follows the Fetch
  standard, where a keepalive request whose body is over 64 KiB is a network error, uploading any
  uncompressed chunk over 64 KiB throws, so no retry can succeed.\<close>

theorem keepalive_chunk_rejected:
  assumes "apiUploadChunk_request env uploadId index blob mime = Some r"
    and "\<And>r body. rq_keepalive r \<Longrightarrow> rq_body r = RawBody body \<Longrightarrow> 65536 < length body \<Longrightarrow>
      \<exists>e. fetch r = FetchRejects e"
    and "65536 < length blob" and "\<not> env_compression env"
  shows "\<exists>e. apiUploadChunk_result index (fetch r) = Inl e"
proof -
  have "rq_keepalive r" "rq_body r = RawBody blob"
    using assms(1,4)
    by (auto simp: apiUploadChunk_request_def maybeCompressChunk_def Let_def split: if_splits option.splits)
  then obtain e where "fetch r = FetchRejects e" using assms(2,3) by blast
  then show ?thesis by (simp add: apiUploadChunk_result_def)
qed

definition standard_fetch :: "request \<Rightarrow> outcome" where
  "standard_fetch r =
     (case rq_body r of
        RawBody body \<Rightarrow> if rq_keepalive r \<and> 65536 < length body then FetchRejects ''Failed to fetch''
                         else Response 200 None
      | _ \<Rightarrow> Response 200 None)"

theorem keepalive_chunk_rejected_witness:
  "\<exists>r e. apiUploadChunk_request (demo_env\<lparr>env_compression := False\<rparr>) ''id'' 0 (replicate 65537 0) [] = Some r
     \<and> apiUploadChunk_result 0 (standard_fetch r) = Inl e"
proof -
  obtain r where r: "apiUploadChunk_request (demo_env\<lparr>env_compression := False\<rparr>) ''id'' 0 (replicate 65537 0) [] = Some r"
    by (simp add: apiUploadChunk_request_def demo_env_def maybeCompressChunk_def)
  have "\<exists>e. apiUploadChunk_result 0 (standard_fetch r) = Inl e"
    by (rule keepalive_chunk_rejected [OF r]) (auto simp: standard_fetch_def demo_env_def)
  with r show ?thesis by blast
qed

text \<open>Every request of the client carries the configured API key in \<open>X-Api-Key\<close>, and no request
  has that header when no key is configured.\<close>

theorem requests_carry_api_key:
  "rq_headers (apiInitiate_request base key f ck) ''X-Api-Key'' = (if key = [] then None else Some key)
   \<and> rq_headers (apiComplete_request base key uid ck) ''X-Api-Key'' = (if key = [] then None else Some key)
   \<and> rq_headers (apiAbort_request base key uid) ''X-Api-Key'' = (if key = [] then None else Some key)
   \<and> rq_headers (apiStatus_request base key uid) ''X-Api-Key'' = (if key = [] then None else Some key)
   \<and> map_option (\<lambda>r. rq_headers r ''X-Api-Key'') (apiUploadChunk_request (env\<lparr>env_apiKey := key\<rparr>) uid i blob mime)
       \<in> {None, Some (if key = [] then None else Some key)}"
  by (auto simp: apiInitiate_request_def apiComplete_request_def apiAbort_request_def
      apiStatus_request_def apiUploadChunk_request_def authHeaders_def Let_def split_beta
      split: option.splits)

end
