(* ===== verification/Upload_Run.thy ===== *)
theory Upload_Run
  imports Transition_System Adaptive Http_Api
begin

text \<open>
  \<open>runUpload\<close> of \<open>upload.js\<close> up to the call of \<open>apiComplete\<close>: the queue of missing chunks, the pool
  of workers (\<open>pump\<close>, \<open>workerOne\<close>) and the main loop that waits for it. JavaScript runs one segment of
  code between two \<open>await\<close>s without interruption, so a step of the model is such a segment, named
  by the event that resumes it: a chunk request that succeeds or fails, a backoff timer, the
  \<open>finally\<close> callback of a worker that has returned, the 50 ms timer of the main loop, a click on
  Cancel or Pause. The counter \<open>activeWorkers\<close> is a variable of the page and not of the run, so workers
  that an earlier, failed run left behind (\<open>u_stale\<close>) count it down when they end. Progress texts are
  left out here.
\<close>

section \<open>State\<close>

record item =
  it_index :: nat
  it_start :: nat
  it_end :: nat
  it_retries :: nat

datatype wstate = InFlight item | Sleeping | Returned

datatype exit_kind = ExitThrows string | ExitCancelled | ExitPaused | ExitComplete

record run =
  u_fileSize :: nat
  u_total :: nat
  u_queue :: "item list"
  u_received :: "nat set"
  u_uploadedCount :: nat
  u_workers :: "(nat \<times> wstate) list"
  u_nextId :: nat
  u_activeWorkers :: int
  u_stale :: nat
  u_speed :: speed
  u_fatalError :: "string option"
  u_cancelRequested :: bool
  u_pauseRequested :: bool
  u_exit :: "exit_kind option"

section \<open>The queue\<close>

definition chunk_item :: "nat \<Rightarrow> nat \<Rightarrow> item" where
  "chunk_item fileSize i =
     (let start = i * CHUNK_SIZE
      in \<lparr>it_index = i, it_start = start, it_end = min (start + CHUNK_SIZE) fileSize, it_retries = 0\<rparr>)"

definition build_queue :: "nat \<Rightarrow> nat \<Rightarrow> nat set \<Rightarrow> item list" where
  "build_queue fileSize totalChunks received =
     map (chunk_item fileSize) (filter (\<lambda>i. i \<notin> received) [0..<totalChunks])"

section \<open>pump and workerOne\<close>

definition halted :: "run \<Rightarrow> bool" where
  "halted u \<longleftrightarrow> u_cancelRequested u \<or> u_pauseRequested u \<or> u_fatalError u \<noteq> None"

abbreviation adaptive :: "run \<Rightarrow> int" where
  "adaptive u \<equiv> int (sp_adaptiveWorkers (u_speed u))"

text \<open>The head of the loop of \<open>workerOne\<close>: the worker returns, or takes an item off the queue and waits
  for its request.\<close>

definition worker_next :: "run \<Rightarrow> wstate \<times> run" where
  "worker_next u =
     (if halted u then (Returned, u)
      else if adaptive u < u_activeWorkers u then (Returned, u)
      else case u_queue u of
             [] \<Rightarrow> (Returned, u)
           | it # q \<Rightarrow> (InFlight it, u\<lparr>u_queue := q\<rparr>))"

lemma worker_next_frame [simp]:
  "u_speed (snd (worker_next u)) = u_speed u"
  "u_activeWorkers (snd (worker_next u)) = u_activeWorkers u"
  by (simp_all add: worker_next_def split: list.split)

text \<open>The call \<open>workerOne()\<close> inside the loop of \<open>pump\<close> runs up to the worker's first \<open>await\<close>.\<close>

function (sequential) pump :: "run \<Rightarrow> run" where
  "pump u =
     (if u_activeWorkers u < adaptive u \<and> u_queue u \<noteq> [] \<and> \<not> halted u then
        let r = worker_next (u\<lparr>u_activeWorkers := u_activeWorkers u + 1\<rparr>); u' = snd r
        in pump (u'\<lparr>u_workers := u_workers u' @ [(u_nextId u', fst r)], u_nextId := u_nextId u' + 1\<rparr>)
      else u)"
  by pat_completeness auto
termination
  by (relation "measure (\<lambda>u. nat (adaptive u - u_activeWorkers u))") auto

declare pump.simps [simp del]

definition set_worker :: "nat \<Rightarrow> wstate \<Rightarrow> run \<Rightarrow> run" where
  "set_worker w st u = u\<lparr>u_workers := map (\<lambda>(j, s). if j = w then (j, st) else (j, s)) (u_workers u)\<rparr>"

text \<open>The worker's promise settles: the \<open>finally\<close> callback of \<open>pump\<close>.\<close>

definition worker_settled :: "nat \<Rightarrow> run \<Rightarrow> run" where
  "worker_settled w u =
     (let u1 = u\<lparr>u_workers := filter (\<lambda>(j, s). j \<noteq> w) (u_workers u),
                 u_activeWorkers := u_activeWorkers u - 1\<rparr>
      in if halted u1 then u1 else pump u1)"

definition worker_continue :: "nat \<Rightarrow> run \<Rightarrow> run" where
  "worker_continue w u = (let r = worker_next u in set_worker w (fst r) (snd r))"

definition chunk_uploaded :: "nat \<Rightarrow> item \<Rightarrow> rat \<Rightarrow> run \<Rightarrow> run" where
  "chunk_uploaded w it now u =
     worker_continue w (u\<lparr>u_received := insert (it_index it) (u_received u),
       u_uploadedCount := u_uploadedCount u + 1,
       u_speed := noteBytes now (it_end it - it_start it) (u_speed u)\<rparr>)"

definition chunk_failed :: "nat \<Rightarrow> item \<Rightarrow> string \<Rightarrow> run \<Rightarrow> run" where
  "chunk_failed w it e u =
     (let it' = it\<lparr>it_retries := it_retries it + 1\<rparr>
      in if it_retries it' \<le> 3 \<and> \<not> u_cancelRequested u
         then set_worker w Sleeping (u\<lparr>u_queue := u_queue u @ [it']\<rparr>)
         else if \<not> u_cancelRequested u then set_worker w Returned (u\<lparr>u_fatalError := Some e\<rparr>)
         else worker_continue w u)"

section \<open>The main loop\<close>

definition leave_loop :: "run \<Rightarrow> exit_kind" where
  "leave_loop u =
     (case u_fatalError u of
        Some e \<Rightarrow> ExitThrows e
      | None \<Rightarrow> if u_cancelRequested u then ExitCancelled
                else if u_pauseRequested u then ExitPaused
                else ExitComplete)"

definition main_tick :: "run \<Rightarrow> run" where
  "main_tick u =
     (if 0 < u_activeWorkers u \<or> (u_queue u \<noteq> [] \<and> \<not> halted u) then
        if u_fatalError u \<noteq> None then u\<lparr>u_exit := Some (leave_loop u)\<rparr>
        else if \<not> halted u then pump u else u
      else u\<lparr>u_exit := Some (leave_loop u)\<rparr>)"

section \<open>Events\<close>

datatype run_event =
    ChunkOk nat rat
  | ChunkFail nat string
  | WakeUp nat
  | Settled nat
  | Tick
  | ClickCancel
  | ClickPause
  | StaleOk nat rat
  | StaleSettled

text \<open>A stale worker's run has a fatal error, so its \<open>finally\<close> callback only counts down.\<close>

fun run_step :: "run_event \<Rightarrow> run \<Rightarrow> run option" where
  "run_step (ChunkOk w now) u =
     (case map_of (u_workers u) w of
        Some (InFlight it) \<Rightarrow> Some (chunk_uploaded w it now u)
      | _ \<Rightarrow> None)"
| "run_step (ChunkFail w e) u =
     (case map_of (u_workers u) w of
        Some (InFlight it) \<Rightarrow> Some (chunk_failed w it e u)
      | _ \<Rightarrow> None)"
| "run_step (WakeUp w) u =
     (case map_of (u_workers u) w of
        Some Sleeping \<Rightarrow> Some (worker_continue w u)
      | _ \<Rightarrow> None)"
| "run_step (Settled w) u =
     (case map_of (u_workers u) w of
        Some Returned \<Rightarrow> Some (worker_settled w u)
      | _ \<Rightarrow> None)"
| "run_step Tick u = (if u_exit u = None then Some (main_tick u) else None)"
| "run_step ClickCancel u = Some (u\<lparr>u_cancelRequested := True, u_pauseRequested := False\<rparr>)"
| "run_step ClickPause u = (if u_exit u = None then Some (u\<lparr>u_pauseRequested := True\<rparr>) else None)"
| "run_step (StaleOk n now) u =
     (if 0 < u_stale u
      then Some (u\<lparr>u_uploadedCount := u_uploadedCount u + 1, u_speed := noteBytes now n (u_speed u)\<rparr>)
      else None)"
| "run_step StaleSettled u =
     (if 0 < u_stale u
      then Some (u\<lparr>u_stale := u_stale u - 1, u_activeWorkers := u_activeWorkers u - 1\<rparr>)
      else None)"

text \<open>\<open>runUpload\<close> up to the first \<open>await\<close> of its main loop, with \<open>stale\<close> workers of earlier runs pending.\<close>

definition start_run :: "nat \<Rightarrow> nat \<Rightarrow> nat list \<Rightarrow> speed \<Rightarrow> rat \<Rightarrow> nat \<Rightarrow> run" where
  "start_run fileSize totalChunks alreadyReceived sp now stale =
     (let received = set alreadyReceived
      in main_tick (pump \<lparr>u_fileSize = fileSize, u_total = totalChunks,
           u_queue = build_queue fileSize totalChunks received,
           u_received = received,
           u_uploadedCount = card received,
           u_workers = [],
           u_nextId = 0,
           u_activeWorkers = 0,
           u_stale = stale,
           u_speed = sp\<lparr>sp_windowStart := now, sp_windowBytes := 0\<rparr>,
           u_fatalError = None,
           u_cancelRequested = False,
           u_pauseRequested = False,
           u_exit = None\<rparr>))"

text \<open>The state in which the main loop of a run is left: at once, or after some events, at the next test of the loop.\<close>

definition run_to_exit :: "run_event list \<Rightarrow> run \<Rightarrow> run option" where
  "run_to_exit es s =
     (if u_exit s \<noteq> None then (if es = [] then Some s else None)
      else case exec_events run_step es s of
             Some u \<Rightarrow> if u_exit u = None \<and> u_exit (main_tick u) \<noteq> None then Some u else None
           | None \<Rightarrow> None)"

end
