(* ===== verification/Session_Store.thy ===== *)
theory Session_Store
  imports JS_Prelude
begin

text \<open>
  The resumable-session record of \<open>upload.js\<close>: \<open>saveSession\<close>, \<open>loadSession\<close> and \<open>clearSession\<close>
  over the browser's \<open>localStorage\<close>, with the parts of \<open>JSON.stringify\<close> and \<open>JSON.parse\<close> they use
  (flat objects whose values are strings and non-negative integers; any other text is one on which
  the model's parser returns \<open>None\<close>, and \<open>loadSession\<close> yields \<open>null\<close>).
  \<open>localStorage\<close> may refuse a write (quota) or be blocked altogether; both make the calls throw,
  which the three functions swallow.
\<close>

section \<open>JSON text of a flat object\<close>

datatype jval = JString string | JNumber nat

abbreviation (input) dq :: char where "dq \<equiv> CHR 0x22"
abbreviation (input) bs :: char where "bs \<equiv> CHR 0x5C"

definition json_escape :: "char \<Rightarrow> string" where
  "json_escape c =
     (if c = dq then [bs, dq]
      else if c = bs then [bs, bs]
      else if c = CHR 0x08 then [bs, CHR ''b'']
      else if c = CHR 0x0C then [bs, CHR ''f'']
      else if c = CHR 0x0A then [bs, CHR ''n'']
      else if c = CHR 0x0D then [bs, CHR ''r'']
      else if c = CHR 0x09 then [bs, CHR ''t'']
      else if of_char c < (32 :: nat)
      then [bs, CHR ''u''] @ padStart 4 (CHR ''0'') (js_toString16 (of_char c))
      else [c])"

definition json_string :: "string \<Rightarrow> string" where
  "json_string s = [dq] @ concat (map json_escape s) @ [dq]"

fun json_value :: "jval \<Rightarrow> string" where
  "json_value (JString s) = json_string s"
| "json_value (JNumber n) = js_String n"

fun json_members :: "(string \<times> jval) list \<Rightarrow> string" where
  "json_members [] = []"
| "json_members [(k, v)] = json_string k @ [CHR '':''] @ json_value v"
| "json_members ((k, v) # m) = json_string k @ [CHR '':''] @ json_value v @ [CHR '',''] @ json_members m"

definition JSON_stringify :: "(string \<times> jval) list \<Rightarrow> string" where
  "JSON_stringify obj = [CHR 0x7B] @ json_members obj @ [CHR 0x7D]"

section \<open>Parsing it back\<close>

definition json_unescape :: "char \<Rightarrow> char option" where
  "json_unescape e =
     (if e = dq \<or> e = bs \<or> e = CHR ''/'' then Some e
      else if e = CHR ''b'' then Some (CHR 0x08)
      else if e = CHR ''f'' then Some (CHR 0x0C)
      else if e = CHR ''n'' then Some (CHR 0x0A)
      else if e = CHR ''r'' then Some (CHR 0x0D)
      else if e = CHR ''t'' then Some (CHR 0x09)
      else None)"

fun parse_string :: "string \<Rightarrow> (string \<times> string) option" where
  "parse_string [] = None"
| "parse_string (c # r) =
     (if c = dq then Some ([], r)
      else if c = bs then
        (case r of
           [] \<Rightarrow> None
         | e # r' \<Rightarrow>
             if e = CHR ''u'' then
               (if list_all is_hex_char (take 4 r') \<and> length (take 4 r') = 4
                  \<and> hex_to_nat 0 (take 4 r') < 256
                then map_option (\<lambda>(s, q). (char_of (hex_to_nat 0 (take 4 r')) # s, q))
                       (parse_string (drop 4 r'))
                else None)
             else (case json_unescape e of
                     None \<Rightarrow> None
                   | Some d \<Rightarrow> map_option (\<lambda>(s, q). (d # s, q)) (parse_string r')))
      else if of_char c < (32 :: nat) then None
      else map_option (\<lambda>(s, q). (c # s, q)) (parse_string r))"

definition is_digit_char :: "char \<Rightarrow> bool" where
  "is_digit_char c \<longleftrightarrow> c \<in> set ''0123456789''"

fun dec_to_nat :: "nat \<Rightarrow> string \<Rightarrow> nat" where
  "dec_to_nat acc [] = acc"
| "dec_to_nat acc (c # cs) = dec_to_nat (10 * acc + hex_value c) cs"

fun parse_value :: "string \<Rightarrow> (jval \<times> string) option" where
  "parse_value [] = None"
| "parse_value (c # r) =
     (if c = dq then map_option (\<lambda>(s, q). (JString s, q)) (parse_string r)
      else if is_digit_char c
      then Some (JNumber (dec_to_nat 0 (takeWhile is_digit_char (c # r))),
                 dropWhile is_digit_char (c # r))
      else None)"

fun parse_members :: "nat \<Rightarrow> string \<Rightarrow> (string \<times> jval) list option" where
  "parse_members 0 s = None"
| "parse_members (Suc fuel) s =
     (case s of
        [] \<Rightarrow> None
      | c # r \<Rightarrow>
          if c \<noteq> dq then None
          else case parse_string r of
                 None \<Rightarrow> None
               | Some (k, r1) \<Rightarrow>
                   if r1 = [] \<or> hd r1 \<noteq> CHR '':'' then None
                   else case parse_value (tl r1) of
                          None \<Rightarrow> None
                        | Some (v, r2) \<Rightarrow>
                            if r2 = [CHR 0x7D] then Some [(k, v)]
                            else if r2 \<noteq> [] \<and> hd r2 = CHR '',''
                            then map_option (Cons (k, v)) (parse_members fuel (tl r2))
                            else None)"

text \<open>\<open>JSON.parse\<close>: \<open>None\<close> is the \<open>SyntaxError\<close> (or a text outside the flat objects).\<close>

definition JSON_parse :: "string \<Rightarrow> (string \<times> jval) list option" where
  "JSON_parse s =
     (case s of
        [] \<Rightarrow> None
      | c # r \<Rightarrow> if c \<noteq> CHR 0x7B then None
                 else if r = [CHR 0x7D] then Some []
                 else parse_members (length r) r)"

section \<open>The round trip of the JSON text\<close>

lemma to_radix10_digits: "list_all is_digit_char (to_radix 10 n)"
proof (induction "10 :: nat" n rule: to_radix.induct)
  case (1 n)
  have d: "is_digit_char (digit_char k)" if "k < 10" for k
  proof -
    from that have "k \<in> {0, 1, 2, 3, 4, 5, 6, 7, 8, 9}" by (simp add: less_Suc_eq eval_nat_numeral(2,3))
    then show ?thesis by (auto simp: is_digit_char_def digit_char_def)
  qed
  show ?case
  proof (cases "n < 10")
    case True
    then show ?thesis using d by (simp add: to_radix.simps)
  next
    case False
    then show ?thesis using 1 d by (simp add: to_radix.simps [of 10 n])
  qed
qed

lemma dec_to_nat_append: "dec_to_nat acc (xs @ ys) = dec_to_nat (dec_to_nat acc xs) ys"
  by (induction xs arbitrary: acc) auto

lemma dec_to_nat_String: "dec_to_nat 0 (js_String n) = n"
  unfolding js_String_def
proof (induction "10 :: nat" n rule: to_radix.induct)
  case (1 n)
  show ?case
  proof (cases "n < 10")
    case True
    then show ?thesis by (simp add: to_radix.simps)
  next
    case False
    with 1 show ?thesis by (simp add: to_radix.simps [of 10 n] dec_to_nat_append)
  qed
qed

lemma js_String_digits: "list_all is_digit_char (js_String n)" "js_String n \<noteq> []"
proof -
  show "list_all is_digit_char (js_String n)" by (simp add: js_String_def to_radix10_digits)
  show "js_String n \<noteq> []" by (simp add: js_String_def to_radix.simps [of 10 n])
qed

lemma parse_escape:
  "parse_string (json_escape c @ r) = map_option (\<lambda>(s, q). (c # s, q)) (parse_string r)"
proof -
  consider "c \<in> {dq, bs, CHR 0x08, CHR 0x0C, CHR 0x0A, CHR 0x0D, CHR 0x09}"
    | (ctl) "c \<notin> {dq, bs, CHR 0x08, CHR 0x0C, CHR 0x0A, CHR 0x0D, CHR 0x09}" "of_char c < (32 :: nat)"
    | (plain) "c \<notin> {dq, bs, CHR 0x08, CHR 0x0C, CHR 0x0A, CHR 0x0D, CHR 0x09}" "32 \<le> (of_char c :: nat)"
    by linarith
  then show ?thesis
  proof cases
    case 1
    then show ?thesis by (auto simp: json_escape_def json_unescape_def)
  next
    case ctl
    define h where "h = padStart 4 (CHR ''0'') (js_toString16 (of_char c))"
    have "(of_char c :: nat) < 16 ^ 4" using ctl(2) by simp
    then have l: "length h = 4" unfolding h_def by (intro padStart_length length_toString16_less) simp_all
    have x: "list_all is_hex_char h" unfolding h_def by (intro padStart_hex toString16_hex)
    have n: "hex_to_nat 0 h = of_char c" by (simp add: h_def)
    have e: "json_escape c = bs # CHR ''u'' # h" using ctl by (simp add: json_escape_def h_def)
    have t: "take 4 (h @ r) = h" "drop 4 (h @ r) = r" using l by simp_all
    have "(of_char c :: nat) < 256" using ctl(2) by simp
    then show ?thesis unfolding e append_Cons using l x n by (simp add: t)
  next
    case plain
    then show ?thesis by (simp add: json_escape_def)
  qed
qed

lemma parse_json_string: "parse_string (concat (map json_escape s) @ dq # r) = Some (s, r)"
  by (induction s) (simp_all add: parse_escape)

lemma parse_json_value:
  assumes "r \<noteq> [] \<Longrightarrow> \<not> is_digit_char (hd r)"
  shows "parse_value (json_value v @ r) = Some (v, r)"
proof (cases v)
  case (JString s)
  then show ?thesis by (simp add: json_string_def parse_json_string)
next
  case (JNumber n)
  define d where "d = js_String n"
  have d: "list_all is_digit_char d" "d \<noteq> []" by (simp_all add: d_def js_String_digits)
  have tw: "takeWhile is_digit_char (d @ r) = d" "dropWhile is_digit_char (d @ r) = r"
    using d(1) assms by (induction d) (auto intro: takeWhile_eq_Nil_iff [THEN iffD2] simp: dropWhile_eq_self_iff)
  obtain c ds where cd: "d = c # ds" using d(2) by (cases d) auto
  have "is_digit_char c" "c \<noteq> dq" using d(1) cd by (auto simp: is_digit_char_def)
  then have "parse_value (d @ r) =
    Some (JNumber (dec_to_nat 0 (takeWhile is_digit_char (d @ r))), dropWhile is_digit_char (d @ r))"
    by (simp add: cd)
  then show ?thesis using JNumber by (simp add: tw) (simp add: d_def dec_to_nat_String)
qed

lemma parse_json_members:
  "m \<noteq> [] \<Longrightarrow> length m \<le> fuel \<Longrightarrow> parse_members fuel (json_members m @ [CHR 0x7D]) = Some m"
proof (induction m arbitrary: fuel rule: json_members.induct)
  case 1
  then show ?case by simp
next
  case (2 k v)
  then obtain f where "fuel = Suc f" by (cases fuel) auto
  then show ?case
    by (simp add: json_string_def parse_json_string parse_json_value is_digit_char_def)
next
  case (3 k v kv m)
  then obtain f where f: "fuel = Suc f" by (cases fuel) auto
  then have IH: "parse_members f (json_members (kv # m) @ [CHR 0x7D]) = Some (kv # m)"
    using 3 by simp
  have "parse_value (json_value v @ CHR '','' # json_members (kv # m) @ [CHR 0x7D]) =
    Some (v, CHR '','' # json_members (kv # m) @ [CHR 0x7D])"
    by (rule parse_json_value) (simp add: is_digit_char_def)
  then show ?case using f IH by (simp add: json_string_def parse_json_string)
qed

lemma length_json_members: "length m \<le> length (json_members m)"
  by (induction m rule: json_members.induct) (simp_all add: json_string_def)

lemma JSON_parse_stringify: "JSON_parse (JSON_stringify obj) = Some obj"
proof (cases "obj = []")
  case True
  then show ?thesis by (simp add: JSON_stringify_def JSON_parse_def)
next
  case False
  then obtain kv m where obj: "obj = kv # m" by (cases obj) auto
  have "json_members obj @ [CHR 0x7D] \<noteq> [CHR 0x7D]"
    using length_json_members [of obj] obj by auto
  moreover have "parse_members (length (json_members obj @ [CHR 0x7D])) (json_members obj @ [CHR 0x7D]) = Some obj"
    using False length_json_members [of obj] by (intro parse_json_members) simp_all
  ultimately show ?thesis
    unfolding JSON_stringify_def JSON_parse_def by (simp del: parse_members.simps length_append)
qed

section \<open>The storage interface\<close>

text \<open>The browser's string store as its clients use it: \<open>get\<close>, \<open>put\<close> and \<open>del\<close> return \<open>None\<close> when the
  call throws.\<close>

locale string_store =
  fixes get :: "'s \<Rightarrow> string \<Rightarrow> string option option"
    and put :: "string \<Rightarrow> string \<Rightarrow> 's \<Rightarrow> 's option"
    and del :: "string \<Rightarrow> 's \<Rightarrow> 's option"
  assumes get_put: "put k v s = Some s' \<Longrightarrow> get s' k = Some (Some v)"
    and get_put_other: "put k v s = Some s' \<Longrightarrow> j \<noteq> k \<Longrightarrow> get s' j = get s j"
    and get_del: "del k s = Some s' \<Longrightarrow> get s' k = Some None"
    and get_del_other: "del k s = Some s' \<Longrightarrow> j \<noteq> k \<Longrightarrow> get s' j = get s j"
begin

lemma put_read_json:
  "put k (JSON_stringify obj) s = Some s' \<Longrightarrow>
     map_option (map_option JSON_parse) (get s' k) = Some (Some (Some obj))"
  by (simp add: get_put JSON_parse_stringify)

end

text \<open>\<open>localStorage\<close>: \<open>ls_enabled\<close> is false when the browser blocks it (every access throws),
  \<open>ls_accepts\<close> says for which key and value a write is within the quota.\<close>

record storage =
  ls_items :: "string \<rightharpoonup> string"
  ls_enabled :: bool
  ls_accepts :: "string \<Rightarrow> string \<Rightarrow> bool"

definition getItem :: "storage \<Rightarrow> string \<Rightarrow> string option option" where
  "getItem ls k = (if ls_enabled ls then Some (ls_items ls k) else None)"

definition setItem :: "string \<Rightarrow> string \<Rightarrow> storage \<Rightarrow> storage option" where
  "setItem k v ls =
     (if ls_enabled ls \<and> ls_accepts ls k v then Some (ls\<lparr>ls_items := (ls_items ls)(k \<mapsto> v)\<rparr>) else None)"

definition removeItem :: "string \<Rightarrow> storage \<Rightarrow> storage option" where
  "removeItem k ls = (if ls_enabled ls then Some (ls\<lparr>ls_items := (ls_items ls)(k := None)\<rparr>) else None)"

interpretation ls: string_store getItem setItem removeItem
  by unfold_locales (auto simp: getItem_def setItem_def removeItem_def split: if_splits)

section \<open>saveSession, loadSession, clearSession\<close>

record session_meta =
  m_uploadId :: string
  m_fileName :: string
  m_fileSize :: nat
  m_totalChunks :: nat
  m_savedAt :: nat

definition STORAGE_KEY :: string where
  "STORAGE_KEY = ''fileUploaderSession''"

definition meta_object :: "session_meta \<Rightarrow> (string \<times> jval) list" where
  "meta_object m =
     [(''uploadId'', JString (m_uploadId m)), (''fileName'', JString (m_fileName m)),
      (''fileSize'', JNumber (m_fileSize m)), (''totalChunks'', JNumber (m_totalChunks m)),
      (''savedAt'', JNumber (m_savedAt m))]"

definition saveSession :: "session_meta \<Rightarrow> storage \<Rightarrow> storage" where
  "saveSession meta ls =
     (case setItem STORAGE_KEY (JSON_stringify (meta_object meta)) ls of Some ls' \<Rightarrow> ls' | None \<Rightarrow> ls)"

text \<open>The result of \<open>loadSession\<close> is the parsed object, \<open>None\<close> for \<open>null\<close>; an empty string is falsy,
  so it is \<open>null\<close> too.\<close>

definition loadSession :: "storage \<Rightarrow> (string \<times> jval) list option" where
  "loadSession ls =
     (case getItem ls STORAGE_KEY of
        None \<Rightarrow> None
      | Some None \<Rightarrow> None
      | Some (Some raw) \<Rightarrow> if raw = [] then None else JSON_parse raw)"

definition clearSession :: "storage \<Rightarrow> storage" where
  "clearSession ls = (case removeItem STORAGE_KEY ls of Some ls' \<Rightarrow> ls' | None \<Rightarrow> ls)"

text \<open>The fields \<open>checkResume\<close> reads off the loaded object.\<close>

definition session_uploadId :: "(string \<times> jval) list \<Rightarrow> string option" where
  "session_uploadId obj = (case map_of obj ''uploadId'' of Some (JString s) \<Rightarrow> Some s | _ \<Rightarrow> None)"

definition session_fileName :: "(string \<times> jval) list \<Rightarrow> string option" where
  "session_fileName obj = (case map_of obj ''fileName'' of Some (JString s) \<Rightarrow> Some s | _ \<Rightarrow> None)"

definition session_fileSize :: "(string \<times> jval) list \<Rightarrow> nat option" where
  "session_fileSize obj = (case map_of obj ''fileSize'' of Some (JNumber n) \<Rightarrow> Some n | _ \<Rightarrow> None)"

lemma load_after_setItem:
  assumes "setItem STORAGE_KEY (JSON_stringify obj) ls = Some ls'"
  shows "loadSession ls' = Some obj"
proof -
  have "getItem ls' STORAGE_KEY = Some (Some (JSON_stringify obj))" using assms by (rule ls.get_put)
  moreover have "JSON_stringify obj \<noteq> []" by (simp add: JSON_stringify_def)
  ultimately show ?thesis by (simp add: loadSession_def JSON_parse_stringify)
qed

section \<open>Properties\<close>

text \<open>C36. A session that \<open>saveSession\<close> could write is read back by \<open>loadSession\<close> with the same upload
  id, file name and size, whatever characters the file name holds (quotes, backslashes and control
  characters included).\<close>

theorem session_roundtrip:
  assumes "ls_enabled ls" and "ls_accepts ls STORAGE_KEY (JSON_stringify (meta_object meta))"
  shows "\<exists>obj. loadSession (saveSession meta ls) = Some obj
    \<and> session_uploadId obj = Some (m_uploadId meta) \<and> session_fileName obj = Some (m_fileName meta)
    \<and> session_fileSize obj = Some (m_fileSize meta)"
proof -
  obtain ls' where ls': "setItem STORAGE_KEY (JSON_stringify (meta_object meta)) ls = Some ls'"
    using assms by (simp add: setItem_def)
  then have "loadSession (saveSession meta ls) = Some (meta_object meta)"
    by (simp add: saveSession_def load_after_setItem)
  then show ?thesis
    by (simp add: meta_object_def session_uploadId_def session_fileName_def session_fileSize_def)
qed

theorem session_roundtrip_witness:
  "\<exists>obj. loadSession (saveSession
       \<lparr>m_uploadId = ''id'', m_fileName = [CHR 0x22, CHR 0x5C, CHR 0x0A], m_fileSize = 10,
        m_totalChunks = 1, m_savedAt = 5\<rparr>
       \<lparr>ls_items = Map.empty, ls_enabled = True, ls_accepts = \<lambda>_ _. True\<rparr>) = Some obj
     \<and> session_fileName obj = Some [CHR 0x22, CHR 0x5C, CHR 0x0A]"
  using session_roundtrip
    [of "\<lparr>ls_items = Map.empty, ls_enabled = True, ls_accepts = \<lambda>_ _. True\<rparr>"
        "\<lparr>m_uploadId = ''id'', m_fileName = [CHR 0x22, CHR 0x5C, CHR 0x0A], m_fileSize = 10,
          m_totalChunks = 1, m_savedAt = 5\<rparr>"]
  by fastforce

lemma load_after_clear: "ls_enabled ls \<Longrightarrow> loadSession (clearSession ls) = None"
  using ls.get_del [of STORAGE_KEY ls]
  by (auto simp: clearSession_def loadSession_def removeItem_def)

end
