(* ===== verification/Complete_Poll.thy ===== *)
theory Complete_Poll
  imports Http_Api
begin

text \<open>
  \<open>waitForComplete\<close> of \<open>upload.js\<close>: the client polls \<open>/status\<close> until the server has merged the
  chunks. One \<open>poll\<close> is what one round of the loop observes (the clock at the loop test, the cancel
  flag, the outcome of the status request); \<open>WaitMore\<close> is a loop still running when the listed
  rounds are over.
\<close>

record poll =
  p_now :: nat
  p_cancelRequested :: bool
  p_outcome :: outcome

datatype wait_result = WaitMore | WaitReturns reply | WaitThrows string

text \<open>The pause before the next round, after \<open>attempt\<close> has been increased.\<close>

definition poll_delay :: "nat \<Rightarrow> nat" where
  "poll_delay attempt = min 2000 (400 + attempt * 100)"

fun waitForComplete :: "nat \<Rightarrow> nat \<Rightarrow> nat \<Rightarrow> poll list \<Rightarrow> wait_result" where
  "waitForComplete timeoutMs start attempt [] = WaitMore"
| "waitForComplete timeoutMs start attempt (p # ps) =
     (if \<not> p_now p < start + timeoutMs
      then WaitThrows ''Timed out waiting for server merge/verify''
      else if p_cancelRequested p
      then WaitThrows ''Cancelled while waiting for server merge''
      else case apiStatus_result (p_outcome p) of
             Inl e \<Rightarrow> WaitThrows e
           | Inr None \<Rightarrow> WaitThrows ''Session disappeared while completing''
           | Inr (Some st) \<Rightarrow>
               if b_status st = Some ''Completed'' then WaitReturns st
               else if b_status st = Some ''Failed'' \<or> b_status st = Some ''Aborted''
               then WaitThrows (''Server finished with status '' @ the (b_status st))
               else waitForComplete timeoutMs start (attempt + 1) ps)"

definition complete_timeout :: nat where
  "complete_timeout = 30 * 60 * 1000"

section \<open>Time between rounds\<close>

text \<open>\<open>setTimeout\<close> waits at least the delay it is given: the clock at each loop test is at least that
  much later than at the test before.\<close>

fun clock_ok :: "nat \<Rightarrow> nat \<Rightarrow> poll list \<Rightarrow> bool" where
  "clock_ok t attempt [] = True"
| "clock_ok t attempt (p # ps) =
     (t \<le> p_now p \<and> clock_ok (p_now p + poll_delay (attempt + 1)) (attempt + 1) ps)"

fun total_delay :: "nat \<Rightarrow> nat \<Rightarrow> nat" where
  "total_delay attempt 0 = 0"
| "total_delay attempt (Suc k) = poll_delay (attempt + 1) + total_delay (attempt + 1) k"

lemma clock_ok_nth:
  "clock_ok t attempt ps \<Longrightarrow> k < length ps \<Longrightarrow> t + total_delay attempt k \<le> p_now (ps ! k)"
proof (induction ps arbitrary: t attempt k)
  case (Cons p ps)
  show ?case
  proof (cases k)
    case 0
    with Cons.prems show ?thesis by simp
  next
    case (Suc j)
    then have "p_now p + poll_delay (attempt + 1) + total_delay (attempt + 1) j \<le> p_now (ps ! j)"
      using Cons.prems by (intro Cons.IH) auto
    then show ?thesis using Suc Cons.prems by simp
  qed
qed simp

lemma wait_more_in_time:
  "waitForComplete timeoutMs start attempt ps = WaitMore \<Longrightarrow> k < length ps \<Longrightarrow>
     p_now (ps ! k) < start + timeoutMs"
proof (induction ps arbitrary: attempt k)
  case (Cons p ps)
  then show ?case by (cases k) (auto split: if_splits sum.splits option.splits)
qed simp

lemma total_delay_max: "16 \<le> attempt \<Longrightarrow> total_delay attempt k = 2000 * k"
  by (induction k arbitrary: attempt) (auto simp: poll_delay_def)

lemma total_delay_split: "total_delay attempt (m + k) = total_delay attempt m + total_delay (attempt + m) k"
  by (induction m arbitrary: attempt) auto

lemma total_delay_ramp:
  "attempt + k \<le> 16 \<Longrightarrow> 2 * total_delay attempt k = k * (900 + 200 * attempt + 100 * k)"
proof (induction k arbitrary: attempt)
  case (Suc k)
  then have "2 * total_delay (attempt + 1) k = k * (900 + 200 * (attempt + 1) + 100 * k)" by simp
  moreover have "poll_delay (attempt + 1) = 500 + 100 * attempt"
    using Suc.prems by (simp add: poll_delay_def)
  ultimately show ?case by (simp add: algebra_simps)
qed simp

lemma total_delay_all: "total_delay 0 906 = complete_timeout"
proof -
  have "total_delay 0 (16 + 890) = total_delay 0 16 + total_delay 16 890"
    using total_delay_split [of 0 16 890] by simp
  moreover have "total_delay 0 16 = 20000" using total_delay_ramp [of 0 16] by simp
  ultimately show ?thesis by (simp add: total_delay_max complete_timeout_def)
qed

section \<open>Properties\<close>

text \<open>C35. Waiting for the merge always ends: with a clock that advances by at least the pauses the
  loop makes, the loop has returned or thrown after at most 907 rounds (906 status requests),
  whatever the server answers.\<close>

theorem waitForComplete_terminates:
  assumes "clock_ok start 0 ps" and "907 \<le> length ps"
  shows "waitForComplete complete_timeout start 0 ps \<noteq> WaitMore"
proof
  assume "waitForComplete complete_timeout start 0 ps = WaitMore"
  then have "p_now (ps ! 906) < start + complete_timeout"
    by (rule wait_more_in_time) (use assms(2) in simp)
  moreover have "start + total_delay 0 906 \<le> p_now (ps ! 906)"
    using assms by (intro clock_ok_nth) simp_all
  ultimately show False by (simp add: total_delay_all)
qed

text \<open>Rounds of a server that never finishes, one every two seconds.\<close>

fun slow_polls :: "nat \<Rightarrow> nat \<Rightarrow> poll list" where
  "slow_polls t 0 = []"
| "slow_polls t (Suc n) =
     \<lparr>p_now = t, p_cancelRequested = False,
      p_outcome = Response 200 (Some (empty_reply\<lparr>b_status := Some ''Completing''\<rparr>))\<rparr>
     # slow_polls (t + 2000) n"

lemma slow_polls_clock: "clock_ok t attempt (slow_polls t n)"
proof (induction n arbitrary: t attempt)
  case (Suc n)
  have mono: "clock_ok s a ps \<Longrightarrow> r \<le> s \<Longrightarrow> clock_ok r a ps" for r s a ps by (cases ps) auto
  show ?case using mono [OF Suc.IH [of "t + 2000" "attempt + 1"], of "t + poll_delay (attempt + 1)"]
    by (simp add: poll_delay_def)
qed simp

lemma length_slow_polls: "length (slow_polls t n) = n"
  by (induction n arbitrary: t) auto

theorem waitForComplete_terminates_witness:
  "waitForComplete complete_timeout 5 0 (slow_polls 5 907) \<noteq> WaitMore"
  by (rule waitForComplete_terminates) (simp_all only: slow_polls_clock length_slow_polls)

text \<open>The client reports a completed upload only when a status response said so: the loop
  returns a reply only if some round, before the deadline and with no cancel requested, received
  it with status \<open>Completed\<close>.\<close>

theorem waitForComplete_sound:
  assumes "waitForComplete timeoutMs start attempt ps = WaitReturns st"
  shows "\<exists>p \<in> set ps. (\<exists>code. status_ok code \<and> p_outcome p = Response code (Some st))
    \<and> b_status st = Some ''Completed'' \<and> \<not> p_cancelRequested p \<and> p_now p < start + timeoutMs"
proof -
  have r: "\<exists>code. status_ok code \<and> out = Response code (Some st)"
    if "apiStatus_result out = Inr (Some st)" for out
    using that by (auto simp: apiStatus_result_def split: outcome.splits if_splits option.splits)
  show ?thesis using assms
  proof (induction ps arbitrary: attempt)
    case (Cons p ps)
    show ?case
    proof (cases "waitForComplete timeoutMs start (attempt + 1) ps = WaitReturns st")
      case True
      then show ?thesis using Cons.IH by fastforce
    next
      case False
      with Cons.prems have "apiStatus_result (p_outcome p) = Inr (Some st)"
        "b_status st = Some ''Completed''" "\<not> p_cancelRequested p" "p_now p < start + timeoutMs"
        by (auto split: if_splits sum.splits option.splits)
      with r show ?thesis by fastforce
    qed
  qed simp
qed

theorem waitForComplete_sound_witness:
  "\<exists>p \<in> set [\<lparr>p_now = 7, p_cancelRequested = False,
        p_outcome = Response 200 (Some (empty_reply\<lparr>b_status := Some ''Completed''\<rparr>))\<rparr>].
      \<not> p_cancelRequested p \<and> p_now p < 5 + 100"
  using waitForComplete_sound
    [of 100 5 0 "[\<lparr>p_now = 7, p_cancelRequested = False,
        p_outcome = Response 200 (Some (empty_reply\<lparr>b_status := Some ''Completed''\<rparr>))\<rparr>]"
      "empty_reply\<lparr>b_status := Some ''Completed''\<rparr>"]
  by (simp add: apiStatus_result_def status_ok_def empty_reply_def)

end
