(* ===== verification/Page.thy ===== *)
theory Page
  imports Upload_Run Session_Store Complete_Poll
begin

text \<open>
  The page of \<open>upload.js\<close>: its variables, the widgets it writes, and the asynchronous functions behind the
  buttons (\<open>startFresh\<close>, \<open>runUpload\<close>, \<open>resumeFromServer\<close>, \<open>checkResume\<close>, the click handlers). Each
  function is cut at its \<open>await\<close>s: a segment is a function on the page that ends by leaving a task, and
  an event of \<open>page_step\<close> is a click or the result one task was waiting for. Several tasks can wait at
  once, as in the browser, and their results come in any order. The chunk scheduler inside \<open>runUpload\<close> is
  \<open>Upload_Run\<close>: the task \<open>AwaitRun\<close> holds what its start depends on, and its result is the list of the run's events. All widgets of \<open>Index.cshtml\<close> are present.
  A successful reply to \<open>initiate\<close> or \<open>status\<close> without the upload id or the number of chunks, and a Resume
  whose upload is cancelled before the status arrives, are left out (\<open>continue\<close> gives \<open>None\<close>).
  Strings are UTF-8; percentages are computed exactly where the browser uses doubles.
\<close>

section \<open>State\<close>

datatype ui_state = Idle | Hashing | Uploading | Paused | Verifying | Done | Error

record buttons =
  startBtn_disabled :: bool
  pauseBtn_disabled :: bool
  pauseBtn_text :: string
  cancelBtn_disabled :: bool
  fileInput_disabled :: bool

datatype caller = FromStart | FromPauseButton | FromBanner

record upload_ctx =
  cx_caller :: caller
  cx_file :: js_file
  cx_uploadId :: string
  cx_totalChunks :: nat
  cx_checksum :: "string option"

type_synonym session = "(string \<times> jval) list"

datatype task =
    AwaitBuffer js_file
  | AwaitDigest js_file
  | AwaitWorker js_file
  | AwaitInitiate js_file "string option"
  | AwaitRun upload_ctx "nat list" speed
  | AwaitComplete upload_ctx
  | AwaitMerge upload_ctx
  | AwaitErrorAbort
  | AwaitCancelAbort
  | AwaitPauseStatus
  | AwaitBannerStatus string js_file
  | AwaitCheckResume session
  | AwaitDiscard

datatype net_call = CallInitiate "string option" | CallStatus string | CallComplete string "string option" | CallAbort string

record page =
  pg_state :: ui_state
  pg_pauseRequested :: bool
  pg_cancelRequested :: bool
  pg_currentUploadId :: "string option"
  pg_currentChecksum :: "string option"
  pg_currentFile :: "js_file option"
  pg_uploadedCount :: nat
  pg_requireChunkCrc32 :: bool
  pg_requireChunkSha256 :: bool
  pg_speed :: speed
  pg_statusText :: string
  pg_errorBox :: "string option"
  pg_progress :: progress_bar
  pg_buttons :: buttons
  pg_banner :: "string option"
  pg_resume :: "session option"
  pg_storage :: storage
  pg_selected :: "js_file option"
  pg_calls :: "net_call list"
  pg_tasks :: "task list"

section \<open>Widgets\<close>

definition em_dash :: string where
  "em_dash = [CHR 0xE2, CHR 0x80, CHR 0x94]"

definition setStatus :: "string \<Rightarrow> page \<Rightarrow> page" where
  "setStatus msg p = p\<lparr>pg_statusText := msg\<rparr>"

definition showError :: "string \<Rightarrow> page \<Rightarrow> page" where
  "showError msg p = p\<lparr>pg_errorBox := Some msg\<rparr>"

definition clearError :: "page \<Rightarrow> page" where
  "clearError p = p\<lparr>pg_errorBox := None\<rparr>"

definition progress :: "int \<Rightarrow> string option \<Rightarrow> page \<Rightarrow> page" where
  "progress percent label p = p\<lparr>pg_progress := setProgress percent label\<rparr>"

definition clearSpeed :: "page \<Rightarrow> page" where
  "clearSpeed p = p\<lparr>pg_speed := setSpeed None (pg_speed p)\<rparr>"

definition busy :: "ui_state \<Rightarrow> bool" where
  "busy st \<longleftrightarrow> st = Hashing \<or> st = Uploading \<or> st = Verifying"

definition setButtons :: "page \<Rightarrow> page" where
  "setButtons p =
     p\<lparr>pg_buttons :=
        \<lparr>startBtn_disabled = (busy (pg_state p) \<or> pg_state p = Paused),
         pauseBtn_disabled = (pg_state p \<noteq> Uploading \<and> pg_state p \<noteq> Paused),
         pauseBtn_text = (if pg_state p = Paused then ''Resume'' else ''Pause''),
         cancelBtn_disabled = (\<not> (busy (pg_state p) \<or> pg_state p = Paused)),
         fileInput_disabled = (busy (pg_state p) \<or> pg_state p = Paused)\<rparr>\<rparr>"

definition setState :: "ui_state \<Rightarrow> page \<Rightarrow> page" where
  "setState st p = setButtons (p\<lparr>pg_state := st\<rparr>)"

definition hideResumeBanner :: "page \<Rightarrow> page" where
  "hideResumeBanner p = p\<lparr>pg_banner := None\<rparr>"

definition forgetSession :: "page \<Rightarrow> page" where
  "forgetSession p = p\<lparr>pg_storage := clearSession (pg_storage p)\<rparr>"

definition await :: "task \<Rightarrow> page \<Rightarrow> page" where
  "await t p = p\<lparr>pg_tasks := pg_tasks p @ [t]\<rparr>"

definition call :: "net_call \<Rightarrow> page \<Rightarrow> page" where
  "call c p = p\<lparr>pg_calls := pg_calls p @ [c]\<rparr>"

text \<open>\<open>x || null\<close> and \<open>err.message || String(err)\<close>.\<close>

definition or_null :: "string option \<Rightarrow> string option" where
  "or_null x = (if truthy x then x else None)"


definition err_text :: "string \<Rightarrow> string" where
  "err_text m = (if m = [] then ''Error'' else m)"

definition percent_of :: "nat \<Rightarrow> nat \<Rightarrow> int" where
  "percent_of k n = (if n = 0 then 0 else int (k * 100 div n))"

definition chunk_status :: "nat \<Rightarrow> nat \<Rightarrow> nat \<Rightarrow> string" where
  "chunk_status uploaded totalChunks workers =
     ''Uploading '' @ js_String uploaded @ ''/'' @ js_String totalChunks @ '' chunks ('' @ js_String workers @ '' workers)''"

section \<open>runUpload\<close>

text \<open>Up to \<open>pump()\<close>; \<open>savedAt\<close> is \<open>Date.now()\<close>. The scheduler's own start is \<open>start_run\<close>, for the chunks the server has and the
  speed variables of the page.\<close>

definition runUpload :: "upload_ctx \<Rightarrow> nat list \<Rightarrow> nat \<Rightarrow> page \<Rightarrow> page" where
  "runUpload cx alreadyReceived savedAt p =
     (let f = cx_file cx; n = card (set alreadyReceived);
          p1 = p\<lparr>pg_currentFile := Some f, pg_currentUploadId := Some (cx_uploadId cx),
                 pg_currentChecksum := or_null (cx_checksum cx),
                 pg_cancelRequested := False, pg_pauseRequested := False, pg_uploadedCount := n\<rparr>;
          p2 = progress (percent_of n (cx_totalChunks cx)) None p1;
          p3 = setStatus (chunk_status n (cx_totalChunks cx) (sp_adaptiveWorkers (pg_speed p))) p2;
          p4 = setState Uploading p3;
          p5 = p4\<lparr>pg_storage := saveSession
                 \<lparr>m_uploadId = cx_uploadId cx, m_fileName = f_name f, m_fileSize = f_size f,
                  m_totalChunks = cx_totalChunks cx, m_savedAt = savedAt\<rparr> (pg_storage p4)\<rparr>
      in await (AwaitRun cx alreadyReceived (pg_speed p5)) p5)"

text \<open>What the callers do when \<open>runUpload\<close> throws or returns.\<close>

definition start_catch :: "string \<Rightarrow> page \<Rightarrow> page" where
  "start_catch err p =
     (let p1 = setState Error (setStatus ''Error'' (showError (err_text err) p))
      in if truthy (pg_currentUploadId p1)
         then await AwaitErrorAbort (call (CallAbort (the (pg_currentUploadId p1))) p1)
         else setButtons (forgetSession p1))"

definition error_abort_done :: "page \<Rightarrow> page" where
  "error_abort_done p =
     (let p1 = forgetSession (p\<lparr>pg_currentUploadId := None\<rparr>)
      in if pg_state p1 = Error \<or> pg_state p1 = Done then setButtons p1 else p1)"

definition run_throws :: "upload_ctx \<Rightarrow> string \<Rightarrow> page \<Rightarrow> page" where
  "run_throws cx err p =
     (case cx_caller cx of
        FromStart \<Rightarrow> start_catch err p
      | _ \<Rightarrow> setState Error (showError (err_text err) p))"

definition run_returns :: "upload_ctx \<Rightarrow> page \<Rightarrow> page" where
  "run_returns cx p =
     (if cx_caller cx = FromStart \<and> (pg_state p = Error \<or> pg_state p = Done) then setButtons p else p)"

definition run_loop_ended :: "upload_ctx \<Rightarrow> run \<Rightarrow> page \<Rightarrow> page" where
  "run_loop_ended cx u p =
     (let p0 = p\<lparr>pg_uploadedCount := u_uploadedCount u, pg_speed := u_speed u\<rparr>
      in case leave_loop u of
           ExitThrows e \<Rightarrow> run_throws cx e p0
         | ExitCancelled \<Rightarrow> run_returns cx (setState Idle (setStatus ''Cancelled'' p0))
         | ExitPaused \<Rightarrow>
             run_returns cx (clearSpeed (setState Paused (setStatus
               (''Paused '' @ em_dash @ '' '' @ js_String (pg_uploadedCount p0) @ ''/''
                 @ js_String (cx_totalChunks cx) @ '' chunks'') p0)))
         | ExitComplete \<Rightarrow>
             await (AwaitComplete cx) (call (CallComplete (cx_uploadId cx) (or_null (cx_checksum cx)))
               (clearSpeed (setStatus ''Server merging & verifying (disk)...''
                 (progress 99 (Some ''Server merge...'') (setState Verifying p0))))))"

definition run_done :: "upload_ctx \<Rightarrow> string \<Rightarrow> page \<Rightarrow> page" where
  "run_done cx name p =
     run_returns cx ((setState Done (setStatus (''Completed: '' @ name)
       (progress 100 (Some (''100% '' @ em_dash @ '' done'')) (forgetSession p))))\<lparr>pg_currentUploadId := None\<rparr>)"

definition complete_replied :: "upload_ctx \<Rightarrow> outcome \<Rightarrow> page \<Rightarrow> page" where
  "complete_replied cx out p =
     (case apiComplete_result out of
        Inl e \<Rightarrow> run_throws cx e p
      | Inr r \<Rightarrow>
          if c_accepted r \<or> c_status r = Some ''Completing'' then await (AwaitMerge cx) p
          else run_done cx (js_or (c_path r) (f_name (cx_file cx))) p)"

definition merge_ended :: "upload_ctx \<Rightarrow> wait_result \<Rightarrow> page \<Rightarrow> page" where
  "merge_ended cx r p =
     (case r of
        WaitThrows e \<Rightarrow> run_throws cx e p
      | WaitReturns st \<Rightarrow>
          run_done cx (js_or (b_finalFileName st) (js_or (b_fileName st) (f_name (cx_file cx)))) p
      | WaitMore \<Rightarrow> p)"

section \<open>startFresh\<close>

definition WEBCYPTO_MAX :: nat where
  "WEBCYPTO_MAX = 512 * 1024 * 1024"

definition start_initiate :: "js_file \<Rightarrow> string option \<Rightarrow> page \<Rightarrow> page" where
  "start_initiate f checksum p =
     await (AwaitInitiate f checksum) (call (CallInitiate checksum)
       (setStatus ''Initiating / checking duplicates...'' p))"

text \<open>After \<open>await computeFullFileSha256(file)\<close>.\<close>

definition start_hashed :: "js_file \<Rightarrow> string option \<Rightarrow> page \<Rightarrow> page" where
  "start_hashed f checksum p =
     (if pg_cancelRequested p then setState Idle p
      else start_initiate f checksum
             (if truthy checksum then p\<lparr>pg_currentChecksum := checksum\<rparr> else p))"

text \<open>\<open>computeFullFileSha256\<close>: the early return, or the first \<open>await\<close> of one of its two ways.\<close>

definition compute_hash :: "bool \<Rightarrow> js_file \<Rightarrow> page \<Rightarrow> page" where
  "compute_hash HAS_SUBTLE f p =
     (if pg_cancelRequested p \<or> f_size f = 0 then start_hashed f None p
      else if HAS_SUBTLE \<and> f_size f \<le> WEBCYPTO_MAX
      then await (AwaitBuffer f) (progress 0 (Some ''Hash...'') (setStatus ''Fingerprinting (WebCrypto)...'' p))
      else await (AwaitWorker f) (setStatus ''Fingerprinting (worker stream)...'' p))"

definition startFresh :: "bool \<Rightarrow> page \<Rightarrow> page" where
  "startFresh HAS_SUBTLE p =
     (let p1 = clearError p
      in case pg_selected p1 of
           None \<Rightarrow> showError ''Please select a file first.'' p1
         | Some f \<Rightarrow> compute_hash HAS_SUBTLE f (setState Hashing p1))"

definition buffer_read :: "js_file \<Rightarrow> page \<Rightarrow> page" where
  "buffer_read f p =
     (if pg_cancelRequested p then start_hashed f None p
      else await (AwaitDigest f) (progress 80 (Some ''Hash...'') p))"

definition initiate_replied :: "js_file \<Rightarrow> string option \<Rightarrow> nat \<Rightarrow> outcome \<Rightarrow> page \<Rightarrow> page option" where
  "initiate_replied f checksum savedAt out p =
     (case apiInitiate_result out of
        Inl e \<Rightarrow> Some (start_catch e p)
      | Inr init \<Rightarrow>
          if b_alreadyExists init = Some True then
            Some (setButtons (setState Done (setStatus
              (''Already on server '' @ em_dash @ '' uploadId: ''
                @ js_or (b_existingUploadId init) (js_or (b_uploadId init) ''undefined'')
                @ (if truthy (b_path init) then '' '' @ [CHR 0xC2, CHR 0xB7] @ '' '' @ the (b_path init) else []))
              (progress 100 (Some (''100% '' @ em_dash @ '' exists'')) (forgetSession p)))))
          else
            case (b_uploadId init, b_totalChunks init) of
              (Some uploadId, Some totalChunks) \<Rightarrow>
                Some (runUpload \<lparr>cx_caller = FromStart, cx_file = f, cx_uploadId = uploadId,
                                 cx_totalChunks = totalChunks, cx_checksum = checksum\<rparr> [] savedAt
                  (p\<lparr>pg_requireChunkCrc32 := (b_requireChunkCrc32 init = Some True),
                     pg_requireChunkSha256 := (b_requireChunkSha256 init = Some True)\<rparr>))
            | _ \<Rightarrow> None)"

section \<open>Resuming\<close>

definition not_resumable :: "reply option \<Rightarrow> bool" where
  "not_resumable st \<longleftrightarrow>
     (case st of None \<Rightarrow> True | Some s \<Rightarrow> b_status s \<noteq> Some ''Pending'' \<or> b_isExpired s = Some True)"

definition received_of :: "reply \<Rightarrow> nat list" where
  "received_of st = (case b_received st of Some xs \<Rightarrow> xs | None \<Rightarrow> [])"

text \<open>\<open>resumeFromServer\<close> up to and after its \<open>await\<close>, with the \<open>catch\<close> of the banner's handler.\<close>

definition resumeFromServer :: "string \<Rightarrow> js_file \<Rightarrow> page \<Rightarrow> page" where
  "resumeFromServer uploadId f p =
     await (AwaitBannerStatus uploadId f) (call (CallStatus uploadId) (clearError p))"

definition banner_status :: "string \<Rightarrow> js_file \<Rightarrow> nat \<Rightarrow> outcome \<Rightarrow> page \<Rightarrow> page option" where
  "banner_status uploadId f savedAt out p =
     (case apiStatus_result out of
        Inl e \<Rightarrow> Some (setState Error (showError (err_text e) p))
      | Inr st \<Rightarrow>
          if not_resumable st then
            Some (hideResumeBanner (showError
              ''Previous session is no longer available. Start a new upload.'' (forgetSession p)))
          else if Some (f_size f) \<noteq> b_totalSize (the st) then
            Some (showError
              ''Selected file size does not match the previous upload. Choose the same file.'' p)
          else
            case b_totalChunks (the st) of
              Some totalChunks \<Rightarrow>
                Some (runUpload \<lparr>cx_caller = FromBanner, cx_file = f, cx_uploadId = uploadId,
                                 cx_totalChunks = totalChunks, cx_checksum = or_null (b_checksum (the st))\<rparr>
                  (received_of (the st)) savedAt p)
            | None \<Rightarrow> None)"

definition pause_status :: "nat \<Rightarrow> outcome \<Rightarrow> page \<Rightarrow> page option" where
  "pause_status savedAt out p =
     (case apiStatus_result out of
        Inl e \<Rightarrow> Some (setState Error (showError (err_text e) p))
      | Inr None \<Rightarrow> Some (setState Idle (showError ''Session is no longer pending.'' p))
      | Inr (Some st) \<Rightarrow>
          if b_status st \<noteq> Some ''Pending'' then
            Some (setState Idle (showError ''Session is no longer pending.'' p))
          else
            case (pg_currentFile p, pg_currentUploadId p, b_totalChunks st) of
              (Some f, Some uploadId, Some totalChunks) \<Rightarrow>
                Some (runUpload \<lparr>cx_caller = FromPauseButton, cx_file = f, cx_uploadId = uploadId,
                                 cx_totalChunks = totalChunks, cx_checksum = pg_currentChecksum p\<rparr>
                  (received_of st) savedAt p)
            | _ \<Rightarrow> None)"

definition resume_text :: "session \<Rightarrow> reply \<Rightarrow> string" where
  "resume_text session st =
     (let n = (case b_receivedCount st of Some k \<Rightarrow> k | None \<Rightarrow> 0);
          total = (case b_totalChunks st of Some k \<Rightarrow> k | None \<Rightarrow> 0)
      in ''Unfinished upload: '' @ [CHR 0x22] @ js_or (session_fileName session) ''undefined'' @ [CHR 0x22]
         @ '' ('' @ js_String (nat (percent_of n total)) @ ''% '' @ em_dash @ '' '' @ js_String n @ ''/''
         @ js_String total @ '' chunks). Select the same file and click Resume.'')"

definition check_status :: "session \<Rightarrow> outcome \<Rightarrow> page \<Rightarrow> page" where
  "check_status session out p =
     (case apiStatus_result out of
        Inl e \<Rightarrow> forgetSession p
      | Inr st \<Rightarrow>
          if not_resumable st then forgetSession p
          else p\<lparr>pg_banner := Some (resume_text session (the st)), pg_resume := Some session\<rparr>)"

definition checkResume :: "page \<Rightarrow> page" where
  "checkResume p =
     (case loadSession (pg_storage p) of
        None \<Rightarrow> p
      | Some session \<Rightarrow>
          if truthy (session_uploadId session)
          then await (AwaitCheckResume session) (call (CallStatus (the (session_uploadId session))) p)
          else p)"

section \<open>Click handlers\<close>

definition click_start :: "bool \<Rightarrow> page \<Rightarrow> page" where
  "click_start HAS_SUBTLE p =
     (if pg_state p = Idle \<or> pg_state p = Done \<or> pg_state p = Error then startFresh HAS_SUBTLE p else p)"

definition click_pause :: "page \<Rightarrow> page" where
  "click_pause p =
     (if pg_state p = Uploading then setStatus ''Pausing...'' (p\<lparr>pg_pauseRequested := True\<rparr>)
      else if pg_state p = Paused \<and> pg_currentFile p \<noteq> None \<and> truthy (pg_currentUploadId p)
      then await AwaitPauseStatus (call (CallStatus (the (pg_currentUploadId p)))
             (p\<lparr>pg_pauseRequested := False, pg_cancelRequested := False\<rparr>))
      else p)"

definition cancel_finish :: "page \<Rightarrow> page" where
  "cancel_finish p =
     hideResumeBanner (setState Idle (setStatus ''Cancelled'' (clearSpeed (progress 0 (Some ''0%'')
       ((forgetSession p)\<lparr>pg_currentUploadId := None\<rparr>)))))"

definition click_cancel :: "page \<Rightarrow> page" where
  "click_cancel p =
     (let p1 = setStatus ''Cancelling...'' (p\<lparr>pg_cancelRequested := True, pg_pauseRequested := False\<rparr>)
      in if truthy (pg_currentUploadId p1)
         then await AwaitCancelAbort (call (CallAbort (the (pg_currentUploadId p1))) p1)
         else cancel_finish p1)"

definition click_resume :: "session \<Rightarrow> page \<Rightarrow> page" where
  "click_resume session p =
     (case pg_selected p of
        None \<Rightarrow> showError ''Select the same file that was being uploaded, then click Resume.'' p
      | Some f \<Rightarrow>
          if session_fileName session \<noteq> Some (f_name f) \<or> session_fileSize session \<noteq> Some (f_size f)
          then showError ''File name/size does not match the previous session.'' p
          else resumeFromServer (the (session_uploadId session)) f (hideResumeBanner p))"

definition click_discard :: "session \<Rightarrow> page \<Rightarrow> page" where
  "click_discard session p = await AwaitDiscard (call (CallAbort (the (session_uploadId session))) p)"

definition discard_finish :: "page \<Rightarrow> page" where
  "discard_finish p = setStatus ''Previous upload discarded'' (hideResumeBanner (forgetSession p))"

section \<open>Events\<close>

datatype result =
    Resolved
  | Hex string
  | Rejects string
  | Http nat outcome
  | LoopEnds rat nat "run_event list"
  | Polls nat "poll list"

text \<open>The continuation of a task on its result; \<open>None\<close> for a result the task cannot get. The result of a run is the time of its start,
  the number of workers earlier runs left pending, and its events up to the end of the main loop; cancel and pause are
  requested in the run when they are on the page.\<close>

fun continue :: "task \<Rightarrow> result \<Rightarrow> page \<Rightarrow> page option" where
  "continue (AwaitBuffer f) Resolved p = Some (buffer_read f p)"
| "continue (AwaitBuffer f) (Rejects e) p = Some (start_catch e p)"
| "continue (AwaitDigest f) (Hex h) p = Some (start_hashed f (Some h) (progress 100 (Some ''Hash done'') p))"
| "continue (AwaitDigest f) (Rejects e) p = Some (start_catch e p)"
| "continue (AwaitWorker f) (Hex h) p = Some (start_hashed f (Some h) p)"
| "continue (AwaitWorker f) (Rejects e) p = Some (start_catch e p)"
| "continue (AwaitInitiate f checksum) (Http now out) p = initiate_replied f checksum now out p"
| "continue (AwaitRun cx received sp) (LoopEnds now stale es) p =
     (case run_to_exit es (start_run (f_size (cx_file cx)) (cx_totalChunks cx) received sp now stale) of
        Some u \<Rightarrow>
          if u_cancelRequested u = pg_cancelRequested p \<and> u_pauseRequested u = pg_pauseRequested p
          then Some (run_loop_ended cx u p) else None
      | None \<Rightarrow> None)"
| "continue (AwaitComplete cx) (Http now out) p = Some (complete_replied cx out p)"
| "continue (AwaitMerge cx) (Polls start ps) p =
     (case waitForComplete complete_timeout start 0 ps of
        WaitMore \<Rightarrow> None
      | r \<Rightarrow> Some (merge_ended cx r p))"
| "continue AwaitErrorAbort (Http now out) p = Some (error_abort_done p)"
| "continue AwaitCancelAbort (Http now out) p = Some (cancel_finish p)"
| "continue AwaitPauseStatus (Http now out) p = pause_status now out p"
| "continue (AwaitBannerStatus uploadId f) (Http now out) p = banner_status uploadId f now out p"
| "continue (AwaitCheckResume session) (Http now out) p = Some (check_status session out p)"
| "continue AwaitDiscard (Http now out) p = Some (discard_finish p)"
| "continue _ _ p = None"

datatype page_event =
    SelectFile "js_file option"
  | ClickStart
  | ClickPauseBtn
  | ClickCancelBtn
  | ClickResume
  | ClickDiscard
  | HashProgress nat
  | Deliver nat result

definition drop_task :: "nat \<Rightarrow> page \<Rightarrow> page" where
  "drop_task k p = p\<lparr>pg_tasks := take k (pg_tasks p) @ drop (Suc k) (pg_tasks p)\<rparr>"

text \<open>Disabled widgets and the buttons of a hidden banner get no clicks.\<close>

fun page_step :: "bool \<Rightarrow> page_event \<Rightarrow> page \<Rightarrow> page option" where
  "page_step HAS_SUBTLE (SelectFile f) p =
     (if fileInput_disabled (pg_buttons p) then None else Some (p\<lparr>pg_selected := f\<rparr>))"
| "page_step HAS_SUBTLE ClickStart p =
     (if startBtn_disabled (pg_buttons p) then None else Some (click_start HAS_SUBTLE p))"
| "page_step HAS_SUBTLE ClickPauseBtn p =
     (if pauseBtn_disabled (pg_buttons p) then None else Some (click_pause p))"
| "page_step HAS_SUBTLE ClickCancelBtn p =
     (if cancelBtn_disabled (pg_buttons p) then None else Some (click_cancel p))"
| "page_step HAS_SUBTLE ClickResume p =
     (case (pg_banner p, pg_resume p) of (Some t, Some session) \<Rightarrow> Some (click_resume session p) | _ \<Rightarrow> None)"
| "page_step HAS_SUBTLE ClickDiscard p =
     (case (pg_banner p, pg_resume p) of (Some t, Some session) \<Rightarrow> Some (click_discard session p) | _ \<Rightarrow> None)"
| "page_step HAS_SUBTLE (HashProgress pct) p =
     (if list_ex (\<lambda>t. case t of AwaitWorker f \<Rightarrow> True | _ \<Rightarrow> False) (pg_tasks p)
      then Some (progress (int pct) (Some (''Hash '' @ js_String pct @ ''%'')) p) else None)"
| "page_step HAS_SUBTLE (Deliver k r) p =
     (if k < length (pg_tasks p) then continue (pg_tasks p ! k) r (drop_task k p) else None)"

text \<open>Loading the page.\<close>

definition uploaderInit :: "nat option \<Rightarrow> storage \<Rightarrow> page" where
  "uploaderInit hardwareConcurrency ls =
     setStatus ''Ready'' (setState Idle (checkResume
       \<lparr>pg_state = Idle, pg_pauseRequested = False, pg_cancelRequested = False, pg_currentUploadId = None,
        pg_currentChecksum = None, pg_currentFile = None, pg_uploadedCount = 0,
        pg_requireChunkCrc32 = False, pg_requireChunkSha256 = False,
        pg_speed = initial_speed hardwareConcurrency, pg_statusText = ''Ready'', pg_errorBox = None,
        pg_progress = setProgress 0 None,
        pg_buttons = \<lparr>startBtn_disabled = False, pauseBtn_disabled = True, pauseBtn_text = ''Pause'',
          cancelBtn_disabled = True, fileInput_disabled = False\<rparr>,
        pg_banner = None, pg_resume = None, pg_storage = ls, pg_selected = None, pg_calls = [], pg_tasks = []\<rparr>))"

end
