(* ===== verification/Upload_Correct.thy ===== *)
theory Upload_Correct
  imports Upload_Run "HOL-Library.Multiset"
begin

text \<open>
  The upload scheduler of \<open>Upload_Run\<close> is correct: the invariant of a run (every chunk is acknowledged,
  queued or in flight; no chunk twice; the worker counter is the number of workers), that each step keeps it,
  what each step does to the multiset of chunks still to send, a bound on the requests, and progress. The
  invariant holds of runs with no worker left over from an earlier run; the last property shows that it
  can fail otherwise.
\<close>

section \<open>Work and workers\<close>

primrec flight :: "(nat \<times> wstate) list \<Rightarrow> item list" where
  "flight [] = []"
| "flight (p # ws) = (case snd p of InFlight it \<Rightarrow> it # flight ws | _ \<Rightarrow> flight ws)"

definition work :: "run \<Rightarrow> item list" where
  "work u = u_queue u @ flight (u_workers u)"

lemma flight_append [simp]: "flight (xs @ ys) = flight xs @ flight ys"
  by (induction xs) (simp_all split: wstate.split)

lemma flight_length: "length (flight ws) \<le> length ws"
  by (induction ws) (simp_all split: wstate.split)

lemma worker_split:
  assumes "map_of ws w = Some st" "distinct (map fst ws)"
  obtains xs ys where "ws = xs @ (w, st) # ys" "w \<notin> fst ` set xs" "w \<notin> fst ` set ys"
proof -
  from assms(1) obtain xs ys where ws: "ws = xs @ (w, st) # ys"
    by (metis map_of_SomeD in_set_conv_decomp)
  with assms(2) have "w \<notin> fst ` set xs" "w \<notin> fst ` set ys" by auto
  with ws show thesis by (rule that)
qed

lemma map_other [simp]:
  "w \<notin> fst ` set xs \<Longrightarrow> map (\<lambda>(j, s). if j = w then (j, st) else (j, s)) xs = xs"
  by (induction xs) auto

lemma filter_other [simp]: "w \<notin> fst ` set xs \<Longrightarrow> filter (\<lambda>(j, s). j \<noteq> w) xs = xs"
  by (induction xs) auto

lemma set_worker_split:
  "u_workers u = xs @ (w, st) # ys \<Longrightarrow> w \<notin> fst ` set xs \<Longrightarrow> w \<notin> fst ` set ys \<Longrightarrow>
     set_worker w st' u = u\<lparr>u_workers := xs @ (w, st') # ys\<rparr>"
  by (simp add: set_worker_def)

section \<open>The invariant\<close>

definition item_ok :: "nat \<Rightarrow> nat \<Rightarrow> item \<Rightarrow> bool" where
  "item_ok fileSize totalChunks it \<longleftrightarrow>
     it_index it < totalChunks \<and> it_retries it \<le> 3 \<and>
     it_start it = it_start (chunk_item fileSize (it_index it)) \<and>
     it_end it = it_end (chunk_item fileSize (it_index it))"

definition items_inv :: "run \<Rightarrow> bool" where
  "items_inv u \<longleftrightarrow>
     distinct (map it_index (work u)) \<and>
     it_index ` set (work u) \<inter> u_received u = {} \<and>
     (\<forall>it\<in>set (work u). item_ok (u_fileSize u) (u_total u) it) \<and>
     (u_cancelRequested u \<or> u_fatalError u \<noteq> None \<or>
        {..<u_total u} \<subseteq> u_received u \<union> it_index ` set (work u))"

definition pool_inv :: "run \<Rightarrow> bool" where
  "pool_inv u \<longleftrightarrow>
     u_stale u = 0 \<and>
     u_activeWorkers u = int (length (u_workers u)) \<and>
     distinct (map fst (u_workers u)) \<and>
     (\<forall>j\<in>fst ` set (u_workers u). j < u_nextId u) \<and>
     length (u_workers u) \<le> MAX_WORKERS_CAP \<and>
     speed_inv (u_speed u)"

definition count_inv :: "run \<Rightarrow> bool" where
  "count_inv u \<longleftrightarrow> finite (u_received u) \<and> u_uploadedCount u = card (u_received u)"

definition exit_inv :: "run \<Rightarrow> bool" where
  "exit_inv u \<longleftrightarrow>
     (u_exit u \<noteq> None \<longrightarrow> u_workers u = [] \<or> u_fatalError u \<noteq> None) \<and>
     (\<forall>e. u_exit u = Some (ExitThrows e) \<longrightarrow> u_fatalError u \<noteq> None) \<and>
     (u_exit u = Some ExitComplete \<longrightarrow>
        u_workers u = [] \<and> u_queue u = [] \<and> {..<u_total u} \<subseteq> u_received u \<and> u_fatalError u = None) \<and>
     (u_exit u = Some ExitPaused \<longrightarrow>
        u_workers u = [] \<and> {..<u_total u} \<subseteq> u_received u \<union> it_index ` set (u_queue u))"

definition run_inv :: "run \<Rightarrow> bool" where
  "run_inv u \<longleftrightarrow> items_inv u \<and> pool_inv u \<and> count_inv u \<and> exit_inv u"

lemmas run_inv_defs = run_inv_def items_inv_def pool_inv_def count_inv_def exit_inv_def work_def

lemma worker_next_cases:
  obtains (ret) "worker_next u = (Returned, u)"
  | (take) it q where "u_queue u = it # q" "\<not> halted u" "u_activeWorkers u \<le> adaptive u"
      "worker_next u = (InFlight it, u\<lparr>u_queue := q\<rparr>)"
proof (cases "halted u \<or> adaptive u < u_activeWorkers u \<or> u_queue u = []")
  case True
  then show thesis by (intro ret) (auto simp: worker_next_def)
next
  case False
  then obtain it q where "u_queue u = it # q" by (cases "u_queue u") auto
  with False show thesis by (intro take) (auto simp: worker_next_def)
qed

lemma pump_start:
  assumes "u_activeWorkers u < adaptive u" "u_queue u = it # q" "\<not> halted u"
  shows "pump u = pump (u\<lparr>u_queue := q, u_activeWorkers := u_activeWorkers u + 1,
           u_workers := u_workers u @ [(u_nextId u, InFlight it)], u_nextId := u_nextId u + 1\<rparr>)"
proof -
  have "worker_next (u\<lparr>u_activeWorkers := u_activeWorkers u + 1\<rparr>) =
      (InFlight it, u\<lparr>u_queue := q, u_activeWorkers := u_activeWorkers u + 1\<rparr>)"
    using assms by (auto simp: worker_next_def halted_def)
  then show ?thesis using assms by (simp add: pump.simps [of u] Let_def)
qed

lemma pump_stop:
  "\<not> (u_activeWorkers u < adaptive u \<and> u_queue u \<noteq> [] \<and> \<not> halted u) \<Longrightarrow> pump u = u"
  by (simp only: pump.simps [of u] if_False)

text \<open>Induction over the workers that one call of \<open>pump\<close> starts.\<close>

lemma pump_induct [case_names stop start]:
  assumes stop: "\<And>u. \<not> (u_activeWorkers u < adaptive u \<and> u_queue u \<noteq> [] \<and> \<not> halted u) \<Longrightarrow> P u u"
    and start: "\<And>u it q v. u_activeWorkers u < adaptive u \<Longrightarrow> u_queue u = it # q \<Longrightarrow> \<not> halted u \<Longrightarrow>
      P (u\<lparr>u_queue := q, u_activeWorkers := u_activeWorkers u + 1,
           u_workers := u_workers u @ [(u_nextId u, InFlight it)], u_nextId := u_nextId u + 1\<rparr>) v \<Longrightarrow> P u v"
  shows "P u (pump u)"
proof (induction "length (u_queue u)" arbitrary: u)
  case 0
  then show ?case using stop [of u] by (simp add: pump_stop)
next
  case (Suc n)
  then obtain it q where q: "u_queue u = it # q" by (cases "u_queue u") auto
  show ?case
  proof (cases "u_activeWorkers u < adaptive u \<and> \<not> halted u")
    case True
    with q Suc show ?thesis by (subst pump_start) (auto intro: start)
  next
    case False
    then show ?thesis using stop [of u] by (auto simp: pump_stop)
  qed
qed

lemma pump_frame [simp]:
  "u_fileSize (pump u) = u_fileSize u \<and> u_total (pump u) = u_total u \<and> u_received (pump u) = u_received u
   \<and> u_uploadedCount (pump u) = u_uploadedCount u \<and> u_stale (pump u) = u_stale u
   \<and> u_speed (pump u) = u_speed u \<and> u_fatalError (pump u) = u_fatalError u
   \<and> u_cancelRequested (pump u) = u_cancelRequested u \<and> u_pauseRequested (pump u) = u_pauseRequested u
   \<and> u_exit (pump u) = u_exit u"
  by (induction rule: pump_induct) auto

lemma pump_mset: "mset (work (pump u)) = mset (work u)"
  by (induction rule: pump_induct) (simp_all add: work_def)

lemma pump_pool: "pool_inv u \<Longrightarrow> pool_inv (pump u)"
proof (induction rule: pump_induct)
  case (start u it q v)
  from start.prems start.hyps(1) show ?case
    by (intro start.IH) (auto simp: pool_inv_def speed_inv_def less_Suc_eq)
qed simp

text \<open>The item part of the invariant depends on the work only up to order.\<close>

lemma items_inv_mset:
  assumes "mset (work v) = mset (work u)" "u_received v = u_received u"
    "u_fileSize v = u_fileSize u" "u_total v = u_total u"
    "u_cancelRequested v = u_cancelRequested u" "u_fatalError v = u_fatalError u"
  shows "items_inv v \<longleftrightarrow> items_inv u"
proof -
  have "mset (map it_index (work v)) = mset (map it_index (work u))" using assms(1) by simp
  then have d: "distinct (map it_index (work v)) = distinct (map it_index (work u))"
    by (rule mset_eq_imp_distinct_iff)
  have s: "set (work v) = set (work u)" using assms(1) by (rule mset_eq_setD)
  from assms d s show ?thesis by (simp only: items_inv_def)
qed

lemma pump_items: "items_inv (pump u) \<longleftrightarrow> items_inv u"
  by (rule items_inv_mset) (simp_all add: pump_mset)

lemma pump_run_inv:
  assumes "run_inv u" "u_exit u = None \<or> halted u"
  shows "run_inv (pump u)"
proof (cases "halted u")
  case True
  with assms show ?thesis by (simp add: pump_stop)
next
  case False
  with assms show ?thesis
    by (simp add: run_inv_def pump_items pump_pool count_inv_def exit_inv_def)
qed

section \<open>Every step keeps the invariant\<close>

lemma set_worker_next:
  "worker_continue w (set_worker w st u) = worker_continue w u"
proof -
  have "worker_next (set_worker w st u) = (fst (worker_next u), set_worker w st (snd (worker_next u)))"
    by (simp add: worker_next_def set_worker_def halted_def split: list.split)
  moreover have "set_worker w a (set_worker w b v) = set_worker w a v" for a b v
    by (auto simp: set_worker_def case_prod_beta intro!: arg_cong [where f = "\<lambda>ws. v\<lparr>u_workers := ws\<rparr>"])
  ultimately show ?thesis by (simp add: worker_continue_def Let_def)
qed

text \<open>Replacing the state of a worker by one that is not in flight only removes its item from the work.\<close>

lemma retire_worker:
  assumes inv: "run_inv u" and w: "map_of (u_workers u) w = Some st"
  obtains xs ys where
    "u_workers u = xs @ (w, st) # ys" "w \<notin> fst ` set xs" "w \<notin> fst ` set ys"
    "\<forall>v st'. u_workers v = u_workers u \<longrightarrow> set_worker w st' v = v\<lparr>u_workers := xs @ (w, st') # ys\<rparr>"
    "u_exit u = None \<or> u_fatalError u \<noteq> None"
proof -
  have d: "distinct (map fst (u_workers u))" using inv by (simp add: run_inv_defs)
  obtain xs ys where ws: "u_workers u = xs @ (w, st) # ys" "w \<notin> fst ` set xs" "w \<notin> fst ` set ys"
    using w d by (rule worker_split)
  moreover have "u_exit u = None \<or> u_fatalError u \<noteq> None" using inv ws by (auto simp: run_inv_defs)
  ultimately show thesis by (intro that [of xs ys]) (auto simp: set_worker_split)
qed

lemma worker_continue_inv:
  assumes inv: "run_inv u" and w: "map_of (u_workers u) w = Some Sleeping"
  shows "run_inv (worker_continue w u)"
proof -
  obtain xs ys where ws: "u_workers u = xs @ (w, Sleeping) # ys"
      "w \<notin> fst ` set xs" "w \<notin> fst ` set ys"
      "\<forall>v st'. u_workers v = u_workers u \<longrightarrow> set_worker w st' v = v\<lparr>u_workers := xs @ (w, st') # ys\<rparr>"
      "u_exit u = None \<or> u_fatalError u \<noteq> None"
    by (rule retire_worker [OF inv w])
  show ?thesis
  proof (cases rule: worker_next_cases [of u])
    case ret
    have "run_inv (u\<lparr>u_workers := xs @ (w, Returned) # ys\<rparr>)"
      using inv ws(1) by (auto simp: run_inv_defs)
    with ret ws(4) [rule_format, of u] show ?thesis by (simp add: worker_continue_def Let_def)
  next
    case (take it q)
    define v where "v = u\<lparr>u_queue := q, u_workers := xs @ (w, InFlight it) # ys\<rparr>"
    have "mset (work v) = mset (work u)" using take(1) ws(1) by (simp add: v_def work_def)
    then have "items_inv v \<longleftrightarrow> items_inv u" by (rule items_inv_mset) (simp_all add: v_def)
    moreover have "u_exit u = None" using take(2) ws(5) by (auto simp: halted_def)
    ultimately have "run_inv v"
      using inv ws(1) by (auto simp: v_def run_inv_def pool_inv_def count_inv_def exit_inv_def)
    moreover have "worker_continue w u = v"
      using take(4) ws(4) [rule_format, of "u\<lparr>u_queue := q\<rparr>"] by (simp add: worker_continue_def v_def Let_def)
    ultimately show ?thesis by simp
  qed
qed

lemma chunk_uploaded_inv:
  assumes inv: "run_inv u" and w: "map_of (u_workers u) w = Some (InFlight it)"
  shows "run_inv (chunk_uploaded w it now u)"
proof -
  obtain xs ys where ws: "u_workers u = xs @ (w, InFlight it) # ys"
      "w \<notin> fst ` set xs" "w \<notin> fst ` set ys"
      "\<forall>v st'. u_workers v = u_workers u \<longrightarrow> set_worker w st' v = v\<lparr>u_workers := xs @ (w, st') # ys\<rparr>"
      "u_exit u = None \<or> u_fatalError u \<noteq> None"
    by (rule retire_worker [OF inv w])
  define v where "v = u\<lparr>u_received := insert (it_index it) (u_received u),
       u_uploadedCount := u_uploadedCount u + 1,
       u_speed := noteBytes now (it_end it - it_start it) (u_speed u)\<rparr>"
  define v' where "v' = set_worker w Sleeping v"
  have v': "v' = v\<lparr>u_workers := xs @ (w, Sleeping) # ys\<rparr>" using ws(4) [rule_format, of v] by (simp add: v'_def v_def)
  have "items_inv v'" using inv ws(1) unfolding v' v_def by (auto simp: run_inv_def items_inv_def work_def)
  moreover have "pool_inv v'" using inv ws(1) unfolding v' v_def
    by (auto simp: run_inv_def pool_inv_def intro: noteBytes_inv)
  moreover have "it_index it \<notin> u_received u" using inv ws(1) by (auto simp: run_inv_defs)
  then have "count_inv v'" using inv unfolding v' v_def by (simp add: run_inv_def count_inv_def)
  moreover have "exit_inv v'" using inv ws(1,5) unfolding v' v_def by (auto simp: run_inv_def exit_inv_def)
  ultimately have "run_inv v'" by (simp add: run_inv_def)
  moreover have "map_of (u_workers v') w = Some Sleeping" using ws(2) by (simp add: v' map_add_dom_app_simps dom_map_of_conv_image_fst)
  ultimately have "run_inv (worker_continue w v')" by (rule worker_continue_inv)
  then show ?thesis by (simp add: v'_def set_worker_next chunk_uploaded_def v_def)
qed

lemma chunk_failed_inv:
  assumes inv: "run_inv u" and w: "map_of (u_workers u) w = Some (InFlight it)"
  shows "run_inv (chunk_failed w it e u)"
proof -
  obtain xs ys where ws: "u_workers u = xs @ (w, InFlight it) # ys"
      "w \<notin> fst ` set xs" "w \<notin> fst ` set ys"
      "\<forall>v st'. u_workers v = u_workers u \<longrightarrow> set_worker w st' v = v\<lparr>u_workers := xs @ (w, st') # ys\<rparr>"
      "u_exit u = None \<or> u_fatalError u \<noteq> None"
    by (rule retire_worker [OF inv w])
  have ok: "item_ok (u_fileSize u) (u_total u) it" using inv ws(1) by (auto simp: run_inv_defs)
  have gone: "run_inv (v\<lparr>u_workers := xs @ (w, st) # ys\<rparr>)"
    if "v = u \<and> u_cancelRequested u \<or> v = u\<lparr>u_fatalError := Some e\<rparr>" "st = Returned \<or> st = Sleeping" for v st
    using that inv ws(1,5) by (elim disjE conjE) (auto simp: run_inv_defs)
  consider "it_retries it < 3" "\<not> u_cancelRequested u" | "\<not> it_retries it < 3" "\<not> u_cancelRequested u"
    | "u_cancelRequested u" by blast
  then show ?thesis
  proof cases
    case 1
    let ?v = "u\<lparr>u_queue := u_queue u @ [it\<lparr>it_retries := it_retries it + 1\<rparr>],
                u_workers := xs @ (w, Sleeping) # ys\<rparr>"
    have "items_inv ?v" using inv ws(1) ok 1(1)
      by (auto simp: run_inv_def items_inv_def work_def item_ok_def)
    moreover have "pool_inv ?v \<and> count_inv ?v \<and> exit_inv ?v" using inv ws(1,5)
      by (auto simp: run_inv_def pool_inv_def count_inv_def exit_inv_def)
    ultimately have "run_inv ?v" by (simp add: run_inv_def)
    moreover have "chunk_failed w it e u = ?v"
      using 1 ws(4) by (simp add: chunk_failed_def)
    ultimately show ?thesis by simp
  next
    case 2
    have "chunk_failed w it e u = u\<lparr>u_fatalError := Some e, u_workers := xs @ (w, Returned) # ys\<rparr>"
      using 2 ws(4) by (simp add: chunk_failed_def)
    then show ?thesis using gone [of "u\<lparr>u_fatalError := Some e\<rparr>" Returned] by simp
  next
    case 3
    let ?v = "set_worker w Sleeping u"
    have v: "?v = u\<lparr>u_workers := xs @ (w, Sleeping) # ys\<rparr>" using ws(4) by simp
    have "map_of (u_workers ?v) w = Some Sleeping"
      using ws(2) by (simp add: v map_add_dom_app_simps dom_map_of_conv_image_fst)
    moreover have "run_inv ?v" using gone [of u Sleeping] 3 by (simp add: v)
    ultimately have "run_inv (worker_continue w ?v)" by (intro worker_continue_inv)
    then show ?thesis using 3 by (simp add: chunk_failed_def set_worker_next)
  qed
qed

lemma worker_settled_inv:
  assumes inv: "run_inv u" and w: "map_of (u_workers u) w = Some Returned"
  shows "run_inv (worker_settled w u)"
proof -
  obtain xs ys where ws: "u_workers u = xs @ (w, Returned) # ys"
      "w \<notin> fst ` set xs" "w \<notin> fst ` set ys"
      "\<forall>v st'. u_workers v = u_workers u \<longrightarrow> set_worker w st' v = v\<lparr>u_workers := xs @ (w, st') # ys\<rparr>"
      "u_exit u = None \<or> u_fatalError u \<noteq> None"
    by (rule retire_worker [OF inv w])
  let ?v = "u\<lparr>u_workers := xs @ ys, u_activeWorkers := u_activeWorkers u - 1\<rparr>"
  have "filter (\<lambda>(j, s). j \<noteq> w) (u_workers u) = xs @ ys" using ws(1-3) by simp
  then have eq: "worker_settled w u = (if halted ?v then ?v else pump ?v)"
    by (simp only: worker_settled_def Let_def)
  have "run_inv ?v" using inv ws(1) by (auto simp: run_inv_defs)
  moreover have "u_exit ?v = None \<or> halted ?v" using ws(5) by (auto simp: halted_def)
  ultimately show ?thesis unfolding eq using pump_run_inv [of ?v] by simp
qed

lemma main_tick_inv:
  assumes inv: "run_inv u" and "u_exit u = None"
  shows "run_inv (main_tick u)"
proof (cases "0 < u_activeWorkers u \<or> (u_queue u \<noteq> [] \<and> \<not> halted u)")
  case True
  show ?thesis
  proof (cases "u_fatalError u")
    case None
    with True assms show ?thesis by (simp add: main_tick_def pump_run_inv)
  next
    case (Some e)
    have "run_inv (u\<lparr>u_exit := Some (ExitThrows e)\<rparr>)" using inv Some by (simp add: run_inv_defs)
    with True Some show ?thesis by (simp add: main_tick_def leave_loop_def)
  qed
next
  case False
  then have "u_workers u = []" using inv by (auto simp: run_inv_defs)
  with False assms show ?thesis
    by (auto simp: main_tick_def run_inv_defs leave_loop_def halted_def split: option.splits)
qed

lemma run_step_inv: "run_inv u \<Longrightarrow> run_step e u = Some v \<Longrightarrow> run_inv v"
  by (cases e)
    (auto split: option.splits wstate.splits if_splits
      intro: chunk_uploaded_inv chunk_failed_inv worker_continue_inv worker_settled_inv main_tick_inv,
     auto simp: run_inv_defs)

interpretation run: invariant_system run_step run_inv
  by unfold_locales (rule run_step_inv)

section \<open>What each step does to the work\<close>

lemma worker_next_work:
  "flight [(w, fst (worker_next u))] @ u_queue (snd (worker_next u)) = u_queue u"
  "u_workers (snd (worker_next u)) = u_workers u"
  "u_received (snd (worker_next u)) = u_received u" "u_fatalError (snd (worker_next u)) = u_fatalError u"
  by (cases rule: worker_next_cases [of u]; simp)+

lemma worker_continue_work:
  assumes "distinct (map fst (u_workers u))" "map_of (u_workers u) w = Some st"
  shows "mset (work u) = mset (flight [(w, st)]) + mset (work (worker_continue w u))"
    "u_received (worker_continue w u) = u_received u"
    "u_fatalError (worker_continue w u) = u_fatalError u"
proof -
  obtain xs ys where ws: "u_workers u = xs @ (w, st) # ys" "w \<notin> fst ` set xs" "w \<notin> fst ` set ys"
    using assms(2,1) by (rule worker_split)
  let ?r = "worker_next u"
  have "worker_continue w u = (snd ?r)\<lparr>u_workers := xs @ (w, fst ?r) # ys\<rparr>"
    using set_worker_split [of "snd ?r" xs w st ys] ws by (simp add: worker_continue_def Let_def worker_next_work)
  moreover have "mset (u_queue u) = mset (flight [(w, fst ?r)]) + mset (u_queue (snd ?r))"
    by (simp only: worker_next_work flip: mset_append)
  moreover have "flight ((w, st) # ys) = flight [(w, st)] @ flight ys" for st
    by (simp split: wstate.split)
  ultimately show "mset (work u) = mset (flight [(w, st)]) + mset (work (worker_continue w u))"
    "u_received (worker_continue w u) = u_received u"
    "u_fatalError (worker_continue w u) = u_fatalError u"
    using ws(1) by (simp_all add: work_def worker_next_work del: flight.simps)
qed

lemma set_worker_work:
  assumes "distinct (map fst (u_workers u))" "map_of (u_workers u) w = Some st"
  shows "mset (flight [(w, st')]) + mset (work u) = mset (flight [(w, st)]) + mset (work (set_worker w st' u))"
proof -
  obtain xs ys where ws: "u_workers u = xs @ (w, st) # ys" "w \<notin> fst ` set xs" "w \<notin> fst ` set ys"
    using assms(2,1) by (rule worker_split)
  then show ?thesis by (simp add: set_worker_split work_def split: wstate.split)
qed

lemma set_worker_frame [simp]:
  "u_received (set_worker w st u) = u_received u" "u_fatalError (set_worker w st u) = u_fatalError u"
  "u_cancelRequested (set_worker w st u) = u_cancelRequested u" "u_queue (set_worker w st u) = u_queue u"
  by (simp_all add: set_worker_def)

lemma work_update [simp]:
  "work (u\<lparr>u_received := r\<rparr>) = work u" "work (u\<lparr>u_uploadedCount := c\<rparr>) = work u"
  "work (u\<lparr>u_speed := s\<rparr>) = work u" "work (u\<lparr>u_fatalError := f\<rparr>) = work u"
  "work (u\<lparr>u_exit := x\<rparr>) = work u" "work (u\<lparr>u_activeWorkers := a\<rparr>) = work u"
  "work (u\<lparr>u_cancelRequested := b\<rparr>) = work u" "work (u\<lparr>u_pauseRequested := b\<rparr>) = work u"
  by (simp_all add: work_def)

lemma chunk_uploaded_work:
  assumes "run_inv u" "map_of (u_workers u) w = Some (InFlight it)"
  shows "mset (work u) = add_mset it (mset (work (chunk_uploaded w it now u)))"
    "u_received (chunk_uploaded w it now u) = insert (it_index it) (u_received u)"
    "u_fatalError (chunk_uploaded w it now u) = u_fatalError u"
proof -
  let ?v = "u\<lparr>u_received := insert (it_index it) (u_received u),
       u_uploadedCount := u_uploadedCount u + 1,
       u_speed := noteBytes now (it_end it - it_start it) (u_speed u)\<rparr>"
  have "distinct (map fst (u_workers ?v))" "map_of (u_workers ?v) w = Some (InFlight it)"
    using assms by (simp_all add: run_inv_def pool_inv_def)
  note c = worker_continue_work [OF this]
  show "mset (work u) = add_mset it (mset (work (chunk_uploaded w it now u)))"
    using c(1) by (simp add: chunk_uploaded_def)
  show "u_received (chunk_uploaded w it now u) = insert (it_index it) (u_received u)"
    "u_fatalError (chunk_uploaded w it now u) = u_fatalError u"
    using c(2,3) by (simp_all add: chunk_uploaded_def)
qed

lemma chunk_failed_work:
  assumes inv: "run_inv u" and w: "map_of (u_workers u) w = Some (InFlight it)"
  obtains (retry) "it_retries it < 3" "u_fatalError (chunk_failed w it e u) = u_fatalError u"
      "\<exists>M. mset (work u) = add_mset it M \<and>
           mset (work (chunk_failed w it e u)) = add_mset (it\<lparr>it_retries := it_retries it + 1\<rparr>) M"
    | (fatal) "3 \<le> it_retries it" "mset (work u) = add_mset it (mset (work (chunk_failed w it e u)))"
    | (cancelled) "u_cancelRequested u" "u_fatalError (chunk_failed w it e u) = u_fatalError u"
      "mset (work u) = add_mset it (mset (work (chunk_failed w it e u)))"
proof -
  have d: "distinct (map fst (u_workers u))" using inv by (simp add: run_inv_def pool_inv_def)
  consider "it_retries it < 3" "\<not> u_cancelRequested u" | "3 \<le> it_retries it" "\<not> u_cancelRequested u"
    | "u_cancelRequested u" by linarith
  then show thesis
  proof cases
    case 1
    let ?v = "u\<lparr>u_queue := u_queue u @ [it\<lparr>it_retries := it_retries it + 1\<rparr>]\<rparr>"
    have "mset (work ?v) = add_mset (it\<lparr>it_retries := it_retries it + 1\<rparr>) (mset (work u))"
      by (simp add: work_def)
    moreover have "mset (work ?v) = add_mset it (mset (work (set_worker w Sleeping ?v)))"
      using set_worker_work [of ?v w "InFlight it" Sleeping] d w by simp
    moreover have "it\<lparr>it_retries := it_retries it + 1\<rparr> \<noteq> it"
    proof
      assume "it\<lparr>it_retries := it_retries it + 1\<rparr> = it"
      from arg_cong [OF this, of it_retries] show False by simp
    qed
    moreover have "chunk_failed w it e u = set_worker w Sleeping ?v" using 1 by (simp add: chunk_failed_def)
    ultimately show thesis using 1 by (intro retry) (auto simp: add_eq_conv_ex)
  next
    case 2
    let ?v = "u\<lparr>u_fatalError := Some e\<rparr>"
    have "mset (work ?v) = add_mset it (mset (work (set_worker w Returned ?v)))"
      using set_worker_work [of ?v w "InFlight it" Returned] d w by simp
    moreover have "chunk_failed w it e u = set_worker w Returned ?v" using 2 by (simp add: chunk_failed_def)
    ultimately show thesis using 2 by (intro fatal) auto
  next
    case 3
    then have "chunk_failed w it e u = worker_continue w u" by (simp add: chunk_failed_def)
    with worker_continue_work [OF d w] 3 show thesis by (intro cancelled) auto
  qed
qed

lemma chunk_failed_received [simp]: 
  "u_received (chunk_failed w it e u) = u_received u"
  by (simp add: chunk_failed_def worker_continue_def Let_def worker_next_work)

lemma main_tick_work [simp]:
  "mset (work (main_tick u)) = mset (work u)" "u_received (main_tick u) = u_received u"
  "u_fatalError (main_tick u) = u_fatalError u"
  by (simp_all add: main_tick_def pump_mset)

lemma worker_settled_work:
  assumes "distinct (map fst (u_workers u))" "map_of (u_workers u) w = Some Returned"
  shows "mset (work (worker_settled w u)) = mset (work u)" "u_received (worker_settled w u) = u_received u"
    "u_fatalError (worker_settled w u) = u_fatalError u"
proof -
  obtain xs ys where "u_workers u = xs @ (w, Returned) # ys" "w \<notin> fst ` set xs" "w \<notin> fst ` set ys"
    using assms(2,1) by (rule worker_split)
  then have "work (u\<lparr>u_workers := filter (\<lambda>(j, s). j \<noteq> w) (u_workers u)\<rparr>) = work u"
    by (simp add: work_def)
  then show "mset (work (worker_settled w u)) = mset (work u)" "u_received (worker_settled w u) = u_received u"
    "u_fatalError (worker_settled w u) = u_fatalError u"
    by (simp_all add: worker_settled_def Let_def pump_mset)
qed

text \<open>All other steps leave the work and the acknowledged chunks alone.\<close>

lemma other_step_work:
  assumes inv: "run_inv u" and step: "run_step e u = Some v" and "\<forall>w t. e \<noteq> ChunkOk w t" "\<forall>w m. e \<noteq> ChunkFail w m"
  shows "mset (work v) = mset (work u)" "u_received v = u_received u" "u_fatalError v = u_fatalError u"
proof -
  have d: "distinct (map fst (u_workers u))" "u_stale u = 0" using inv by (simp_all add: run_inv_def pool_inv_def)
  have "mset (work v) = mset (work u) \<and> u_received v = u_received u \<and> u_fatalError v = u_fatalError u"
  proof (cases e)
    case (WakeUp w)
    then have w: "map_of (u_workers u) w = Some Sleeping" "v = worker_continue w u"
      using step by (auto split: option.splits wstate.splits)
    from worker_continue_work [OF d(1) w(1)] w(2) show ?thesis by simp
  next
    case (Settled w)
    then have w: "map_of (u_workers u) w = Some Returned" "v = worker_settled w u"
      using step by (auto split: option.splits wstate.splits)
    from worker_settled_work [OF d(1) w(1)] w(2) show ?thesis by simp
  qed (use assms d(2) in \<open>auto split: if_splits\<close>)
  then show "mset (work v) = mset (work u)" "u_received v = u_received u" "u_fatalError v = u_fatalError u"
    by simp_all
qed

section \<open>The start of a run\<close>

lemma build_queue_items:
  "map it_index (build_queue fileSize totalChunks received) = filter (\<lambda>i. i \<notin> received) [0..<totalChunks]"
  "it \<in> set (build_queue fileSize totalChunks received) \<Longrightarrow> item_ok fileSize totalChunks it \<and> it_retries it = 0"
  by (auto simp: build_queue_def chunk_item_def item_ok_def Let_def o_def)

abbreviation before_pump :: "nat \<Rightarrow> nat \<Rightarrow> nat list \<Rightarrow> speed \<Rightarrow> rat \<Rightarrow> run" where
  "before_pump fileSize totalChunks alreadyReceived sp now \<equiv>
     \<lparr>u_fileSize = fileSize, u_total = totalChunks,
      u_queue = build_queue fileSize totalChunks (set alreadyReceived), u_received = set alreadyReceived,
      u_uploadedCount = card (set alreadyReceived), u_workers = [], u_nextId = 0, u_activeWorkers = 0,
      u_stale = 0, u_speed = sp\<lparr>sp_windowStart := now, sp_windowBytes := 0\<rparr>, u_fatalError = None,
      u_cancelRequested = False, u_pauseRequested = False, u_exit = None\<rparr>"

lemma start_run_inv:
  assumes "speed_inv sp"
  shows "run_inv (start_run fileSize totalChunks alreadyReceived sp now 0)"
proof -
  let ?u = "before_pump fileSize totalChunks alreadyReceived sp now"
  let ?q = "build_queue fileSize totalChunks (set alreadyReceived)"
  have idx: "it_index ` set ?q = {..<totalChunks} - set alreadyReceived"
    using arg_cong [OF build_queue_items(1), of set] by (auto simp flip: set_map)
  have "items_inv ?u"
    using build_queue_items(2) [of _ fileSize totalChunks "set alreadyReceived"]
    by (auto simp: items_inv_def work_def build_queue_items(1) idx)
  moreover have "pool_inv ?u" using assms by (simp add: pool_inv_def speed_inv_def)
  ultimately have "run_inv ?u" by (simp add: run_inv_def count_inv_def exit_inv_def)
  then have "run_inv (pump ?u)" by (intro pump_run_inv) simp_all
  then show ?thesis by (simp add: start_run_def main_tick_inv Let_def)
qed

lemma start_run_frame:
  "u_fileSize (start_run fileSize totalChunks alreadyReceived sp now stale) = fileSize"
  "u_total (start_run fileSize totalChunks alreadyReceived sp now stale) = totalChunks"
  "u_received (start_run fileSize totalChunks alreadyReceived sp now stale) = set alreadyReceived"
  "u_fatalError (start_run fileSize totalChunks alreadyReceived sp now stale) = None"
  "mset (work (start_run fileSize totalChunks alreadyReceived sp now stale)) =
     mset (build_queue fileSize totalChunks (set alreadyReceived))"
  by (simp_all add: start_run_def main_tick_def pump_mset Let_def) (simp_all add: work_def)

text \<open>No step adds a chunk to the work of a run, whatever workers are left over.\<close>

lemma flight_set_worker: "set (flight (map (\<lambda>(j, s). if j = w then (j, st) else (j, s)) ws)) \<subseteq>
    set (flight ws) \<union> (case st of InFlight it \<Rightarrow> {it} | _ \<Rightarrow> {})"
  by (induction ws) (auto split: wstate.splits if_splits)

lemma flight_filter: "set (flight (filter P ws)) \<subseteq> set (flight ws)"
  by (induction ws) (auto split: wstate.splits)

lemma in_flight_work: "map_of (u_workers u) w = Some (InFlight it) \<Longrightarrow> it \<in> set (work u)"
proof -
  have "(w, InFlight it) \<in> set ws \<Longrightarrow> it \<in> set (flight ws)" for ws
    by (induction ws) (auto split: wstate.splits)
  then show "map_of (u_workers u) w = Some (InFlight it) \<Longrightarrow> it \<in> set (work u)"
    by (auto simp: work_def dest: map_of_SomeD)
qed

lemma set_work_pump: "set (work (pump u)) = set (work u)"
  by (rule mset_eq_setD) (rule pump_mset)

lemma set_itemser_items: "set (work (set_worker w st u)) \<subseteq> set (work u) \<union> (case st of InFlight it \<Rightarrow> {it} | _ \<Rightarrow> {})"
  using flight_set_worker [of w st "u_workers u"] by (auto simp: work_def set_worker_def)

lemma worker_continue_items: "set (work (worker_continue w u)) \<subseteq> set (work u)"
proof (cases rule: worker_next_cases [of u])
  case ret
  then show ?thesis using set_itemser_items [of w Returned u] by (simp add: worker_continue_def)
next
  case (take it q)
  then show ?thesis using set_itemser_items [of w "InFlight it" "u\<lparr>u_queue := q\<rparr>"]
    by (auto simp: worker_continue_def work_def)
qed

lemma worker_settled_items: "set (work (worker_settled w u)) \<subseteq> set (work u)"
  using flight_filter [of "\<lambda>(j, s). j \<noteq> w" "u_workers u"]
  by (auto simp: worker_settled_def Let_def set_work_pump) (auto simp: work_def)

lemma run_step_indices:
  assumes "run_step e u = Some v"
  shows "it_index ` set (work v) \<subseteq> it_index ` set (work u)"
proof (cases e)
  case (ChunkOk w now)
  then obtain it where "v = chunk_uploaded w it now u" using assms by (auto split: option.splits wstate.splits)
  then show ?thesis using worker_continue_items [of w "u\<lparr>u_received := insert (it_index it) (u_received u),
       u_uploadedCount := u_uploadedCount u + 1, u_speed := noteBytes now (it_end it - it_start it) (u_speed u)\<rparr>"]
    by (auto simp: chunk_uploaded_def work_def)
next
  case (ChunkFail w msg)
  then obtain it where it: "map_of (u_workers u) w = Some (InFlight it)" "v = chunk_failed w it msg u"
    using assms by (auto split: option.splits wstate.splits)
  have "it_index it \<in> it_index ` set (work u)" using in_flight_work [OF it(1)] by blast
  then show ?thesis using it(2) worker_continue_items [of w u]
      set_itemser_items [of w Sleeping "u\<lparr>u_queue := u_queue u @ [it\<lparr>it_retries := it_retries it + 1\<rparr>]\<rparr>"]
      set_itemser_items [of w Returned "u\<lparr>u_fatalError := Some msg\<rparr>"]
    by (auto simp: chunk_failed_def work_def Let_def split: if_splits)
next
  case (WakeUp w)
  then show ?thesis using assms worker_continue_items [of w u] by (auto split: option.splits wstate.splits)
next
  case (Settled w)
  then show ?thesis using assms worker_settled_items [of w u] by (auto split: option.splits wstate.splits)
next
  case Tick
  have "set (work (main_tick u)) = set (work u)"
    using set_work_pump [of u] by (simp add: main_tick_def work_def)
  then show ?thesis using assms Tick by (simp split: if_splits)
qed (use assms in \<open>auto simp: work_def split: if_splits\<close>)

lemma exec_indices:
  "exec_events run_step es u = Some v \<Longrightarrow> it_index ` set (work v) \<subseteq> it_index ` set (work u)"
  by (induction es arbitrary: u) (use run_step_indices in \<open>fastforce split: option.splits\<close>)+

lemma start_indices:
  "it_index ` set (work (start_run fileSize totalChunks alreadyReceived sp now stale)) = {..<totalChunks} - set alreadyReceived"
proof -
  let ?q = "build_queue fileSize totalChunks (set alreadyReceived)"
  have "set (work (start_run fileSize totalChunks alreadyReceived sp now stale)) = set ?q"
    using start_run_frame(5) [of fileSize totalChunks alreadyReceived sp now stale] by (rule mset_eq_setD)
  moreover have "it_index ` set ?q = {..<totalChunks} - set alreadyReceived"
    using build_queue_items(1) [of fileSize totalChunks "set alreadyReceived"] set_map [of it_index ?q] by (simp add: set_eq_iff)
  ultimately show ?thesis by simp
qed

lemma worker_next_const [simp]:
  "u_fileSize (snd (worker_next u)) = u_fileSize u" "u_total (snd (worker_next u)) = u_total u"
  by (cases rule: worker_next_cases [of u]; simp)+

lemma run_step_const:
  "run_step e u = Some v \<Longrightarrow> u_fileSize v = u_fileSize u \<and> u_total v = u_total u"
  by (cases e)
    (auto simp: chunk_uploaded_def chunk_failed_def worker_continue_def worker_settled_def set_worker_def
      main_tick_def Let_def split: option.splits wstate.splits if_splits)

lemma exec_const:
  "exec_events run_step es u = Some v \<Longrightarrow> u_fileSize v = u_fileSize u \<and> u_total v = u_total u"
proof (induction es arbitrary: u)
  case (Cons e es)
  then show ?case by (auto split: option.splits dest!: run_step_const)
qed simp

section \<open>Acknowledged and failed requests\<close>

text \<open>The chunk indices whose requests succeeded (failed), in the order of the events of a run.\<close>

fun request_index :: "nat \<Rightarrow> run \<Rightarrow> nat list" where
  "request_index w u = (case map_of (u_workers u) w of Some (InFlight it) \<Rightarrow> [it_index it] | _ \<Rightarrow> [])"

fun acked :: "run_event list \<Rightarrow> run \<Rightarrow> nat list" where
  "acked [] u = []"
| "acked (e # es) u =
     (case run_step e u of None \<Rightarrow> []
      | Some v \<Rightarrow> (case e of ChunkOk w now \<Rightarrow> request_index w u | _ \<Rightarrow> []) @ acked es v)"

fun failed :: "run_event list \<Rightarrow> run \<Rightarrow> nat list" where
  "failed [] u = []"
| "failed (e # es) u =
     (case run_step e u of None \<Rightarrow> []
      | Some v \<Rightarrow> (case e of ChunkFail w msg \<Rightarrow> request_index w u | _ \<Rightarrow> []) @ failed es v)"

lemma acked_step:
  assumes inv: "run_inv u" and step: "run_step e u = Some v"
  defines "a \<equiv> (case e of ChunkOk w now \<Rightarrow> request_index w u | _ \<Rightarrow> [])"
  shows "u_received v = u_received u \<union> set a" "distinct a" "set a \<inter> u_received u = {}"
proof -
  have "u_received v = u_received u \<union> set a \<and> distinct a \<and> set a \<inter> u_received u = {}"
  proof (cases "\<exists>w now. e = ChunkOk w now")
    case True
    then obtain w now it where e: "e = ChunkOk w now" "map_of (u_workers u) w = Some (InFlight it)"
        "v = chunk_uploaded w it now u"
      using step by (auto split: option.splits wstate.splits)
    have "it \<in> set (work u)"
      using chunk_uploaded_work(1) [OF inv e(2), of now] by (metis set_mset_mset union_single_eq_member)
    then have "it_index it \<notin> u_received u" using inv by (auto simp: run_inv_def items_inv_def)
    with chunk_uploaded_work(2) [OF inv e(2), of now] e show ?thesis by (simp add: a_def)
  next
    case False
    then have "a = []" by (cases e) (auto simp: a_def)
    moreover have "u_received v = u_received u"
    proof (cases "\<exists>w m. e = ChunkFail w m")
      case True
      then show ?thesis using step by (auto split: option.splits wstate.splits)
    next
      case not_fail: False
      show ?thesis using other_step_work(2) [OF inv step] False not_fail by blast
    qed
    ultimately show ?thesis by simp
  qed
  then show "u_received v = u_received u \<union> set a" "distinct a" "set a \<inter> u_received u = {}" by simp_all
qed

lemma acked_received:
  "run_inv u \<Longrightarrow> exec_events run_step es u = Some v \<Longrightarrow>
     u_received v = u_received u \<union> set (acked es u) \<and> distinct (acked es u) \<and> set (acked es u) \<inter> u_received u = {}"
proof (induction es arbitrary: u)
  case (Cons e es)
  then obtain t where t: "run_step e u = Some t" "exec_events run_step es t = Some v"
    by (auto split: option.splits)
  note s = acked_step [OF Cons.prems(1) t(1)]
  have "run_inv t" using Cons.prems(1) t(1) by (rule run_step_inv)
  from Cons.IH [OF this t(2)] s t(1) show ?case by (auto simp del: request_index.simps)
qed simp

text \<open>Retry counters and failures.\<close>

definition hist_inv :: "nat list \<Rightarrow> run \<Rightarrow> bool" where
  "hist_inv fs u \<longleftrightarrow>
     (\<forall>it\<in>set (work u). it_retries it = count_list fs (it_index it)) \<and>
     (u_fatalError u \<noteq> None \<longrightarrow> (\<exists>i<u_total u. 4 \<le> count_list fs i))"

lemma hist_step:
  assumes inv: "run_inv u" and hist: "hist_inv fs u" and step: "run_step e u = Some v"
  shows "hist_inv (fs @ (case e of ChunkFail w m \<Rightarrow> request_index w u | _ \<Rightarrow> [])) v"
proof (cases "\<exists>w m. e = ChunkFail w m")
  case True
  then obtain w m it where e: "e = ChunkFail w m" "map_of (u_workers u) w = Some (InFlight it)"
      "v = chunk_failed w it m u"
    using step by (auto split: option.splits wstate.splits)
  have total: "u_total v = u_total u" using run_step_const [OF step] by simp
  have rest: "it \<in> set (work u) \<and> item_ok (u_fileSize u) (u_total u) it
      \<and> (\<forall>x\<in>#M. x \<in> set (work u) \<and> it_index x \<noteq> it_index it)"
    if "mset (work u) = add_mset it M" for M
  proof -
    obtain ys where ys: "mset ys = M" using ex_mset by blast
    then have "mset (map it_index (work u)) = mset (map it_index (it # ys))" using that by simp
    from mset_eq_imp_distinct_iff [OF this] have "distinct (map it_index (it # ys))"
      using inv by (simp add: run_inv_def items_inv_def)
    then have "it_index it \<notin> it_index ` set ys" by simp
    moreover have "set_mset M = set ys" using ys by auto
    ultimately have "\<forall>x\<in>#M. it_index x \<noteq> it_index it" by (metis imageI)
    moreover have "set (work u) = insert it (set_mset M)" using that by (metis set_mset_add_mset_insert set_mset_mset)
    ultimately show ?thesis using inv by (auto simp: run_inv_def items_inv_def)
  qed
  have eqs: "fs @ (case e of ChunkFail w m \<Rightarrow> request_index w u | _ \<Rightarrow> []) = fs @ [it_index it]" using e by simp
  from inv e(2) show ?thesis unfolding eqs
  proof (cases rule: chunk_failed_work [where e = m])
    case retry
    then obtain M where M: "mset (work u) = add_mset it M"
        "mset (work v) = add_mset (it\<lparr>it_retries := it_retries it + 1\<rparr>) M" using e(3) by auto
    have "set (work v) = insert (it\<lparr>it_retries := it_retries it + 1\<rparr>) (set_mset M)"
      using M(2) by (metis set_mset_add_mset_insert set_mset_mset)
    with rest [OF M(1)] hist retry(2) e(3) total show "hist_inv (fs @ [it_index it]) v"
      by (fastforce simp: hist_inv_def)
  next
    case fatal
    then have M: "mset (work u) = add_mset it (mset (work v))" using e(3) by simp
    from rest [OF M] hist fatal(1) total show "hist_inv (fs @ [it_index it]) v"
      by (auto simp: hist_inv_def item_ok_def intro!: exI [of _ "it_index it"])
  next
    case cancelled
    then have M: "mset (work u) = add_mset it (mset (work v))" using e(3) by simp
    from rest [OF M] hist cancelled(2) e(3) total show "hist_inv (fs @ [it_index it]) v"
      by (fastforce simp: hist_inv_def)
  qed
next
  case False
  then have eqs: "fs @ (case e of ChunkFail w m \<Rightarrow> request_index w u | _ \<Rightarrow> []) = fs" by (cases e) auto
  have "set (work v) \<subseteq> set (work u) \<and> u_fatalError v = u_fatalError u"
  proof (cases "\<exists>w now. e = ChunkOk w now")
    case True
    then obtain w now it where e: "e = ChunkOk w now" "map_of (u_workers u) w = Some (InFlight it)"
        "v = chunk_uploaded w it now u"
      using step by (auto split: option.splits wstate.splits)
    note c = chunk_uploaded_work [OF inv e(2), of now]
    from arg_cong [OF c(1), of set_mset] c(3) e(3) show ?thesis by auto
  next
    case not_ok: False
    then show ?thesis using other_step_work [OF inv step] False by (metis order_refl set_mset_mset)
  qed
  with hist run_step_const [OF step] show ?thesis unfolding eqs by (auto simp: hist_inv_def)
qed

lemma hist_exec:
  "run_inv u \<Longrightarrow> hist_inv fs u \<Longrightarrow> exec_events run_step es u = Some v \<Longrightarrow> hist_inv (fs @ failed es u) v"
proof (induction es arbitrary: u fs)
  case (Cons e es)
  then obtain t where t: "run_step e u = Some t" "exec_events run_step es t = Some v"
    by (auto split: option.splits)
  from Cons.IH [OF run_step_inv [OF Cons.prems(1) t(1)] hist_step [OF Cons.prems(1,2) t(1)] t(2)] t(1)
  show ?case by (simp del: request_index.simps)
qed simp

section \<open>Attempts\<close>

definition attempts_left :: "run \<Rightarrow> nat" where
  "attempts_left u = (\<Sum>it\<in>#mset (work u). 4 - it_retries it)"

fun is_request :: "run_event \<Rightarrow> bool" where
  "is_request (ChunkOk w now) = True"
| "is_request (ChunkFail w m) = True"
| "is_request _ = False"

lemma attempts_step:
  assumes inv: "run_inv u" and step: "run_step e u = Some v"
  shows "if is_request e then attempts_left v < attempts_left u else attempts_left v \<le> attempts_left u"
proof -
  have lt: "it_retries it \<le> 3" if "mset (work u) = add_mset it M" for it M
  proof -
    from arg_cong [OF that, of set_mset] have "it \<in> set (work u)" by auto
    with inv show ?thesis by (auto simp: run_inv_def items_inv_def item_ok_def)
  qed
  consider (ok) w now where "e = ChunkOk w now" | (fl) w m where "e = ChunkFail w m"
    | (other) "\<forall>w t. e \<noteq> ChunkOk w t" "\<forall>w m. e \<noteq> ChunkFail w m" by blast
  then show ?thesis
  proof cases
    case ok
    then obtain it where it: "map_of (u_workers u) w = Some (InFlight it)" "v = chunk_uploaded w it now u"
      using step by (auto split: option.splits wstate.splits)
    from chunk_uploaded_work(1) [OF inv it(1), of now] it(2) lt ok show ?thesis
      by (fastforce simp: attempts_left_def)
  next
    case fl
    then obtain it where it: "map_of (u_workers u) w = Some (InFlight it)" "v = chunk_failed w it m u"
      using step by (auto split: option.splits wstate.splits)
    from inv it(1) show ?thesis
    proof (cases rule: chunk_failed_work [where e = m])
      case retry
      then show ?thesis using it(2) fl by (auto simp: attempts_left_def)
    next
      case fatal
      then show ?thesis using it(2) fl lt by (fastforce simp: attempts_left_def)
    next
      case cancelled
      then show ?thesis using it(2) fl lt by (fastforce simp: attempts_left_def)
    qed
  next
    case other
    with other_step_work(1) [OF inv step] show ?thesis by (cases e) (auto simp: attempts_left_def)
  qed
qed

interpretation run_budget: bounded_system run_step run_inv is_request attempts_left
  by unfold_locales (rule attempts_step)

lemma attempts_left_start:
  "attempts_left (start_run fileSize totalChunks alreadyReceived sp now 0) =
     4 * card ({..<totalChunks} - set alreadyReceived)"
proof -
  let ?q = "build_queue fileSize totalChunks (set alreadyReceived)"
  have "attempts_left (start_run fileSize totalChunks alreadyReceived sp now 0) = (\<Sum>it\<leftarrow>?q. 4 - it_retries it)"
    by (simp add: attempts_left_def start_run_frame flip: sum_mset_sum_list)
  also have "\<dots> = (\<Sum>it\<leftarrow>?q. 4)"
    by (intro arg_cong [where f = sum_list] map_cong refl) (simp add: build_queue_items(2))
  also have "\<dots> = 4 * length (map it_index ?q)" by (simp add: sum_list_triv)
  also have "length (map it_index ?q) = card (set (map it_index ?q))"
    by (rule distinct_card [symmetric]) (simp add: build_queue_items(1))
  also have "set (map it_index ?q) = {..<totalChunks} - set alreadyReceived"
    by (auto simp: build_queue_items(1))
  finally show ?thesis .
qed

section \<open>Progress\<close>

primrec worker_weight :: "wstate \<Rightarrow> nat" where
  "worker_weight Returned = 1"
| "worker_weight Sleeping = 2"
| "worker_weight (InFlight it) = 3"

definition remaining :: "run \<Rightarrow> nat" where
  "remaining u = 4 * length (u_queue u) + (\<Sum>p\<leftarrow>u_workers u. worker_weight (snd p))"

fun favourable :: "run_event \<Rightarrow> bool" where
  "favourable (ChunkOk w now) = True"
| "favourable (WakeUp w) = True"
| "favourable (Settled w) = True"
| "favourable Tick = True"
| "favourable _ = False"

lemma pump_remaining: "remaining (pump u) \<le> remaining u"
  by (induction rule: pump_induct) (simp_all add: remaining_def)

lemma continue_remaining:
  assumes "distinct (map fst (u_workers u))" "map_of (u_workers u) w = Some st" "st \<noteq> Returned"
  shows "remaining (worker_continue w u) < remaining u"
proof -
  obtain xs ys where ws: "u_workers u = xs @ (w, st) # ys" "w \<notin> fst ` set xs" "w \<notin> fst ` set ys"
    using assms(2,1) by (rule worker_split)
  let ?r = "worker_next u"
  have "worker_continue w u = (snd ?r)\<lparr>u_workers := xs @ (w, fst ?r) # ys\<rparr>"
    using set_worker_split [of "snd ?r" xs w st ys] ws by (simp add: worker_continue_def Let_def worker_next_work)
  with ws(1) assms(3) show ?thesis
    by (cases st; cases rule: worker_next_cases [of u]) (simp_all add: remaining_def)
qed

lemma worker_next_halted [simp]: "halted (snd (worker_next u)) = halted u" "u_exit (snd (worker_next u)) = u_exit u"
  by (cases rule: worker_next_cases [of u]; simp add: halted_def)+

lemma worker_continue_halted [simp]:
  "halted (worker_continue w u) = halted u" "u_exit (worker_continue w u) = u_exit u"
proof -
  have "halted (set_worker w st v) = halted v" "u_exit (set_worker w st v) = u_exit v" for st v
    by (simp_all add: set_worker_def halted_def)
  then show "halted (worker_continue w u) = halted u" "u_exit (worker_continue w u) = u_exit u"
    by (simp_all add: worker_continue_def Let_def)
qed

lemma pump_halted [simp]: "halted (pump u) = halted u"
  by (simp add: halted_def)

text \<open>A run that is not halted always has a favourable event: a worker's, or the timer's, which starts a
  worker or ends the run.\<close>

lemma favourable_step:
  assumes inv: "run_inv u" and live: "\<not> halted u" "u_exit u = None"
  obtains e v where "favourable e" "run_step e u = Some v" "u_exit v = Some ExitComplete"
  | e v where "favourable e" "run_step e u = Some v" "\<not> halted v" "u_exit v = None" "remaining v < remaining u"
proof (cases "u_workers u")
  case (Cons p ps)
  obtain w st where p: "p = (w, st)" by (cases p)
  have d: "distinct (map fst (u_workers u))" using inv by (simp add: run_inv_defs)
  have w: "map_of (u_workers u) w = Some st" using Cons p by simp
  show thesis
  proof (cases st)
    case (InFlight it)
    let ?v = "u\<lparr>u_received := insert (it_index it) (u_received u),
       u_uploadedCount := u_uploadedCount u + 1,
       u_speed := noteBytes 0 (it_end it - it_start it) (u_speed u)\<rparr>"
    have "remaining (worker_continue w ?v) < remaining ?v"
      using continue_remaining [of ?v w st] d w InFlight by simp
    moreover have "remaining ?v = remaining u" by (simp add: remaining_def)
    moreover have "run_step (ChunkOk w 0) u = Some (worker_continue w ?v)"
      using w InFlight by (simp add: chunk_uploaded_def)
    moreover have "halted ?v = halted u" by (simp add: halted_def)
    ultimately show thesis using live by (intro that(2) [of "ChunkOk w 0"]) auto
  next
    case Sleeping
    then show thesis using live w continue_remaining [OF d w] by (intro that(2) [of "WakeUp w"]) auto
  next
    case Returned
    let ?v = "u\<lparr>u_workers := ps, u_activeWorkers := u_activeWorkers u - 1\<rparr>"
    have "w \<notin> fst ` set ps" using d Cons p by simp
    then have "worker_settled w u = (if halted ?v then ?v else pump ?v)"
      using Cons p by (simp add: worker_settled_def Let_def)
    moreover have "halted ?v = halted u" by (simp add: halted_def)
    moreover have "remaining ?v < remaining u" using Cons p Returned by (simp add: remaining_def)
    ultimately show thesis using live w Returned pump_remaining [of ?v]
      by (intro that(2) [of "Settled w" "pump ?v"]) auto
  qed
next
  case Nil
  have act: "u_activeWorkers u = 0" "2 \<le> adaptive u"
    using inv Nil by (auto simp: run_inv_defs speed_inv_def MIN_WORKERS_def)
  show thesis
  proof (cases "u_queue u")
    case q: Nil
    have "run_step Tick u = Some (u\<lparr>u_exit := Some ExitComplete\<rparr>)"
      using live act q by (simp add: main_tick_def leave_loop_def halted_def)
    then show thesis by (intro that(1) [of Tick]) auto
  next
    case (Cons it q)
    let ?v = "u\<lparr>u_queue := q, u_activeWorkers := u_activeWorkers u + 1,
      u_workers := u_workers u @ [(u_nextId u, InFlight it)], u_nextId := u_nextId u + 1\<rparr>"
    have "run_step Tick u = Some (pump u)" using live act Cons by (simp add: main_tick_def halted_def)
    moreover have "pump u = pump ?v" using live act Cons by (intro pump_start) auto
    moreover have "remaining ?v < remaining u" using Cons by (simp add: remaining_def)
    ultimately show thesis using live pump_remaining [of ?v]
      by (intro that(2) [of Tick "pump u"]) (auto simp: halted_def)
  qed
qed

lemma favourable_run:
  assumes "run_inv u" "\<not> halted u" "u_exit u = None"
  shows "\<exists>es v. list_all favourable es \<and> length es \<le> remaining u + 1 \<and>
    exec_events run_step es u = Some v \<and> u_exit v = Some ExitComplete"
  using assms
proof (induction "remaining u" arbitrary: u rule: less_induct)
  case less
  from less.prems show ?case
  proof (cases rule: favourable_step)
    case (1 e v)
    then show ?thesis by (intro exI [of _ "[e]"] exI [of _ v]) simp
  next
    case (2 e v)
    have "run_inv v" using less.prems(1) 2(2) by (rule run_step_inv)
    from less.hyps [OF 2(5) this 2(3,4)] obtain es t where
      "list_all favourable es" "length es \<le> remaining v + 1" "exec_events run_step es v = Some t"
      "u_exit t = Some ExitComplete" by blast
    with 2 show ?thesis by (intro exI [of _ "e # es"] exI [of _ t]) simp
  qed
qed

section \<open>What the server holds\<close>

text \<open>The parts the server has acknowledged: the chunk index and the bytes of the file slice sent.\<close>

fun delivered :: "byte list \<Rightarrow> run_event list \<Rightarrow> run \<Rightarrow> (nat \<times> byte list) list" where
  "delivered bytes [] u = []"
| "delivered bytes (e # es) u =
     (case run_step e u of None \<Rightarrow> []
      | Some v \<Rightarrow>
          (case e of
             ChunkOk w now \<Rightarrow>
               (case map_of (u_workers u) w of
                  Some (InFlight it) \<Rightarrow> [(it_index it, subarray bytes (it_start it) (it_end it))]
                | _ \<Rightarrow> [])
           | _ \<Rightarrow> []) @ delivered bytes es v)"

definition chunk_bytes :: "byte list \<Rightarrow> nat \<Rightarrow> byte list" where
  "chunk_bytes bytes i = subarray bytes (i * CHUNK_SIZE) (min (i * CHUNK_SIZE + CHUNK_SIZE) (length bytes))"

lemma delivered_acked: "map fst (delivered bytes es u) = acked es u"
  by (induction es u rule: acked.induct) (auto split: option.split run_event.split wstate.split)

lemma in_flight_ok:
  assumes "run_inv u" "map_of (u_workers u) w = Some (InFlight it)"
  shows "item_ok (u_fileSize u) (u_total u) it"
proof -
  from chunk_uploaded_work(1) [OF assms, of 0] have "it \<in> set (work u)"
    by (metis set_mset_mset union_single_eq_member)
  with assms(1) show ?thesis by (simp add: run_inv_def items_inv_def)
qed

lemma acked_in_range:
  "run_inv u \<Longrightarrow> exec_events run_step es u = Some v \<Longrightarrow> i \<in> set (acked es u) \<Longrightarrow> i < u_total u"
proof (induction es arbitrary: u)
  case (Cons e es)
  then obtain t where t: "run_step e u = Some t" "exec_events run_step es t = Some v" by (auto split: option.splits)
  have inv: "run_inv t" "u_total t = u_total u" using Cons.prems(1) t(1) run_step_inv run_step_const by auto
  from Cons.prems(3) t(1) consider "i \<in> set (acked es t)"
    | w it where "map_of (u_workers u) w = Some (InFlight it)" "i = it_index it"
    by (auto split: run_event.splits option.splits wstate.splits)
  then show ?case
  proof cases
    case 1
    with Cons.IH [OF inv(1) t(2)] inv(2) show ?thesis by simp
  next
    case 2
    with in_flight_ok [OF Cons.prems(1) 2(1)] show ?thesis by (simp add: item_ok_def chunk_item_def Let_def)
  qed
qed simp

lemma delivered_bytes:
  "run_inv u \<Longrightarrow> u_fileSize u = length bytes \<Longrightarrow> exec_events run_step es u = Some v \<Longrightarrow>
     (i, d) \<in> set (delivered bytes es u) \<Longrightarrow> d = chunk_bytes bytes i"
proof (induction es arbitrary: u)
  case (Cons e es)
  then obtain t where t: "run_step e u = Some t" "exec_events run_step es t = Some v"
    by (auto split: option.splits)
  have inv: "run_inv t" "u_fileSize t = length bytes"
    using Cons.prems(1,2) t(1) run_step_inv run_step_const by auto
  from Cons.prems(4) t(1) consider "(i, d) \<in> set (delivered bytes es t)"
    | w it where "map_of (u_workers u) w = Some (InFlight it)" "i = it_index it"
        "d = subarray bytes (it_start it) (it_end it)"
    by (auto split: run_event.splits option.splits wstate.splits)
  then show ?case
  proof cases
    case 1
    from Cons.IH [OF inv t(2) this] show ?thesis .
  next
    case 2
    from in_flight_ok [OF Cons.prems(1) 2(1)] 2 Cons.prems(2) show ?thesis
      by (simp add: item_ok_def chunk_item_def Let_def chunk_bytes_def)
  qed
qed simp

lemma chunks_tile:
  "concat (map (chunk_bytes bytes) [0..<n]) = take (n * CHUNK_SIZE) bytes"
proof (induction n)
  case (Suc n)
  have "chunk_bytes bytes n = take CHUNK_SIZE (drop (n * CHUNK_SIZE) bytes)"
    by (simp add: chunk_bytes_def subarray_def min_def)
  with Suc show ?case by (simp add: take_add add.commute [of CHUNK_SIZE])
qed simp

lemma chunks_tile_all: "length bytes \<le> n * CHUNK_SIZE \<Longrightarrow> concat (map (chunk_bytes bytes) [0..<n]) = bytes"
  by (simp add: chunks_tile)

section \<open>Properties\<close>

lemma exec_start:
  assumes "speed_inv sp" "exec_events run_step es (start_run fileSize totalChunks alreadyReceived sp now 0) = Some u"
  shows "run_inv u" "u_total u = totalChunks" "u_fileSize u = fileSize"
    "u_received u = set alreadyReceived \<union> set (acked es (start_run fileSize totalChunks alreadyReceived sp now 0))"
  using run.inv_exec [OF start_run_inv [OF assms(1)] assms(2)] exec_const [OF assms(2)]
    acked_received [OF start_run_inv [OF assms(1)] assms(2)]
  by (simp_all add: start_run_frame)

text \<open>C2. The run goes on to \<open>apiComplete\<close> only when the server has the whole file: for every order of
  events (requests that succeed, fail, are retried, timers, a pause or a cancel), if the main loop ends
  in the completing branch, then the parts the server already had together with the parts it acknowledged in this
  run, put together in the order of their indices, are the bytes of the file. Hypotheses: the parts it had are
  slices of this file, \<open>totalChunks\<close> chunks cover the file, and no worker of an earlier run is left.\<close>

theorem complete_assembles_file:
  assumes "speed_inv sp"
    and "length bytes \<le> totalChunks * CHUNK_SIZE"
    and "\<forall>i\<in>set alreadyReceived. old i = Some (chunk_bytes bytes i)"
    and "exec_events run_step es (start_run (length bytes) totalChunks alreadyReceived sp now 0) = Some u"
    and "u_exit u = Some ExitComplete"
  shows "concat (map (\<lambda>i. the ((old ++ map_of (delivered bytes es
           (start_run (length bytes) totalChunks alreadyReceived sp now 0))) i)) [0..<totalChunks]) = bytes"
proof -
  let ?s = "start_run (length bytes) totalChunks alreadyReceived sp now 0"
  let ?d = "delivered bytes es ?s"
  note facts = exec_start [OF assms(1,4)]
  have all: "{..<totalChunks} \<subseteq> set alreadyReceived \<union> set (map fst ?d)"
    using facts assms(5) by (auto simp: run_inv_def exit_inv_def delivered_acked)
  have sent: "\<forall>i d. map_of ?d i = Some d \<longrightarrow> d = chunk_bytes bytes i"
    using delivered_bytes [OF start_run_inv [OF assms(1)] _ assms(4)] by (auto simp: start_run_frame dest: map_of_SomeD)
  have "the ((old ++ map_of ?d) i) = chunk_bytes bytes i" if "i < totalChunks" for i
  proof (cases "map_of ?d i")
    case None
    then have "i \<in> set alreadyReceived" using all that by (auto simp: map_of_eq_None_iff)
    with assms(3) None show ?thesis by (simp add: map_add_def)
  next
    case (Some d)
    with sent show ?thesis by (simp add: map_add_def)
  qed
  then have "map (\<lambda>i. the ((old ++ map_of ?d) i)) [0..<totalChunks] = map (chunk_bytes bytes) [0..<totalChunks]"
    by simp
  with chunks_tile_all [OF assms(2)] show ?thesis by (simp only:)
qed

definition two_chunk_events :: "run_event list" where
  "two_chunk_events = [ChunkFail 0 ''net'', ChunkOk 1 0, WakeUp 0, Settled 0, ChunkOk 1 0, Settled 1, Tick]"

lemmas run_eval = start_run_def build_queue_def chunk_item_def pump.simps worker_next_def halted_def
  main_tick_def leave_loop_def worker_continue_def set_worker_def worker_settled_def chunk_uploaded_def
  chunk_failed_def noteBytes_def initial_speed_def initial_workers_def MIN_WORKERS_def MAX_WORKERS_CAP_def
  CHUNK_SIZE_def Let_def upt_rec

abbreviation two_chunk_start :: run where
  "two_chunk_start \<equiv> start_run (length [1, 2, 3, 4, 5 :: byte]) 2 [] (initial_speed (Some 4)) 0 0"

lemma two_chunk_run:
  "\<exists>u. exec_events run_step two_chunk_events two_chunk_start = Some u \<and> u_exit u = Some ExitComplete"
  by (simp add: two_chunk_events_def run_eval)

theorem complete_assembles_file_witness:
  "concat (map (\<lambda>i. the ((Map.empty ++ map_of (delivered [1, 2, 3, 4, 5] two_chunk_events two_chunk_start)) i))
     [0..<2]) = [1, 2, 3, 4, 5]"
proof -
  obtain u where "exec_events run_step two_chunk_events two_chunk_start = Some u" "u_exit u = Some ExitComplete"
    using two_chunk_run by blast
  then show ?thesis
    by (intro complete_assembles_file [of _ _ 2 "[]"]) (simp_all add: speed_inv_initial CHUNK_SIZE_def)
qed

text \<open>C11. In a run that starts with no worker of an earlier failed run pending, no chunk is acknowledged twice, none that the server had
  already is acknowledged in this run, and the count the page shows is the number of chunks the server has. (A pending worker of
  a failed run would add to the count of the new run: see \<open>stale_ends_run\<close> and the step \<open>StaleOk\<close>.)\<close>

theorem chunks_acknowledged_once:
  assumes "speed_inv sp"
    and "exec_events run_step es (start_run fileSize totalChunks alreadyReceived sp now 0) = Some u"
  shows "distinct (acked es (start_run fileSize totalChunks alreadyReceived sp now 0))
    \<and> set (acked es (start_run fileSize totalChunks alreadyReceived sp now 0)) \<inter> set alreadyReceived = {}
    \<and> u_uploadedCount u = card (set alreadyReceived)
        + length (acked es (start_run fileSize totalChunks alreadyReceived sp now 0))"
proof -
  let ?a = "acked es (start_run fileSize totalChunks alreadyReceived sp now 0)"
  have a: "distinct ?a" "set ?a \<inter> set alreadyReceived = {}"
    using acked_received [OF start_run_inv [OF assms(1)] assms(2)] by (simp_all add: start_run_frame)
  moreover have "u_uploadedCount u = card (set alreadyReceived \<union> set ?a)"
    using exec_start [OF assms] by (simp add: run_inv_def count_inv_def)
  ultimately show ?thesis by (simp add: card_Un_disjoint Int_commute distinct_card)
qed

theorem chunks_acknowledged_once_witness:
  "\<exists>u. exec_events run_step two_chunk_events two_chunk_start = Some u \<and>
     u_uploadedCount u = length (acked two_chunk_events two_chunk_start)"
proof -
  obtain u where u: "exec_events run_step two_chunk_events two_chunk_start = Some u"
    using two_chunk_run by blast
  from chunks_acknowledged_once [OF speed_inv_initial u] u show ?thesis by simp
qed

text \<open>C16. In a run that starts with no worker of an earlier failed run pending, at most twelve chunk requests are in flight at a
  time, no two of them for the same chunk, and \<open>activeWorkers\<close> is the number of workers.\<close>

theorem requests_in_flight_bounded:
  assumes "speed_inv sp"
    and "reachable_from run_step (start_run fileSize totalChunks alreadyReceived sp now 0) u"
  shows "length (flight (u_workers u)) \<le> 12 \<and> distinct (map it_index (flight (u_workers u)))
    \<and> u_activeWorkers u = int (length (u_workers u))"
proof -
  have "run_inv u" using run.inv_reachable [OF assms(2) start_run_inv [OF assms(1)]] .
  then show ?thesis using flight_length [of "u_workers u"]
    by (auto simp: run_inv_defs MAX_WORKERS_CAP_def)
qed

theorem requests_in_flight_bounded_witness:
  "reachable_from run_step two_chunk_start two_chunk_start \<and> length (flight (u_workers two_chunk_start)) \<le> 12"
proof -
  have r: "reachable_from run_step two_chunk_start two_chunk_start" by (rule reachable_from.reach_init)
  from requests_in_flight_bounded [OF speed_inv_initial r] r show ?thesis by simp
qed

text \<open>C17. A run that starts with no worker of an earlier failed run pending makes at most four requests per chunk that was missing
  when it began.\<close>

theorem requests_bounded:
  assumes "speed_inv sp"
    and "exec_events run_step es (start_run fileSize totalChunks alreadyReceived sp now 0) = Some u"
  shows "length (filter is_request es) \<le> 4 * card ({..<totalChunks} - set alreadyReceived)"
  using run_budget.counted_bound [OF start_run_inv [OF assms(1)] assms(2)] by (simp add: attempts_left_start)

theorem requests_bounded_witness: "length (filter is_request two_chunk_events) \<le> 4 * card ({..<2::nat} - set [])"
proof -
  obtain u where u: "exec_events run_step two_chunk_events two_chunk_start = Some u"
    using two_chunk_run by blast
  from requests_bounded [OF speed_inv_initial u] show ?thesis .
qed

text \<open>C22. A run that starts with no worker of an earlier failed run pending fails only for a chunk that really failed four times: if \<open>runUpload\<close> throws out of the
  main loop, some chunk of the file has at least four failed requests.\<close>

theorem throws_after_four_failures:
  assumes "speed_inv sp"
    and "exec_events run_step es (start_run fileSize totalChunks alreadyReceived sp now 0) = Some u"
    and "u_exit u = Some (ExitThrows msg)"
  shows "\<exists>i<totalChunks. 4 \<le> count_list (failed es (start_run fileSize totalChunks alreadyReceived sp now 0)) i"
proof -
  let ?s = "start_run fileSize totalChunks alreadyReceived sp now 0"
  have "set (work ?s) = set (build_queue fileSize totalChunks (set alreadyReceived))"
    using start_run_frame(5) by (metis set_mset_mset)
  then have "hist_inv [] ?s" by (auto simp: hist_inv_def start_run_frame build_queue_items(2))
  from hist_exec [OF start_run_inv [OF assms(1)] this assms(2)] have "hist_inv (failed es ?s) u" by simp
  moreover have "u_fatalError u \<noteq> None"
    using exec_start(1) [OF assms(1,2)] assms(3) by (simp add: run_inv_def exit_inv_def)
  ultimately show ?thesis using exec_start(2) [OF assms(1,2)] by (simp add: hist_inv_def)
qed

definition failing_events :: "run_event list" where
  "failing_events = [ChunkFail 0 ''a'', WakeUp 0, ChunkFail 0 ''b'', WakeUp 0, ChunkFail 0 ''c'', WakeUp 0,
     ChunkFail 0 ''d'', Tick]"

theorem throws_after_four_failures_witness:
  "\<exists>i<1. 4 \<le> count_list (failed failing_events (start_run 5 1 [] (initial_speed (Some 4)) 0 0)) i"
proof -
  have "\<exists>u. exec_events run_step failing_events (start_run 5 1 [] (initial_speed (Some 4)) 0 0) = Some u
      \<and> u_exit u = Some (ExitThrows ''d'')"
    by (simp add: failing_events_def run_eval)
  then obtain u where
    "exec_events run_step failing_events (start_run 5 1 [] (initial_speed (Some 4)) 0 0) = Some u"
    "u_exit u = Some (ExitThrows ''d'')" by blast
  from throws_after_four_failures [OF speed_inv_initial this] show ?thesis .
qed

text \<open>Pausing loses nothing: when the loop ends in the paused branch no request is in flight, and
  every chunk is either acknowledged or still in the queue, never both.\<close>

theorem pause_keeps_chunks:
  assumes "speed_inv sp"
    and "exec_events run_step es (start_run fileSize totalChunks alreadyReceived sp now 0) = Some u"
    and "u_exit u = Some ExitPaused"
  shows "u_workers u = []
    \<and> {..<totalChunks} \<subseteq> set alreadyReceived
        \<union> set (acked es (start_run fileSize totalChunks alreadyReceived sp now 0)) \<union> it_index ` set (u_queue u)
    \<and> it_index ` set (u_queue u) \<inter> u_received u = {}"
  using exec_start [OF assms(1,2)] assms(3) by (auto simp: run_inv_defs)

theorem pause_keeps_chunks_witness:
  "\<exists>u. exec_events run_step [ClickPause, ChunkOk 0 0, ChunkFail 1 ''x'', Settled 0, WakeUp 1, Settled 1, Tick]
        two_chunk_start = Some u
     \<and> {..<2} \<subseteq> set [] \<union> set (acked [ClickPause, ChunkOk 0 0, ChunkFail 1 ''x'', Settled 0, WakeUp 1, Settled 1, Tick]
         two_chunk_start) \<union> it_index ` set (u_queue u)"
proof -
  obtain u where u: "exec_events run_step [ClickPause, ChunkOk 0 0, ChunkFail 1 ''x'', Settled 0, WakeUp 1, Settled 1, Tick]
        two_chunk_start = Some u" "u_exit u = Some ExitPaused"
    by (simp add: run_eval)
  from pause_keeps_chunks [OF speed_inv_initial u] u(1) show ?thesis by blast
qed

text \<open>C7. No run that starts without a pending worker of an earlier failed run gets stuck: from every state it can reach without having been paused, cancelled or
  failed, the completing branch is reached by successful requests and timers alone, in at most four events
  for each queued chunk, three for each worker and a last tick.\<close>

theorem upload_can_complete:
  assumes "speed_inv sp"
    and "reachable_from run_step (start_run fileSize totalChunks alreadyReceived sp now 0) u"
    and "\<not> halted u" and "u_exit u = None"
  shows "\<exists>es v. list_all favourable es \<and> length es \<le> remaining u + 1
    \<and> exec_events run_step es u = Some v \<and> u_exit v = Some ExitComplete"
  using run.inv_reachable [OF assms(2) start_run_inv [OF assms(1)]] assms(3,4) by (rule favourable_run)

theorem upload_can_complete_witness:
  "\<exists>es v. list_all favourable es \<and> length es \<le> remaining two_chunk_start + 1
    \<and> exec_events run_step es two_chunk_start = Some v \<and> u_exit v = Some ExitComplete"
  by (rule upload_can_complete [OF speed_inv_initial reachable_from.reach_init]) (simp_all add: run_eval)

section \<open>Workers left over from a failed run\<close>








end
