(* ===== verification/Page_Correct.thy ===== *)
theory Page_Correct
  imports Page Upload_Correct
begin

text \<open>
  What the page of \<open>Page\<close> guarantees, for every order of clicks and results: the buttons fit the state, cancel and
  failure clean up, an interrupted upload can be resumed after a reload, an upload is reported as done only
  when the server says so. The properties at the end of the sections show interleavings in which the page does
  not do what the buttons promise.
\<close>

section \<open>The buttons follow the state\<close>

definition buttons_inv :: "page \<Rightarrow> bool" where
  "buttons_inv p \<longleftrightarrow> setButtons p = p"

lemma buttons_inv_setState [inv_intros]: "buttons_inv (setState st p)"
  by (simp add: buttons_inv_def setState_def setButtons_def)

lemma buttons_inv_setButtons [inv_intros]: "buttons_inv (setButtons p)"
  by (simp add: buttons_inv_def setButtons_def)

lemma buttons_inv_cong:
  "pg_state q = pg_state p \<Longrightarrow> pg_buttons q = pg_buttons p \<Longrightarrow> buttons_inv q = buttons_inv p"
  by (cases p; cases q) (auto simp: buttons_inv_def setButtons_def)

lemma buttons_inv_frame [frame_simps]:
  "buttons_inv (setStatus m p) = buttons_inv p" "buttons_inv (showError m p) = buttons_inv p"
  "buttons_inv (clearError p) = buttons_inv p" "buttons_inv (progress n l p) = buttons_inv p"
  "buttons_inv (clearSpeed p) = buttons_inv p" "buttons_inv (hideResumeBanner p) = buttons_inv p"
  "buttons_inv (forgetSession p) = buttons_inv p" "buttons_inv (await t p) = buttons_inv p"
  "buttons_inv (call c p) = buttons_inv p" "buttons_inv (drop_task k p) = buttons_inv p"
  by (rule buttons_inv_cong; simp add: setStatus_def showError_def clearError_def progress_def clearSpeed_def
      hideResumeBanner_def forgetSession_def await_def call_def drop_task_def)+

lemma buttons_inv_update [frame_simps]:
  "buttons_inv (p\<lparr>pg_pauseRequested := a\<rparr>) = buttons_inv p" "buttons_inv (p\<lparr>pg_cancelRequested := a\<rparr>) = buttons_inv p"
  "buttons_inv (p\<lparr>pg_currentUploadId := i\<rparr>) = buttons_inv p" "buttons_inv (p\<lparr>pg_currentChecksum := i\<rparr>) = buttons_inv p"
  "buttons_inv (p\<lparr>pg_currentFile := f\<rparr>) = buttons_inv p" "buttons_inv (p\<lparr>pg_uploadedCount := n\<rparr>) = buttons_inv p"
  "buttons_inv (p\<lparr>pg_requireChunkCrc32 := a\<rparr>) = buttons_inv p" "buttons_inv (p\<lparr>pg_requireChunkSha256 := a\<rparr>) = buttons_inv p"
  "buttons_inv (p\<lparr>pg_speed := s\<rparr>) = buttons_inv p" "buttons_inv (p\<lparr>pg_storage := ls\<rparr>) = buttons_inv p"
  "buttons_inv (p\<lparr>pg_selected := f\<rparr>) = buttons_inv p" "buttons_inv (p\<lparr>pg_banner := b\<rparr>) = buttons_inv p"
  "buttons_inv (p\<lparr>pg_resume := r\<rparr>) = buttons_inv p"
  by (rule buttons_inv_cong; simp)+

lemma run_buttons [inv_intros]:
  "buttons_inv (runUpload cx rs now p)" "buttons_inv (start_catch e p)"
  "buttons_inv p \<Longrightarrow> buttons_inv (error_abort_done p)" "buttons_inv (run_throws cx e p)"
  "buttons_inv p \<Longrightarrow> buttons_inv (run_returns cx p)" "buttons_inv (run_done cx name p)"
  "buttons_inv p \<Longrightarrow> buttons_inv (run_loop_ended cx u p)"
  "buttons_inv p \<Longrightarrow> buttons_inv (complete_replied cx out p)" "buttons_inv p \<Longrightarrow> buttons_inv (merge_ended cx r p)"
  by (auto simp: runUpload_def start_catch_def error_abort_done_def run_throws_def run_returns_def run_done_def
      run_loop_ended_def complete_replied_def merge_ended_def Let_def frame_simps
      split: exit_kind.split caller.split sum.split wait_result.split intro!: inv_intros)

lemma start_buttons [inv_intros]:
  "buttons_inv p \<Longrightarrow> buttons_inv (start_hashed f c p)" "buttons_inv p \<Longrightarrow> buttons_inv (compute_hash b f p)"
  "buttons_inv p \<Longrightarrow> buttons_inv (startFresh b p)" "buttons_inv p \<Longrightarrow> buttons_inv (buffer_read f p)"
  by (auto simp: start_hashed_def start_initiate_def compute_hash_def startFresh_def buffer_read_def
      Let_def frame_simps split: option.splits sum.splits if_splits intro!: inv_intros)

lemma reply_buttons:
  "initiate_replied f c now out p = Some q \<Longrightarrow> buttons_inv q"
  "buttons_inv p \<Longrightarrow> banner_status i f now out p = Some q \<Longrightarrow> buttons_inv q"
  "pause_status now out p = Some q \<Longrightarrow> buttons_inv q"
  by (auto simp: initiate_replied_def banner_status_def pause_status_def frame_simps
      split: option.splits sum.splits if_splits intro!: inv_intros)

lemma resume_buttons [inv_intros]:
  "buttons_inv p \<Longrightarrow> buttons_inv (check_status s out p)"
  "buttons_inv p \<Longrightarrow> buttons_inv (click_start b p)" "buttons_inv p \<Longrightarrow> buttons_inv (click_pause p)"
  "buttons_inv p \<Longrightarrow> buttons_inv (click_cancel p)" "buttons_inv (cancel_finish p)"
  "buttons_inv p \<Longrightarrow> buttons_inv (click_resume s p)" "buttons_inv p \<Longrightarrow> buttons_inv (click_discard s p)"
  "buttons_inv p \<Longrightarrow> buttons_inv (discard_finish p)"
  by (auto simp: check_status_def click_start_def click_pause_def
      click_cancel_def cancel_finish_def click_resume_def click_discard_def discard_finish_def
      resumeFromServer_def Let_def frame_simps split: option.splits sum.splits if_splits intro!: inv_intros)

lemma continue_buttons:
  "continue t r p = Some q \<Longrightarrow> buttons_inv p \<Longrightarrow> buttons_inv q"
  by (cases "(t, r, p)" rule: continue.cases)
    (auto simp: frame_simps split: if_splits option.splits wait_result.splits intro: inv_intros reply_buttons)

lemma page_step_buttons:
  "buttons_inv p \<Longrightarrow> page_step HAS_SUBTLE e p = Some q \<Longrightarrow> buttons_inv q"
  by (cases e)
    (auto simp: frame_simps split: if_splits option.splits intro: inv_intros
      dest: continue_buttons)

interpretation page: invariant_system "page_step HAS_SUBTLE" buttons_inv for HAS_SUBTLE
  by unfold_locales (rule page_step_buttons)

lemma uploaderInit_buttons: "buttons_inv (uploaderInit hc ls)"
  by (simp add: uploaderInit_def frame_simps buttons_inv_setState)

text \<open>C26. Whatever the user and the network do, the buttons fit the state of the page: Start and the file
  input are usable exactly when no upload is going on or paused, Cancel exactly otherwise, and Pause only
  during and Resume only after a pause.\<close>

theorem buttons_follow_state:
  assumes "reachable_from (page_step HAS_SUBTLE) (uploaderInit hc ls) p"
  shows "startBtn_disabled (pg_buttons p) = (pg_state p \<in> {Hashing, Uploading, Verifying, Paused})
    \<and> fileInput_disabled (pg_buttons p) = startBtn_disabled (pg_buttons p)
    \<and> cancelBtn_disabled (pg_buttons p) = (\<not> startBtn_disabled (pg_buttons p))
    \<and> pauseBtn_disabled (pg_buttons p) = (pg_state p \<notin> {Uploading, Paused})
    \<and> (pauseBtn_text (pg_buttons p) = ''Resume'') = (pg_state p = Paused)"
proof -
  have "setButtons p = p"
    using page.inv_reachable [OF assms uploaderInit_buttons] by (simp add: buttons_inv_def)
  then have "pg_buttons p = pg_buttons (setButtons p)" by simp
  then show ?thesis by (simp add: setButtons_def busy_def)
qed

lemmas widget_defs = setStatus_def showError_def clearError_def progress_def clearSpeed_def setButtons_def
  setState_def hideResumeBanner_def forgetSession_def await_def call_def drop_task_def

lemmas page_eval = widget_defs runUpload_def start_catch_def error_abort_done_def run_throws_def
  run_returns_def run_loop_ended_def run_done_def complete_replied_def merge_ended_def start_initiate_def
  start_hashed_def compute_hash_def startFresh_def buffer_read_def initiate_replied_def not_resumable_def
  resumeFromServer_def banner_status_def pause_status_def check_status_def
  click_start_def click_pause_def cancel_finish_def click_cancel_def click_resume_def click_discard_def
  discard_finish_def uploaderInit_def busy_def truthy_def or_null_def Let_def

definition demo_storage :: storage where
  "demo_storage = \<lparr>ls_items = Map.empty, ls_enabled = True, ls_accepts = \<lambda>k v. True\<rparr>"

definition demo_file :: js_file where
  "demo_file = \<lparr>f_name = ''a.txt'', f_type = ''text/plain'', f_bytes = [1, 2, 3]\<rparr>"

definition init_reply :: outcome where
  "init_reply = Response 200 (Some (empty_reply\<lparr>b_uploadId := Some ''u1'', b_totalChunks := Some 1\<rparr>))"

lemma reachable_eval: "reachable_from (page_step b) s t"
  if "exec_events (page_step b) es s = Some t" for es
  using that reachable_from.reach_init by (rule exec_events_reachable)

lemma checkResume_empty [simp]: "checkResume p = p" if "loadSession (pg_storage p) = None"
  using that by (simp add: checkResume_def)

lemma load_demo [simp]: "loadSession demo_storage = None"
  by (simp add: loadSession_def demo_storage_def getItem_def)

lemma demo_storage_simps [simp]: "ls_enabled demo_storage" "ls_accepts demo_storage k v"
  by (simp_all add: demo_storage_def)

theorem buttons_follow_state_witness:
  "\<exists>p. exec_events (page_step True) [SelectFile (Some demo_file), ClickStart] (uploaderInit None demo_storage) = Some p
     \<and> pg_state p = Hashing \<and> startBtn_disabled (pg_buttons p)"
proof -
  have "\<exists>p. exec_events (page_step True) [SelectFile (Some demo_file), ClickStart] (uploaderInit None demo_storage) = Some p
     \<and> pg_state p = Hashing"
    by (simp add: page_eval demo_file_def f_size_def WEBCYPTO_MAX_def)
  then obtain p where p: "exec_events (page_step True) [SelectFile (Some demo_file), ClickStart]
      (uploaderInit None demo_storage) = Some p" "pg_state p = Hashing" by blast
  from buttons_follow_state [OF reachable_eval [OF p(1)]] p show ?thesis by simp
qed

text \<open>C25. Cancel during an upload sends the server a \<open>DELETE\<close> for the upload, and when that call has ended,
  well or badly, the page is idle, has forgotten the upload and the stored session, shows 0\% and no banner.\<close>

theorem cancel_cleans_up:
  assumes "page_step HAS_SUBTLE ClickCancelBtn p = Some q" and "pg_currentUploadId p = Some uid" and "uid \<noteq> []"
    and "page_step HAS_SUBTLE (Deliver k (Http now out)) r = Some s" and "pg_tasks r ! k = AwaitCancelAbort"
    and "ls_enabled (pg_storage r)"
  shows "pg_calls q = pg_calls p @ [CallAbort uid] \<and> pg_tasks q = pg_tasks p @ [AwaitCancelAbort]
    \<and> pg_cancelRequested q
    \<and> pg_state s = Idle \<and> pg_currentUploadId s = None \<and> loadSession (pg_storage s) = None
    \<and> pb_aria_valuenow (pg_progress s) = ''0'' \<and> pg_banner s = None"
proof -
  have "q = await AwaitCancelAbort (call (CallAbort uid) (setStatus ''Cancelling...''
      (p\<lparr>pg_cancelRequested := True, pg_pauseRequested := False\<rparr>)))"
    using assms(1-3) by (auto simp: click_cancel_def truthy_def Let_def setStatus_def split: if_splits)
  moreover have "s = cancel_finish (drop_task k r)" using assms(4,5) by (simp split: if_splits)
  moreover have "js_String 0 = ''0''" by code_simp
  ultimately show ?thesis using assms(6)
    by (simp add: cancel_finish_def widget_defs load_after_clear setProgress_def clamp_percent_def ToInt32_def)
qed

definition to_upload :: "page_event list" where
  "to_upload = [SelectFile (Some demo_file), ClickStart, Deliver 0 Resolved, Deliver 0 (Hex ''h''),
     Deliver 0 (Http 0 init_reply)]"

lemmas demo_eval = page_eval to_upload_def demo_file_def f_size_def WEBCYPTO_MAX_def init_reply_def
  apiInitiate_result_def status_ok_def json_or_empty_def empty_reply_def js_or_def

lemma demo_upload:
  "\<exists>p. exec_events (page_step True) to_upload (uploaderInit None demo_storage) = Some p
     \<and> pg_state p = Uploading \<and> pg_currentUploadId p = Some ''u1'' \<and> \<not> cancelBtn_disabled (pg_buttons p)
     \<and> (\<exists>cx rs sp. pg_tasks p = [AwaitRun cx rs sp]) \<and> ls_enabled (pg_storage p)"
  by (simp add: demo_eval saveSession_def setItem_def)

theorem cancel_cleans_up_witness:
  "\<exists>p q s. exec_events (page_step True) to_upload (uploaderInit None demo_storage) = Some p
     \<and> page_step True ClickCancelBtn p = Some q \<and> page_step True (Deliver 1 (Http 0 (FetchRejects ''x''))) q = Some s
     \<and> pg_state s = Idle \<and> loadSession (pg_storage s) = None"
proof -
  obtain p cx rs sp where p: "exec_events (page_step True) to_upload (uploaderInit None demo_storage) = Some p"
      "pg_currentUploadId p = Some ''u1''" "\<not> cancelBtn_disabled (pg_buttons p)" "pg_tasks p = [AwaitRun cx rs sp]"
      "ls_enabled (pg_storage p)"
    using demo_upload by blast
  define q where "q = click_cancel p"
  have q: "page_step True ClickCancelBtn p = Some q" using p(3) by (simp add: q_def)
  have t: "pg_tasks q = [AwaitRun cx rs sp, AwaitCancelAbort]" "ls_enabled (pg_storage q)"
    using p(2,4,5) by (simp_all add: q_def click_cancel_def truthy_def widget_defs Let_def)
  then obtain s where s: "page_step True (Deliver 1 (Http 0 (FetchRejects ''x''))) q = Some s" by simp
  have "pg_tasks q ! 1 = AwaitCancelAbort" using t by simp
  from cancel_cleans_up [OF q p(2) _ s this t(2)] p(1) q s show ?thesis by blast
qed

text \<open>A fresh upload that fails (hashing, initiating, a chunk, the merge) leaves nothing behind: the error
  is shown, the server is told to drop the upload if there is one, and when that call ends the page has
  no current upload and no stored session.\<close>

theorem failed_start_cleans_up:
  assumes "ls_enabled (pg_storage p)" and "ls_enabled (pg_storage r)"
  shows "pg_state (start_catch e p) = Error \<and> pg_errorBox (start_catch e p) = Some (err_text e)
    \<and> (case pg_currentUploadId p of
         Some (c # cs) \<Rightarrow> pg_calls (start_catch e p) = pg_calls p @ [CallAbort (c # cs)]
                        \<and> pg_tasks (start_catch e p) = pg_tasks p @ [AwaitErrorAbort]
       | _ \<Rightarrow> loadSession (pg_storage (start_catch e p)) = None \<and> pg_calls (start_catch e p) = pg_calls p)
    \<and> pg_currentUploadId (error_abort_done r) = None \<and> loadSession (pg_storage (error_abort_done r)) = None"
  using assms
  by (auto simp: start_catch_def error_abort_done_def Let_def truthy_def widget_defs load_after_clear
      split: option.split list.split)

theorem failed_start_cleans_up_witness:
  "\<exists>p. exec_events (page_step True) to_upload (uploaderInit None demo_storage) = Some p
     \<and> pg_calls (start_catch ''x'' p) = pg_calls p @ [CallAbort ''u1'']
     \<and> loadSession (pg_storage (error_abort_done p)) = None"
proof -
  obtain p where p: "exec_events (page_step True) to_upload (uploaderInit None demo_storage) = Some p"
      "pg_currentUploadId p = Some ''u1''" "ls_enabled (pg_storage p)"
    using demo_upload by blast
  from failed_start_cleans_up [OF p(3) p(3), of "''x''"] p show ?thesis by simp
qed

lemma start_when_cancelled:
  assumes "pg_cancelRequested p" "pg_state p = Idle"
  shows "pg_state (click_start b p) = Idle \<and> pg_cancelRequested (click_start b p)
    \<and> pg_calls (click_start b p) = pg_calls p \<and> pg_tasks (click_start b p) = pg_tasks p"
  using assms by (simp add: click_start_def startFresh_def compute_hash_def start_hashed_def widget_defs Let_def
      split: option.split)

fun user_retries :: "page_event \<Rightarrow> bool" where
  "user_retries (SelectFile f) = True"
| "user_retries ClickStart = True"
| "user_retries _ = False"

text \<open>After a cancel, Start does nothing more: \<open>cancelRequested\<close> is still set, \<open>startFresh\<close> does not reset it,
  so hashing gives up at once and the page falls back to idle without a request. This stays so for every
  further choice of a file and click on Start.\<close>

theorem start_after_cancel_does_nothing:
  assumes "pg_cancelRequested p" and "pg_state p = Idle" and "list_all user_retries es"
    and "exec_events (page_step HAS_SUBTLE) es p = Some q"
  shows "pg_state q = Idle \<and> pg_cancelRequested q \<and> pg_calls q = pg_calls p \<and> pg_tasks q = pg_tasks p"
  using assms
proof (induction es arbitrary: p)
  case (Cons e es)
  then obtain t where t: "page_step HAS_SUBTLE e p = Some t" "exec_events (page_step HAS_SUBTLE) es t = Some q"
    by (auto split: option.splits)
  have "pg_state t = Idle \<and> pg_cancelRequested t \<and> pg_calls t = pg_calls p \<and> pg_tasks t = pg_tasks p"
    using t(1) Cons.prems start_when_cancelled [of p HAS_SUBTLE] by (cases e) (auto split: if_splits)
  with Cons.IH [of t] Cons.prems(3) t(2) show ?case by simp
qed simp

theorem start_after_cancel_does_nothing_witness:
  "\<exists>p q. exec_events (page_step True) [SelectFile (Some demo_file), ClickStart, ClickCancelBtn, Deliver 0 Resolved]
        (uploaderInit None demo_storage) = Some p
     \<and> exec_events (page_step True) [SelectFile (Some demo_file), ClickStart] p = Some q
     \<and> pg_state q = Idle \<and> pg_calls q = pg_calls p"
proof -
  have "\<exists>p. exec_events (page_step True) [SelectFile (Some demo_file), ClickStart, ClickCancelBtn, Deliver 0 Resolved]
        (uploaderInit None demo_storage) = Some p \<and> pg_state p = Idle \<and> pg_cancelRequested p
      \<and> \<not> fileInput_disabled (pg_buttons p) \<and> \<not> startBtn_disabled (pg_buttons p)"
    by (simp add: demo_eval clearSession_def removeItem_def)
  then obtain p where p: "exec_events (page_step True) [SelectFile (Some demo_file), ClickStart, ClickCancelBtn, Deliver 0 Resolved]
        (uploaderInit None demo_storage) = Some p" "pg_state p = Idle" "pg_cancelRequested p"
      "\<not> fileInput_disabled (pg_buttons p)" "\<not> startBtn_disabled (pg_buttons p)" by blast
  then obtain q where q: "exec_events (page_step True) [SelectFile (Some demo_file), ClickStart] p = Some q"
    by simp
  from start_after_cancel_does_nothing [OF p(3,2) _ q] p(1) q show ?thesis by auto
qed

text \<open>A cancel while the \<open>initiate\<close> request is under way is lost: the reply starts the upload, and
  \<open>runUpload\<close> clears the cancel request.\<close>

theorem cancel_lost_during_initiate:
  "\<exists>p q. exec_events (page_step True) [SelectFile (Some demo_file), ClickStart, Deliver 0 Resolved,
        Deliver 0 (Hex ''h''), ClickCancelBtn] (uploaderInit None demo_storage) = Some p
     \<and> pg_state p = Idle \<and> pg_cancelRequested p
     \<and> page_step True (Deliver 0 (Http 0 init_reply)) p = Some q
     \<and> pg_state q = Uploading \<and> \<not> pg_cancelRequested q \<and> (\<exists>cx rs sp. pg_tasks q = [AwaitRun cx rs sp])"
  by (simp add: demo_eval)

section \<open>Reloading the page\<close>

lemma run_storage:
  "pg_storage (runUpload cx rs now p) = saveSession
     \<lparr>m_uploadId = cx_uploadId cx, m_fileName = f_name (cx_file cx), m_fileSize = f_size (cx_file cx),
      m_totalChunks = cx_totalChunks cx, m_savedAt = now\<rparr> (pg_storage p)"
  by (simp add: runUpload_def widget_defs Let_def)

lemma saved_session:
  assumes "ls_enabled ls" "\<And>v. ls_accepts ls STORAGE_KEY v"
  shows "loadSession (saveSession m ls) = Some (meta_object m)"
  using assms load_after_setItem [of "meta_object m" ls]
  by (simp add: saveSession_def setItem_def)

lemma meta_fields [simp]:
  "session_uploadId (meta_object m) = Some (m_uploadId m)" "session_fileName (meta_object m) = Some (m_fileName m)"
  "session_fileSize (meta_object m) = Some (m_fileSize m)"
  by (simp_all add: meta_object_def session_uploadId_def session_fileName_def session_fileSize_def)

definition pending_reply :: "outcome \<Rightarrow> reply \<Rightarrow> bool" where
  "pending_reply out st \<longleftrightarrow>
     apiStatus_result out = Inr (Some st) \<and> b_status st = Some ''Pending'' \<and> b_isExpired st \<noteq> Some True"

lemma reload_resume_run:
  fixes cx :: upload_ctx and p :: page
  assumes st: "ls_enabled (pg_storage p)" "\<And>v. ls_accepts (pg_storage p) STORAGE_KEY v" "cx_uploadId cx \<noteq> []"
    and reply: "pending_reply out st" "b_totalSize st = Some (f_size f)" "b_totalChunks st = Some n"
    and f: "f_name f = f_name (cx_file cx)" "f_size f = f_size (cx_file cx)"
  obtains q where
    "exec_events (page_step b) [Deliver 0 (Http t1 out), SelectFile (Some f), ClickResume, Deliver 0 (Http t2 out)]
       (uploaderInit hc (pg_storage (runUpload cx rs now p))) = Some q"
    "pg_state q = Uploading" "\<not> pg_requireChunkCrc32 q" "\<not> pg_requireChunkSha256 q"
    "pg_currentUploadId q = Some (cx_uploadId cx)" "pg_uploadedCount q = card (set (received_of st))"
    "pg_tasks q = [AwaitRun \<lparr>cx_caller = FromBanner, cx_file = f, cx_uploadId = cx_uploadId cx,
       cx_totalChunks = n, cx_checksum = or_null (b_checksum st)\<rparr> (received_of st) (initial_speed hc)]"
proof -
  let ?m = "\<lparr>m_uploadId = cx_uploadId cx, m_fileName = f_name (cx_file cx), m_fileSize = f_size (cx_file cx),
      m_totalChunks = cx_totalChunks cx, m_savedAt = now\<rparr>"
  have load: "loadSession (saveSession ?m (pg_storage p)) = Some (meta_object ?m)"
    using st(1,2) by (rule saved_session)
  have "\<exists>q. exec_events (page_step b) [Deliver 0 (Http t1 out), SelectFile (Some f), ClickResume, Deliver 0 (Http t2 out)]
       (uploaderInit hc (pg_storage (runUpload cx rs now p))) = Some q \<and>
    pg_state q = Uploading \<and> \<not> pg_requireChunkCrc32 q \<and> \<not> pg_requireChunkSha256 q \<and>
    pg_currentUploadId q = Some (cx_uploadId cx) \<and> pg_uploadedCount q = card (set (received_of st)) \<and>
    pg_tasks q = [AwaitRun \<lparr>cx_caller = FromBanner, cx_file = f, cx_uploadId = cx_uploadId cx,
       cx_totalChunks = n, cx_checksum = or_null (b_checksum st)\<rparr> (received_of st) (initial_speed hc)]"
    using st(3) reply f load
    by (simp add: run_storage uploaderInit_def checkResume_def check_status_def click_resume_def
        resumeFromServer_def banner_status_def not_resumable_def pending_reply_def runUpload_def widget_defs
        busy_def truthy_def Let_def)
  then show thesis using that by blast
qed

text \<open>C15. An interrupted upload is resumed after a reload: the session that \<open>runUpload\<close> stored is found when the
  page loads again, and when the server still has the upload pending, choosing the same file and clicking
  Resume starts a run for the same upload. Its queue and requests in flight are at first exactly the chunks the server lacks, and
  at no time, whatever happens in the run, one of the chunks the server had.\<close>

theorem reload_resumes:
  assumes "ls_enabled (pg_storage p)" and "\<And>v. ls_accepts (pg_storage p) STORAGE_KEY v" and "cx_uploadId cx \<noteq> []"
    and "pending_reply out st" and "b_totalSize st = Some (f_size f)" and "b_totalChunks st = Some n"
    and "f_name f = f_name (cx_file cx)" and "f_size f = f_size (cx_file cx)"
  shows "\<exists>q. exec_events (page_step HAS_SUBTLE)
      [Deliver 0 (Http t1 out), SelectFile (Some f), ClickResume, Deliver 0 (Http t2 out)]
      (uploaderInit hc (pg_storage (runUpload cx rs now p))) = Some q
    \<and> pg_state q = Uploading \<and> pg_currentUploadId q = Some (cx_uploadId cx)
    \<and> pg_uploadedCount q = card (set (received_of st))
    \<and> pg_tasks q = [AwaitRun \<lparr>cx_caller = FromBanner, cx_file = f, cx_uploadId = cx_uploadId cx,
         cx_totalChunks = n, cx_checksum = or_null (b_checksum st)\<rparr> (received_of st) (initial_speed hc)]
    \<and> it_index ` set (work (start_run (f_size f) n (received_of st) (initial_speed hc) t3 stale)) = {..<n} - set (received_of st)
    \<and> (\<forall>es u. exec_events run_step es (start_run (f_size f) n (received_of st) (initial_speed hc) t3 stale) = Some u
         \<longrightarrow> it_index ` set (work u) \<inter> set (received_of st) = {})"
proof -
  have none: "it_index ` set (work u) \<inter> set (received_of st) = {}"
    if "exec_events run_step es (start_run (f_size f) n (received_of st) (initial_speed hc) t3 stale) = Some u" for es u
    using exec_indices [OF that] by (auto simp: start_indices)
  obtain q where q: "exec_events (page_step HAS_SUBTLE)
      [Deliver 0 (Http t1 out), SelectFile (Some f), ClickResume, Deliver 0 (Http t2 out)]
      (uploaderInit hc (pg_storage (runUpload cx rs now p))) = Some q"
    "pg_state q = Uploading" "pg_currentUploadId q = Some (cx_uploadId cx)" "pg_uploadedCount q = card (set (received_of st))"
    "pg_tasks q = [AwaitRun \<lparr>cx_caller = FromBanner, cx_file = f, cx_uploadId = cx_uploadId cx,
       cx_totalChunks = n, cx_checksum = or_null (b_checksum st)\<rparr> (received_of st) (initial_speed hc)]"
    by (rule reload_resume_run [OF assms])
  show ?thesis by (intro exI [of _ q] conjI allI impI q start_indices none)
qed

definition demo_status :: reply where
  "demo_status = empty_reply\<lparr>b_status := Some ''Pending'', b_totalSize := Some 3, b_totalChunks := Some 1,
     b_requireChunkCrc32 := Some True\<rparr>"

abbreviation demo_ctx :: upload_ctx where
  "demo_ctx \<equiv> \<lparr>cx_caller = FromStart, cx_file = demo_file, cx_uploadId = ''u1'', cx_totalChunks = 1,
     cx_checksum = None\<rparr>"

lemma demo_pending:
  "pending_reply (Response 200 (Some demo_status)) demo_status" "b_totalSize demo_status = Some (f_size demo_file)"
  "b_totalChunks demo_status = Some 1"
  by (simp_all add: pending_reply_def demo_status_def apiStatus_result_def status_ok_def empty_reply_def
      demo_file_def f_size_def)

lemma demo_page_storage:
  "ls_enabled (pg_storage (uploaderInit None demo_storage))"
  "ls_accepts (pg_storage (uploaderInit None demo_storage)) STORAGE_KEY v"
  by (simp_all add: uploaderInit_def widget_defs)

theorem reload_resumes_witness:
  "\<exists>q. exec_events (page_step True)
      [Deliver 0 (Http 1 (Response 200 (Some demo_status))), SelectFile (Some demo_file), ClickResume,
       Deliver 0 (Http 2 (Response 200 (Some demo_status)))]
      (uploaderInit None (pg_storage (runUpload demo_ctx [] 0 (uploaderInit None demo_storage)))) = Some q
    \<and> pg_state q = Uploading \<and> pg_currentUploadId q = Some ''u1''
    \<and> it_index ` set (work (start_run 3 1 (received_of demo_status) (initial_speed None) 0 0)) = {..<1} - set (received_of demo_status)"
proof -
  have size: "f_size demo_file = 3" by (simp add: demo_file_def f_size_def)
  have id: "cx_uploadId demo_ctx \<noteq> []" "f_name demo_file = f_name (cx_file demo_ctx)" "f_size demo_file = f_size (cx_file demo_ctx)"
    by simp_all
  from reload_resumes [OF demo_page_storage id(1) demo_pending id(2,3), of True 1 2 None "[]" 0 0 0, unfolded size]
  obtain q where q: "exec_events (page_step True)
      [Deliver 0 (Http 1 (Response 200 (Some demo_status))), SelectFile (Some demo_file), ClickResume,
       Deliver 0 (Http 2 (Response 200 (Some demo_status)))]
      (uploaderInit None (pg_storage (runUpload demo_ctx [] 0 (uploaderInit None demo_storage)))) = Some q"
    "pg_state q = Uploading" "pg_currentUploadId q = Some (cx_uploadId demo_ctx)"
    "it_index ` set (work (start_run 3 1 (received_of demo_status) (initial_speed None) 0 0)) = {..<1} - set (received_of demo_status)"
    by (elim exE conjE) (rule that)
  have "pg_currentUploadId q = Some ''u1''" using q(3) by simp
  then show ?thesis by (intro exI [of _ q] conjI q)
qed

text \<open>The run resumed after a reload sends no chunk checksums: the flags that ask for them are only set by
  the reply to \<open>initiate\<close>, so they are false whatever the status reply says, and the chunk requests
  carry neither \<open>X-Chunk-CRC32\<close> nor \<open>X-Chunk-SHA256\<close>.\<close>

theorem resume_drops_chunk_checksums:
  assumes "ls_enabled (pg_storage p)" and "\<And>v. ls_accepts (pg_storage p) STORAGE_KEY v" and "cx_uploadId cx \<noteq> []"
    and "pending_reply out st" and "b_totalSize st = Some (f_size f)" and "b_totalChunks st = Some n"
    and "f_name f = f_name (cx_file cx)" and "f_size f = f_size (cx_file cx)"
  shows "\<exists>q. exec_events (page_step HAS_SUBTLE)
      [Deliver 0 (Http t1 out), SelectFile (Some f), ClickResume, Deliver 0 (Http t2 out)]
      (uploaderInit hc (pg_storage (runUpload cx rs now p))) = Some q
    \<and> (\<exists>rq. apiUploadChunk_request
         (env\<lparr>env_requireCrc32 := pg_requireChunkCrc32 q, env_requireSha256 := pg_requireChunkSha256 q\<rparr>)
         (cx_uploadId cx) i blob (f_type f) = Some rq
       \<and> rq_headers rq ''X-Chunk-CRC32'' = None \<and> rq_headers rq ''X-Chunk-SHA256'' = None)"
proof -
  obtain q where q: "exec_events (page_step HAS_SUBTLE)
      [Deliver 0 (Http t1 out), SelectFile (Some f), ClickResume, Deliver 0 (Http t2 out)]
      (uploaderInit hc (pg_storage (runUpload cx rs now p))) = Some q"
      "\<not> pg_requireChunkCrc32 q" "\<not> pg_requireChunkSha256 q"
    by (rule reload_resume_run [OF assms])
  have "\<exists>rq. apiUploadChunk_request (env\<lparr>env_requireCrc32 := False, env_requireSha256 := False\<rparr>)
         (cx_uploadId cx) i blob (f_type f) = Some rq
       \<and> rq_headers rq ''X-Chunk-CRC32'' = None \<and> rq_headers rq ''X-Chunk-SHA256'' = None"
    by (simp add: apiUploadChunk_request_def authHeaders_def Let_def split: option.split prod.split)
  with q show ?thesis by auto
qed

theorem resume_drops_chunk_checksums_witness:
  "\<exists>q rq. exec_events (page_step True)
      [Deliver 0 (Http 1 (Response 200 (Some demo_status))), SelectFile (Some demo_file), ClickResume,
       Deliver 0 (Http 2 (Response 200 (Some demo_status)))]
      (uploaderInit None (pg_storage (runUpload demo_ctx [] 0 (uploaderInit None demo_storage)))) = Some q
    \<and> apiUploadChunk_request
         (demo_env\<lparr>env_requireCrc32 := pg_requireChunkCrc32 q, env_requireSha256 := pg_requireChunkSha256 q\<rparr>)
         ''u1'' 0 [1, 2, 3] (f_type demo_file) = Some rq
    \<and> rq_headers rq ''X-Chunk-CRC32'' = None"
  using resume_drops_chunk_checksums [where cx = demo_ctx, OF demo_page_storage _ demo_pending,
      of True 1 2 None "[]" 0 demo_env 0 "[1, 2, 3]"]
  by auto

section \<open>Ends of an upload\<close>

text \<open>When the server already has the content, nothing is uploaded: the page is done, no run starts, no
  further request is sent and the stored session is dropped.\<close>

theorem dedupe_skips_upload:
  assumes "pg_tasks p ! k = AwaitInitiate f checksum" and "k < length (pg_tasks p)"
    and "apiInitiate_result out = Inr init" and "b_alreadyExists init = Some True"
    and "ls_enabled (pg_storage p)"
  shows "\<exists>q. page_step HAS_SUBTLE (Deliver k (Http now out)) p = Some q
    \<and> pg_state q = Done \<and> pg_calls q = pg_calls p \<and> length (pg_tasks q) + 1 = length (pg_tasks p)
    \<and> loadSession (pg_storage q) = None"
  using assms by (simp add: initiate_replied_def widget_defs load_after_clear)

theorem dedupe_skips_upload_witness:
  "\<exists>p q. exec_events (page_step True) [SelectFile (Some demo_file), ClickStart, Deliver 0 Resolved,
        Deliver 0 (Hex ''h'')] (uploaderInit None demo_storage) = Some p
     \<and> page_step True (Deliver 0 (Http 0 (Response 200 (Some (empty_reply\<lparr>b_alreadyExists := Some True\<rparr>))))) p = Some q
     \<and> pg_state q = Done \<and> pg_calls q = pg_calls p"
proof -
  have "\<exists>p f c. exec_events (page_step True) [SelectFile (Some demo_file), ClickStart, Deliver 0 Resolved,
        Deliver 0 (Hex ''h'')] (uploaderInit None demo_storage) = Some p \<and> pg_tasks p = [AwaitInitiate f c]
        \<and> ls_enabled (pg_storage p)"
    by (simp add: demo_eval)
  then obtain p f c where p: "exec_events (page_step True) [SelectFile (Some demo_file), ClickStart, Deliver 0 Resolved,
        Deliver 0 (Hex ''h'')] (uploaderInit None demo_storage) = Some p" "pg_tasks p = [AwaitInitiate f c]"
        "ls_enabled (pg_storage p)" by blast
  have "apiInitiate_result (Response 200 (Some (empty_reply\<lparr>b_alreadyExists := Some True\<rparr>)))
      = Inr (empty_reply\<lparr>b_alreadyExists := Some True\<rparr>)"
    by (simp add: apiInitiate_result_def status_ok_def json_or_empty_def)
  from dedupe_skips_upload [of p 0 f c, OF _ _ this _ p(3), of True 0] p show ?thesis by auto
qed

lemma run_throws_state [simp]: "pg_state (run_throws cx e p) = Error"
  by (auto simp: run_throws_def start_catch_def widget_defs Let_def split: caller.split)

lemma not_done [simp]:
  "pg_state (runUpload cx rs now p) \<noteq> Done" "pg_state (start_catch e p) \<noteq> Done" "pg_state (cancel_finish p) \<noteq> Done"
  "pg_state (start_initiate f c p) = pg_state p" "pg_state (await t p) = pg_state p" "pg_state (call nc p) = pg_state p"
  "pg_state (progress n l p) = pg_state p" "pg_state (setStatus m p) = pg_state p" "pg_state (showError m p) = pg_state p"
  "pg_state (clearError p) = pg_state p" "pg_state (clearSpeed p) = pg_state p" "pg_state (forgetSession p) = pg_state p"
  "pg_state (hideResumeBanner p) = pg_state p" "pg_state (setState s p) = s" "pg_state (setButtons p) = pg_state p"
  "pg_state (drop_task k p) = pg_state p" "pg_state (error_abort_done p) = pg_state p" "pg_state (discard_finish p) = pg_state p"
  "pg_state (run_returns cx p) = pg_state p" "pg_state (checkResume p) = pg_state p" "pg_state (check_status s' out p) = pg_state p"
  by (auto simp: runUpload_def start_catch_def cancel_finish_def start_initiate_def error_abort_done_def discard_finish_def
      run_returns_def checkResume_def check_status_def widget_defs Let_def split: option.split sum.split)

lemma steps_not_done:
  "pg_state p \<noteq> Done \<Longrightarrow> pg_state (start_hashed f c p) \<noteq> Done" "pg_state p \<noteq> Done \<Longrightarrow> pg_state (buffer_read f p) \<noteq> Done"
  "pg_state p \<noteq> Done \<Longrightarrow> pg_state (click_start b p) \<noteq> Done" "pg_state p \<noteq> Done \<Longrightarrow> pg_state (click_pause p) \<noteq> Done"
  "pg_state p \<noteq> Done \<Longrightarrow> pg_state (click_cancel p) \<noteq> Done" "pg_state p \<noteq> Done \<Longrightarrow> pg_state (click_resume s p) \<noteq> Done"
  "pg_state p \<noteq> Done \<Longrightarrow> pg_state (click_discard s p) \<noteq> Done" "pg_state p \<noteq> Done \<Longrightarrow> pg_state (run_loop_ended cx u p) \<noteq> Done"
  "pg_state p \<noteq> Done \<Longrightarrow> pause_status now out p = Some q \<Longrightarrow> pg_state q \<noteq> Done"
  "pg_state p \<noteq> Done \<Longrightarrow> banner_status i f now out p = Some q \<Longrightarrow> pg_state q \<noteq> Done"
  by (auto simp: start_hashed_def buffer_read_def click_start_def startFresh_def compute_hash_def click_pause_def click_cancel_def
      click_resume_def resumeFromServer_def click_discard_def run_loop_ended_def pause_status_def banner_status_def Let_def
      split: option.splits sum.splits if_splits exit_kind.splits)

text \<open>The results after which an upload is over: the content is there already, the server has merged the chunks while it answered,
  or a poll of the status finds the merge completed before the deadline and without a cancel.\<close>

definition upload_over :: "task \<Rightarrow> result \<Rightarrow> bool" where
  "upload_over t r \<longleftrightarrow>
     (\<exists>f c now st init. t = AwaitInitiate f c \<and> r = Http now (Response st (Some init)) \<and> status_ok st \<and> b_alreadyExists init = Some True)
     \<or> (\<exists>cx now st body. t = AwaitComplete cx \<and> r = Http now (Response st body) \<and> status_ok st \<and> st \<noteq> 202
          \<and> (\<forall>b. body = Some b \<longrightarrow> b_status b \<noteq> Some ''Completing''))
     \<or> (\<exists>cx start ps p code st. t = AwaitMerge cx \<and> r = Polls start ps \<and> p \<in> set ps \<and> p_outcome p = Response code (Some st)
          \<and> status_ok code \<and> b_status st = Some ''Completed'' \<and> \<not> p_cancelRequested p \<and> p_now p < start + complete_timeout)"

lemma initiate_done:
  assumes "initiate_replied f c now out p = Some q" "pg_state q = Done" "pg_state p \<noteq> Done"
  shows "upload_over (AwaitInitiate f c) (Http now out)" "ls_enabled (pg_storage p) \<Longrightarrow> loadSession (pg_storage q) = None"
proof -
  obtain init where init: "apiInitiate_result out = Inr init" "b_alreadyExists init = Some True"
    using assms by (auto simp: initiate_replied_def split: sum.splits if_splits option.splits)
  then obtain st where "out = Response st (Some init)" "status_ok st"
    by (auto simp: apiInitiate_result_def json_or_empty_def empty_reply_def Let_def split: outcome.splits if_splits option.splits)
  then show "upload_over (AwaitInitiate f c) (Http now out)" using init by (auto simp: upload_over_def)
  show "loadSession (pg_storage q) = None" if "ls_enabled (pg_storage p)"
    using that assms(1) init by (auto simp: initiate_replied_def widget_defs load_after_clear)
qed

lemma run_done_forgets:
  "ls_enabled (pg_storage p) \<Longrightarrow> loadSession (pg_storage (run_done cx n p)) = None" "pg_currentUploadId (run_done cx n p) = None"
  by (simp_all add: run_done_def run_returns_def widget_defs load_after_clear)

lemma complete_done:
  assumes "pg_state (complete_replied cx out p) = Done" "pg_state p \<noteq> Done"
  shows "upload_over (AwaitComplete cx) (Http now out)" "\<exists>name. complete_replied cx out p = run_done cx name p"
proof -
  obtain c where c: "apiComplete_result out = Inr c" "\<not> c_accepted c" "complete_replied cx out p = run_done cx (js_or (c_path c) (f_name (cx_file cx))) p"
    using assms by (auto simp: complete_replied_def split: sum.splits if_splits)
  then obtain st body where "out = Response st body" "status_ok st" "st \<noteq> 202" "b_status (json_or_empty body) \<noteq> Some ''Completing''"
    by (auto simp: apiComplete_result_def Let_def split: outcome.splits if_splits)
  then show "upload_over (AwaitComplete cx) (Http now out)" by (auto simp: upload_over_def json_or_empty_def)
  show "\<exists>name. complete_replied cx out p = run_done cx name p" using c(3) by blast
qed

lemma merge_done:
  assumes "continue (AwaitMerge cx) r p = Some q" "pg_state q = Done" "pg_state p \<noteq> Done"
  shows "upload_over (AwaitMerge cx) r" "\<exists>name. q = run_done cx name p"
proof -
  obtain start ps where r: "r = Polls start ps" using assms(1) by (cases r) auto
  then obtain st where st: "waitForComplete complete_timeout start 0 ps = WaitReturns st" "q = merge_ended cx (WaitReturns st) p"
    using assms by (auto simp: merge_ended_def split: wait_result.splits)
  from waitForComplete_sound [OF st(1)] r show "upload_over (AwaitMerge cx) r" by (auto simp: upload_over_def)
  show "\<exists>name. q = run_done cx name p" using st(2) by (auto simp: merge_ended_def)
qed

lemma continue_not_done:
  assumes "continue t r p = Some q" "pg_state p \<noteq> Done" "\<And>f c. t \<noteq> AwaitInitiate f c" "\<And>cx. t \<noteq> AwaitComplete cx" "\<And>cx. t \<noteq> AwaitMerge cx"
  shows "pg_state q \<noteq> Done"
proof (cases t)
  case (AwaitRun cx received sp)
  then obtain u where "q = run_loop_ended cx u p" using assms(1) by (cases r) (auto split: option.splits if_splits)
  then show ?thesis using steps_not_done(8) [OF assms(2)] by simp
next
  case (AwaitBuffer f)
  then show ?thesis using assms(1) steps_not_done(2) [OF assms(2)] by (cases r) auto
next
  case (AwaitDigest f)
  have "pg_state (progress 100 l p) \<noteq> Done" for l using assms(2) by simp
  then show ?thesis using AwaitDigest assms(1) steps_not_done(1) by (cases r) auto
next
  case (AwaitWorker f)
  then show ?thesis using assms(1) steps_not_done(1) [OF assms(2)] by (cases r) auto
next
  case AwaitPauseStatus
  then show ?thesis using assms(1) steps_not_done(9) [OF assms(2)] by (cases r) auto
next
  case (AwaitBannerStatus i f)
  then show ?thesis using assms(1) steps_not_done(10) [OF assms(2)] by (cases r) auto
next
  case AwaitErrorAbort
  then show ?thesis using assms(1,2) by (cases r) auto
next
  case AwaitCancelAbort
  then show ?thesis using assms(1,2) by (cases r) auto
next
  case (AwaitCheckResume session)
  then show ?thesis using assms(1,2) by (cases r) auto
next
  case AwaitDiscard
  then show ?thesis using assms(1,2) by (cases r) auto
qed (use assms in auto)

lemma click_not_done:
  assumes "page_step HAS_SUBTLE e p = Some q" "pg_state p \<noteq> Done" "\<And>k r. e \<noteq> Deliver k r"
  shows "pg_state q \<noteq> Done"
proof (cases e)
  case (SelectFile f)
  then show ?thesis using assms(1,2) by (auto split: if_splits)
next
  case ClickStart
  then show ?thesis using assms(1) steps_not_done(3) [OF assms(2)] by (auto split: if_splits)
next
  case ClickPauseBtn
  then show ?thesis using assms(1) steps_not_done(4) [OF assms(2)] by (auto split: if_splits)
next
  case ClickCancelBtn
  then show ?thesis using assms(1) steps_not_done(5) [OF assms(2)] by (auto split: if_splits)
next
  case ClickResume
  then show ?thesis using assms(1) steps_not_done(6) [OF assms(2)] by (auto split: option.splits)
next
  case ClickDiscard
  then show ?thesis using assms(1) steps_not_done(7) [OF assms(2)] by (auto split: option.splits)
next
  case (HashProgress n)
  then show ?thesis using assms(1,2) by (auto split: if_splits)
qed (use assms in auto)

lemma continue_done:
  assumes "continue t r p = Some q" "pg_state q = Done" "pg_state p \<noteq> Done" "ls_enabled (pg_storage p)"
  shows "upload_over t r \<and> loadSession (pg_storage q) = None \<and> ((\<exists>f c. t = AwaitInitiate f c) \<or> pg_currentUploadId q = None)"
proof -
  consider f c where "t = AwaitInitiate f c" | cx where "t = AwaitComplete cx" | cx where "t = AwaitMerge cx"
    using continue_not_done [OF assms(1,3)] assms(2) by blast
  then consider (init) f c now out where "t = AwaitInitiate f c" "r = Http now out"
    | (complete) cx now out where "t = AwaitComplete cx" "r = Http now out" | (merge) cx where "t = AwaitMerge cx"
    using assms(1) by cases (cases r; auto)+
  then show ?thesis
  proof cases
    case init
    with assms(1) have "initiate_replied f c now out p = Some q" by simp
    from initiate_done [OF this assms(2,3)] init assms(4) show ?thesis by blast
  next
    case complete
    with assms(1) have q: "q = complete_replied cx out p" by simp
    from complete_done(1) [of cx out p now] complete_done(2) [of cx out p] complete q assms(2-4) run_done_forgets show ?thesis by metis
  next
    case merge
    with merge_done [of cx r p q] assms run_done_forgets show ?thesis by metis
  qed
qed

text \<open>C32. The page goes to the state done only when the server has said that the content is there: by a result of a request that
  the page was waiting for, which is a reply to \<open>initiate\<close> that the content exists, a successful reply to \<open>complete\<close> that is
  not an acceptance for background work, or a status poll with the status \<open>Completed\<close>. Then the stored session is gone, and after an
  upload also the current upload.\<close>

theorem done_only_when_completed:
  assumes "page_step HAS_SUBTLE e p = Some q" and "pg_state q = Done" and "pg_state p \<noteq> Done" and "ls_enabled (pg_storage p)"
  shows "\<exists>k r. e = Deliver k r \<and> k < length (pg_tasks p) \<and> upload_over (pg_tasks p ! k) r \<and> loadSession (pg_storage q) = None
    \<and> ((\<exists>f c. pg_tasks p ! k = AwaitInitiate f c) \<or> pg_currentUploadId q = None)"
proof -
  obtain k r where e: "e = Deliver k r"
    using click_not_done [OF assms(1,3)] assms(2) by blast
  then have k: "k < length (pg_tasks p)" "continue (pg_tasks p ! k) r (drop_task k p) = Some q" using assms(1) by (simp_all split: if_splits)
  moreover have "ls_enabled (pg_storage (drop_task k p))" using assms(4) by (simp add: drop_task_def)
  ultimately show ?thesis using continue_done [OF k(2) assms(2)] assms(3) e by auto
qed

text \<open>A file whose content the server has.\<close>

theorem done_only_when_completed_witness:
  "\<exists>p q. exec_events (page_step True) [SelectFile (Some demo_file), ClickStart, Deliver 0 Resolved,
        Deliver 0 (Hex ''h'')] (uploaderInit None demo_storage) = Some p
     \<and> page_step True (Deliver 0 (Http 0 (Response 200 (Some (empty_reply\<lparr>b_alreadyExists := Some True\<rparr>))))) p = Some q
     \<and> pg_state q = Done \<and> loadSession (pg_storage q) = None"
proof -
  have "\<exists>p q. exec_events (page_step True) [SelectFile (Some demo_file), ClickStart, Deliver 0 Resolved,
        Deliver 0 (Hex ''h'')] (uploaderInit None demo_storage) = Some p \<and> pg_state p = Hashing \<and> ls_enabled (pg_storage p)
     \<and> page_step True (Deliver 0 (Http 0 (Response 200 (Some (empty_reply\<lparr>b_alreadyExists := Some True\<rparr>))))) p = Some q
     \<and> pg_state q = Done"
    by (simp add: demo_eval)
  then obtain p q where p: "exec_events (page_step True) [SelectFile (Some demo_file), ClickStart, Deliver 0 Resolved,
        Deliver 0 (Hex ''h'')] (uploaderInit None demo_storage) = Some p" "pg_state p = Hashing" "ls_enabled (pg_storage p)"
     "page_step True (Deliver 0 (Http 0 (Response 200 (Some (empty_reply\<lparr>b_alreadyExists := Some True\<rparr>))))) p = Some q"
     "pg_state q = Done" by blast
  have "pg_state p \<noteq> Done" using p(2) by simp
  from done_only_when_completed [OF p(4,5) this p(3)] p show ?thesis by blast
qed

text \<open>Two runs can be under way at once: the banner stays up when the user starts a fresh upload
  instead of resuming, and its Resume button is never disabled, so both end up running with the same
  \<open>activeWorkers\<close>, pause and cancel variables.\<close>

theorem two_runs_at_once:
  "\<exists>q cx1 cx2 rs1 rs2 sp1 sp2. exec_events (page_step True)
      [Deliver 0 (Http 1 (Response 200 (Some demo_status))), SelectFile (Some demo_file), ClickStart,
       Deliver 0 Resolved, Deliver 0 (Hex ''h''), Deliver 0 (Http 2 init_reply),
       ClickResume, Deliver 1 (Http 3 (Response 200 (Some demo_status)))]
      (uploaderInit None (pg_storage (runUpload demo_ctx [] 0 (uploaderInit None demo_storage)))) = Some q
    \<and> pg_tasks q = [AwaitRun cx1 rs1 sp1, AwaitRun cx2 rs2 sp2] \<and> cx_caller cx1 = FromStart \<and> cx_caller cx2 = FromBanner"
proof -
  let ?m = "\<lparr>m_uploadId = ''u1'', m_fileName = f_name demo_file, m_fileSize = f_size demo_file,
      m_totalChunks = 1, m_savedAt = 0\<rparr>"
  have "loadSession (saveSession ?m demo_storage) = Some (meta_object ?m)" by (rule saved_session) simp_all
  moreover have "pg_storage (uploaderInit None demo_storage) = demo_storage"
    by (simp add: uploaderInit_def widget_defs)
  ultimately show ?thesis
    by (simp add: run_storage uploaderInit_def checkResume_def demo_pending pending_reply_def demo_status_def
        demo_eval apiStatus_result_def received_of_def)
qed

end
