(* ===== verification/Server_Repository.thy ===== *)
theory Server_Repository
  imports Transition_System
begin

text \<open>
  Upload sessions (\<open>src/WebApi/Domain\<close>) and the two repositories that keep them: the dictionary of
  \<open>InMemoryUploadRepository\<close> and the table of \<open>EfUploadRepository\<close>. What the service relies on, that every change of
  status is a compare-and-set on the old one, is the locale \<open>upload_repository\<close>; both repositories are instances.

  A \<open>Guid\<close> is its printed form, times are seconds, and a dictionary is an association list in the order of
  insertion (the order matters only for ties in a search). The legacy field \<open>ReceivedChunksCsv\<close>, which the
  service never touches, is left out.
\<close>

section \<open>Sessions\<close>

type_synonym guid = string
type_synonym time = nat

datatype upload_status = StPending | StCompleted | StExpired | StAborted | StFailed | StCompleting

record upload_session =
  s_Id :: guid
  s_FileName :: string
  s_FinalFileName :: "string option"
  s_TotalSize :: int
  s_ChunkSize :: int
  s_TotalChunks :: nat
  s_Status :: upload_status
  s_Version :: nat
  s_CreatedAt :: time
  s_CompletedAt :: "time option"
  s_ExpiresAt :: time
  s_Checksum :: "string option"
  s_ContentFingerprint :: "string option"
  s_ContentType :: "string option"
  s_ClientIp :: "string option"

definition active :: "upload_status \<Rightarrow> bool" where
  "active s \<longleftrightarrow> s = StPending \<or> s = StCompleting"

definition IsExpired :: "time \<Rightarrow> upload_session \<Rightarrow> bool" where
  "IsExpired now s \<longleftrightarrow> active (s_Status s) \<and> s_ExpiresAt s \<le> now"

text \<open>\<open>string.Equals(a, b, OrdinalIgnoreCase)\<close> with a possibly null first argument, and \<open>string.IsNullOrWhiteSpace\<close>.\<close>

definition equals_ignore_case :: "string option \<Rightarrow> string \<Rightarrow> bool" where
  "equals_ignore_case a b \<longleftrightarrow> map_option (map to_lower) a = Some (map to_lower b)"

definition blank :: "string option \<Rightarrow> bool" where
  "blank s \<longleftrightarrow> (case s of None \<Rightarrow> True | Some t \<Rightarrow> list_all is_white_space t)"

definition starts_with :: "string \<Rightarrow> string \<Rightarrow> bool" where
  "starts_with p s \<longleftrightarrow> take (length p) s = p"

definition strip_start :: "string \<Rightarrow> string \<Rightarrow> string" where
  "strip_start p s = (if starts_with p s then drop (length p) s else s)"

section \<open>The dictionary\<close>

type_synonym store = "(guid \<times> upload_session) list"

definition GetAsync :: "store \<Rightarrow> guid \<Rightarrow> upload_session option" where
  "GetAsync st i = map_of st i"

fun put :: "'k \<Rightarrow> 'v \<Rightarrow> ('k \<times> 'v) list \<Rightarrow> ('k \<times> 'v) list" where
  "put i s [] = [(i, s)]"
| "put i s ((j, t) # st) = (if j = i then (i, s) # st else (j, t) # put i s st)"

definition AddAsync :: "upload_session \<Rightarrow> store \<Rightarrow> store" where
  "AddAsync s st = put (s_Id s) (s\<lparr>s_Version := 0\<rparr>) st"

text \<open>\<open>UpdateAsync\<close> throws when the session is unknown or was written by someone else in the meantime.\<close>

definition UpdateAsync :: "upload_session \<Rightarrow> store \<Rightarrow> store option" where
  "UpdateAsync s st =
     (case map_of st (s_Id s) of
        None \<Rightarrow> None
      | Some current \<Rightarrow>
          if s_Version current \<noteq> s_Version s then None
          else Some (put (s_Id s) (s\<lparr>s_Version := s_Version current + 1\<rparr>) st))"

definition DeleteAsync :: "upload_session \<Rightarrow> store \<Rightarrow> store" where
  "DeleteAsync s st = filter (\<lambda>(i, _). i \<noteq> s_Id s) st"

definition GetExpiredPendingAsync :: "time \<Rightarrow> store \<Rightarrow> upload_session list" where
  "GetExpiredPendingAsync now st = filter (\<lambda>s. active (s_Status s) \<and> s_ExpiresAt s \<le> now) (map snd st)"

text \<open>\<open>OrderByDescending(CompletedAt).FirstOrDefault()\<close>: the first of the latest; null is the smallest.\<close>

definition later :: "time option \<Rightarrow> time option \<Rightarrow> bool" where
  "later a b \<longleftrightarrow> (case (a, b) of (Some x, Some y) \<Rightarrow> y < x | (Some x, None) \<Rightarrow> True | _ \<Rightarrow> False)"

fun latest :: "upload_session list \<Rightarrow> upload_session option" where
  "latest [] = None"
| "latest (s # ss) =
     (case latest ss of
        None \<Rightarrow> Some s
      | Some t \<Rightarrow> Some (if later (s_CompletedAt t) (s_CompletedAt s) then t else s))"

definition completed_with :: "(upload_session \<Rightarrow> string option) \<Rightarrow> string \<Rightarrow> int \<Rightarrow> upload_session \<Rightarrow> bool" where
  "completed_with key k totalSize s \<longleftrightarrow> s_Status s = StCompleted \<and> s_TotalSize s = totalSize
     \<and> equals_ignore_case (key s) k \<and> s_FinalFileName s \<noteq> None \<and> s_FinalFileName s \<noteq> Some []"

definition FindCompletedByContentAsync :: "string \<Rightarrow> int \<Rightarrow> store \<Rightarrow> upload_session option" where
  "FindCompletedByContentAsync checksum totalSize st =
     latest (filter (completed_with s_Checksum (strip_start ''sha256:'' (map to_lower (str_trim checksum))) totalSize) (map snd st))"

definition FindCompletedByFingerprintAsync :: "string \<Rightarrow> int \<Rightarrow> store \<Rightarrow> upload_session option" where
  "FindCompletedByFingerprintAsync fingerprint totalSize st =
     (let fp = map to_lower (str_trim fingerprint);
          fp' = (if starts_with ''fp:'' fp then drop 3 fp else if starts_with ''sample:'' fp then drop 7 fp else fp)
      in latest (filter (completed_with s_ContentFingerprint fp' totalSize) (map snd st)))"

definition CountActivePendingByIpAsync :: "time \<Rightarrow> string \<Rightarrow> store \<Rightarrow> nat" where
  "CountActivePendingByIpAsync now ip st =
     length (filter (\<lambda>s. s_Status s = StPending \<and> now < s_ExpiresAt s \<and> equals_ignore_case (s_ClientIp s) ip) (map snd st))"

definition sum_sizes :: "(upload_session \<Rightarrow> bool) \<Rightarrow> store \<Rightarrow> int" where
  "sum_sizes P st = sum_list (map s_TotalSize (filter P (map snd st)))"

definition SumCompletedBytesAsync :: "store \<Rightarrow> int" where
  "SumCompletedBytesAsync = sum_sizes (\<lambda>s. s_Status s = StCompleted)"

definition SumCompletedBytesByIpAsync :: "string \<Rightarrow> store \<Rightarrow> int" where
  "SumCompletedBytesByIpAsync ip = sum_sizes (\<lambda>s. s_Status s = StCompleted \<and> equals_ignore_case (s_ClientIp s) ip)"

definition SumActivePendingBytesAsync :: "time \<Rightarrow> store \<Rightarrow> int" where
  "SumActivePendingBytesAsync now = sum_sizes (\<lambda>s. active (s_Status s) \<and> now < s_ExpiresAt s)"

definition SumActivePendingBytesByIpAsync :: "time \<Rightarrow> string \<Rightarrow> store \<Rightarrow> int" where
  "SumActivePendingBytesByIpAsync now ip =
     sum_sizes (\<lambda>s. active (s_Status s) \<and> now < s_ExpiresAt s \<and> equals_ignore_case (s_ClientIp s) ip)"

text \<open>The shape of the operations under the lock: a test on the current session, and the session that replaces it.\<close>

definition try_update :: "(upload_session \<Rightarrow> bool) \<Rightarrow> (upload_session \<Rightarrow> upload_session) \<Rightarrow> guid \<Rightarrow> store \<Rightarrow> bool \<times> store" where
  "try_update P f i st =
     (case map_of st i of
        None \<Rightarrow> (False, st)
      | Some current \<Rightarrow>
          if P current then (True, put i ((f current)\<lparr>s_Version := s_Version current + 1\<rparr>) st) else (False, st))"

definition TryBeginCompleteAsync :: "guid \<Rightarrow> store \<Rightarrow> bool \<times> store" where
  "TryBeginCompleteAsync = try_update (\<lambda>s. s_Status s = StPending) (\<lambda>s. s\<lparr>s_Status := StCompleting\<rparr>)"

definition TryFinishCompleteAsync :: "time \<Rightarrow> string \<Rightarrow> string option \<Rightarrow> string option \<Rightarrow> guid \<Rightarrow> store \<Rightarrow> bool \<times> store" where
  "TryFinishCompleteAsync now finalFileName checksum fingerprint =
     try_update (\<lambda>s. s_Status s = StCompleting)
       (\<lambda>s. s\<lparr>s_Status := StCompleted, s_FinalFileName := Some finalFileName, s_Checksum := checksum,
              s_ContentFingerprint := (case fingerprint of None \<Rightarrow> s_ContentFingerprint s | x \<Rightarrow> x), s_CompletedAt := Some now\<rparr>)"

definition TryFailCompleteAsync :: "string option \<Rightarrow> guid \<Rightarrow> store \<Rightarrow> bool \<times> store" where
  "TryFailCompleteAsync checksum =
     try_update (\<lambda>s. s_Status s = StCompleting)
       (\<lambda>s. s\<lparr>s_Status := StFailed, s_Checksum := (case checksum of None \<Rightarrow> s_Checksum s | x \<Rightarrow> x)\<rparr>)"

definition TryClaimExpiredAsync :: "time \<Rightarrow> guid \<Rightarrow> store \<Rightarrow> bool \<times> store" where
  "TryClaimExpiredAsync now = try_update (\<lambda>s. active (s_Status s) \<and> s_ExpiresAt s \<le> now) (\<lambda>s. s\<lparr>s_Status := StExpired\<rparr>)"

definition TryAbortAsync :: "guid \<Rightarrow> store \<Rightarrow> bool \<times> store" where
  "TryAbortAsync = try_update (\<lambda>s. s_Status s = StPending) (\<lambda>s. s\<lparr>s_Status := StAborted\<rparr>)"

section \<open>The table\<close>

text \<open>\<open>EfUploadRepository\<close>: each operation is one \<open>UPDATE ... WHERE\<close>, which reports the number of rows it changed. The
  identifier is the primary key.\<close>

type_synonym table = "upload_session list"

definition ef_GetAsync :: "table \<Rightarrow> guid \<Rightarrow> upload_session option" where
  "ef_GetAsync db i = List.find (\<lambda>s. s_Id s = i) db"

text \<open>\<open>AddAsync\<close> throws when the key is taken. \<open>UpdateAsync\<close> copies every column but the identifier and the time of
  creation; it throws when the row is gone or has another version.\<close>

definition ef_AddAsync :: "upload_session \<Rightarrow> table \<Rightarrow> table option" where
  "ef_AddAsync s db = (if ef_GetAsync db (s_Id s) = None then Some (db @ [s\<lparr>s_Version := 0\<rparr>]) else None)"

definition ef_UpdateAsync :: "upload_session \<Rightarrow> table \<Rightarrow> table option" where
  "ef_UpdateAsync s db =
     (case ef_GetAsync db (s_Id s) of
        None \<Rightarrow> None
      | Some tracked \<Rightarrow>
          if s_Version tracked \<noteq> s_Version s then None
          else Some (map (\<lambda>t. if s_Id t = s_Id s then s\<lparr>s_CreatedAt := s_CreatedAt t, s_Version := s_Version s + 1\<rparr> else t) db))"

definition ef_DeleteAsync :: "upload_session \<Rightarrow> table \<Rightarrow> table" where
  "ef_DeleteAsync s db = filter (\<lambda>t. s_Id t \<noteq> s_Id s) db"

definition execute_update :: "(upload_session \<Rightarrow> bool) \<Rightarrow> (upload_session \<Rightarrow> upload_session) \<Rightarrow> guid \<Rightarrow> table \<Rightarrow> bool \<times> table" where
  "execute_update P f i db =
     (length (filter (\<lambda>s. s_Id s = i \<and> P s) db) = 1,
      map (\<lambda>s. if s_Id s = i \<and> P s then (f s)\<lparr>s_Version := s_Version s + 1\<rparr> else s) db)"

definition ef_TryBeginCompleteAsync :: "guid \<Rightarrow> table \<Rightarrow> bool \<times> table" where
  "ef_TryBeginCompleteAsync = execute_update (\<lambda>s. s_Status s = StPending) (\<lambda>s. s\<lparr>s_Status := StCompleting\<rparr>)"

definition ef_TryFinishCompleteAsync :: "time \<Rightarrow> string \<Rightarrow> string option \<Rightarrow> string option \<Rightarrow> guid \<Rightarrow> table \<Rightarrow> bool \<times> table" where
  "ef_TryFinishCompleteAsync now finalFileName checksum fingerprint =
     execute_update (\<lambda>s. s_Status s = StCompleting)
       (\<lambda>s. s\<lparr>s_Status := StCompleted, s_FinalFileName := Some finalFileName, s_Checksum := checksum,
              s_ContentFingerprint := fingerprint, s_CompletedAt := Some now\<rparr>)"

definition ef_TryFailCompleteAsync :: "string option \<Rightarrow> guid \<Rightarrow> table \<Rightarrow> bool \<times> table" where
  "ef_TryFailCompleteAsync checksum =
     execute_update (\<lambda>s. s_Status s = StCompleting) (\<lambda>s. s\<lparr>s_Status := StFailed, s_Checksum := checksum\<rparr>)"

definition ef_TryClaimExpiredAsync :: "time \<Rightarrow> guid \<Rightarrow> table \<Rightarrow> bool \<times> table" where
  "ef_TryClaimExpiredAsync now =
     execute_update (\<lambda>s. active (s_Status s) \<and> s_ExpiresAt s \<le> now) (\<lambda>s. s\<lparr>s_Status := StExpired\<rparr>)"

definition ef_TryAbortAsync :: "guid \<Rightarrow> table \<Rightarrow> bool \<times> table" where
  "ef_TryAbortAsync = execute_update (\<lambda>s. s_Status s = StPending) (\<lambda>s. s\<lparr>s_Status := StAborted\<rparr>)"

section \<open>The contract: changes of status are compare-and-set\<close>

datatype repo_op = BeginOp guid | FinishOp time string "string option" "string option" guid | FailOp "string option" guid
  | ClaimOp time guid | AbortOp guid

fun op_id :: "repo_op \<Rightarrow> guid" where
  "op_id (BeginOp i) = i"
| "op_id (FinishOp now name checksum fp i) = i"
| "op_id (FailOp checksum i) = i"
| "op_id (ClaimOp now i) = i"
| "op_id (AbortOp i) = i"

text \<open>The sessions an operation accepts, and the status it leaves.\<close>

fun op_from :: "repo_op \<Rightarrow> upload_session \<Rightarrow> bool" where
  "op_from (BeginOp i) s = (s_Status s = StPending)"
| "op_from (FinishOp now name checksum fp i) s = (s_Status s = StCompleting)"
| "op_from (FailOp checksum i) s = (s_Status s = StCompleting)"
| "op_from (ClaimOp now i) s = IsExpired now s"
| "op_from (AbortOp i) s = (s_Status s = StPending)"

fun op_to :: "repo_op \<Rightarrow> upload_status" where
  "op_to (BeginOp i) = StCompleting"
| "op_to (FinishOp now name checksum fp i) = StCompleted"
| "op_to (FailOp checksum i) = StFailed"
| "op_to (ClaimOp now i) = StExpired"
| "op_to (AbortOp i) = StAborted"

fun repo_step :: "repo_op \<Rightarrow> store \<Rightarrow> bool \<times> store" where
  "repo_step (BeginOp i) st = TryBeginCompleteAsync i st"
| "repo_step (FinishOp now name checksum fp i) st = TryFinishCompleteAsync now name checksum fp i st"
| "repo_step (FailOp checksum i) st = TryFailCompleteAsync checksum i st"
| "repo_step (ClaimOp now i) st = TryClaimExpiredAsync now i st"
| "repo_step (AbortOp i) st = TryAbortAsync i st"

fun ef_step :: "repo_op \<Rightarrow> table \<Rightarrow> bool \<times> table" where
  "ef_step (BeginOp i) db = ef_TryBeginCompleteAsync i db"
| "ef_step (FinishOp now name checksum fp i) db = ef_TryFinishCompleteAsync now name checksum fp i db"
| "ef_step (FailOp checksum i) db = ef_TryFailCompleteAsync checksum i db"
| "ef_step (ClaimOp now i) db = ef_TryClaimExpiredAsync now i db"
| "ef_step (AbortOp i) db = ef_TryAbortAsync i db"

text \<open>Operations of any number of nodes, in the order in which the store performs them.\<close>

fun run_ops :: "(repo_op \<Rightarrow> 'st \<Rightarrow> bool \<times> 'st) \<Rightarrow> repo_op list \<Rightarrow> 'st \<Rightarrow> (repo_op \<times> bool) list \<times> 'st" where
  "run_ops step [] st = ([], st)"
| "run_ops step (a # as) st =
     (let (b, st1) = step a st; (bs, st2) = run_ops step as st1 in ((a, b) # bs, st2))"

definition won :: "(repo_op \<times> bool) list \<Rightarrow> guid \<Rightarrow> repo_op list" where
  "won bs i = map fst (filter (\<lambda>(a, b). b \<and> op_id a = i) bs)"

text \<open>The edges of the life of a session.\<close>

fun status_edge :: "upload_status \<Rightarrow> upload_status \<Rightarrow> bool" where
  "status_edge StPending t = (t \<in> {StCompleting, StAborted, StExpired})"
| "status_edge StCompleting t = (t \<in> {StCompleted, StFailed, StExpired})"
| "status_edge s t = False"

text \<open>The operations a session with this status may still win.\<close>

fun history :: "upload_status \<Rightarrow> guid \<Rightarrow> repo_op list \<Rightarrow> bool" where
  "history StPending i w \<longleftrightarrow> w = []
     \<or> (\<exists>a. w = [a] \<and> op_to a \<in> {StCompleting, StAborted, StExpired})
     \<or> (\<exists>a. w = [BeginOp i, a] \<and> op_to a \<in> {StCompleted, StFailed, StExpired})"
| "history StCompleting i w \<longleftrightarrow> w = [] \<or> (\<exists>a. w = [a] \<and> op_to a \<in> {StCompleted, StFailed, StExpired})"
| "history s i w \<longleftrightarrow> w = []"

lemma history_Nil: "history s i []"
  by (cases s) auto

lemma history_Cons: "status_edge s (op_to a) \<Longrightarrow> op_id a = i \<Longrightarrow> history (op_to a) i w \<Longrightarrow> history s i (a # w)"
  by (cases s; cases a) auto

locale upload_repository =
  fixes get :: "'st \<Rightarrow> guid \<Rightarrow> upload_session option"
    and step :: "repo_op \<Rightarrow> 'st \<Rightarrow> bool \<times> 'st"
    and wf :: "'st \<Rightarrow> bool"
  assumes step_wf: "wf st \<Longrightarrow> wf (snd (step a st))"
    and step_wins: "wf st \<Longrightarrow> fst (step a st) \<longleftrightarrow> (\<exists>s. get st (op_id a) = Some s \<and> op_from a s)"
    and step_status: "wf st \<Longrightarrow> map_option s_Status (get (snd (step a st)) i) =
      (if fst (step a st) \<and> i = op_id a then Some (op_to a) else map_option s_Status (get st i))"
begin

abbreviation status :: "'st \<Rightarrow> guid \<Rightarrow> upload_status option" where
  "status st i \<equiv> map_option s_Status (get st i)"

lemma step_edge:
  assumes "wf st" "fst (step a st)"
  shows "\<exists>s. status st (op_id a) = Some s \<and> status_edge s (op_to a)"
  using assms step_wins [of st a] by (cases a) (auto simp: IsExpired_def active_def)

lemma run_wf: "wf st \<Longrightarrow> wf (snd (run_ops step as st))"
  by (induction as arbitrary: st) (auto simp: Let_def case_prod_beta step_wf)

lemma run_history: "wf st \<Longrightarrow> status st i = Some s \<Longrightarrow> history s i (won (fst (run_ops step as st)) i)"
proof (induction as arbitrary: st s)
  case (Cons a as)
  obtain b st1 where st1: "step a st = (b, st1)" by (cases "step a st")
  obtain bs st2 where st2: "run_ops step as st1 = (bs, st2)" by (cases "run_ops step as st1")
  have wf1: "wf st1" using Cons.prems(1) step_wf [of st a] st1 by simp
  have stat: "status st1 i = (if b \<and> op_id a = i then Some (op_to a) else Some s)"
    using step_status [OF Cons.prems(1), of a i] st1 Cons.prems(2) by auto
  show ?case
  proof (cases "b \<and> op_id a = i")
    case True
    then have "status_edge s (op_to a)" using step_edge [of st a] st1 Cons.prems by auto
    moreover have "history (op_to a) i (won bs i)" using Cons.IH [OF wf1] stat True st2 by fastforce
    ultimately show ?thesis using True by (simp add: st1 st2 won_def history_Cons)
  next
    case False
    then have "history s i (won bs i)" using Cons.IH [OF wf1] stat st2 by fastforce
    then show ?thesis using False by (auto simp: st1 st2 won_def)
  qed
qed (simp add: won_def history_Nil)

end

section \<open>Both repositories keep the contract\<close>

lemma map_of_put: "map_of (put i s st) j = (if j = i then Some s else map_of st j)"
  by (induction st) auto

lemma try_update_status:
  assumes "\<And>s. s_Status (f s) = t"
  shows "fst (try_update P f i st) = (\<exists>s. map_of st i = Some s \<and> P s)"
    and "map_option s_Status (map_of (snd (try_update P f i st)) j) =
      (if fst (try_update P f i st) \<and> j = i then Some t else map_option s_Status (map_of st j))"
  using assms by (auto simp: try_update_def map_of_put split: option.split)

lemmas repo_ops = TryBeginCompleteAsync_def TryFinishCompleteAsync_def TryFailCompleteAsync_def TryClaimExpiredAsync_def TryAbortAsync_def
lemmas ef_ops = ef_TryBeginCompleteAsync_def ef_TryFinishCompleteAsync_def ef_TryFailCompleteAsync_def ef_TryClaimExpiredAsync_def
  ef_TryAbortAsync_def

interpretation memory: upload_repository GetAsync repo_step "\<lambda>st. True"
proof
  fix st :: store and a i
  show "fst (repo_step a st) = (\<exists>s. GetAsync st (op_id a) = Some s \<and> op_from a s)"
    by (cases a) (simp_all add: repo_ops GetAsync_def IsExpired_def try_update_status)
  show "map_option s_Status (GetAsync (snd (repo_step a st)) i) =
      (if fst (repo_step a st) \<and> i = op_id a then Some (op_to a) else map_option s_Status (GetAsync st i))"
    by (cases a) (simp_all add: repo_ops GetAsync_def try_update_status(2))
qed simp

lemma find_map_same: "(\<And>x. P (f x) = P x) \<Longrightarrow> List.find P (map f xs) = map_option f (List.find P xs)"
  by (induction xs) auto

lemma filter_key: "distinct (map k xs) \<Longrightarrow> filter (\<lambda>x. k x = i \<and> P x) xs =
    (case List.find (\<lambda>x. k x = i) xs of Some x \<Rightarrow> if P x then [x] else [] | None \<Rightarrow> [])"
proof (induction xs)
  case (Cons x xs)
  then have "k x = i \<Longrightarrow> List.find (\<lambda>x. k x = i) xs = None" by (auto simp: find_None_iff) (metis imageI)
  with Cons show ?case by (cases "k x = i") simp_all
qed simp

lemma execute_update_status:
  assumes "distinct (map s_Id db)" and f: "\<And>s. s_Id (f s) = s_Id s" "\<And>s. s_Status (f s) = t"
  shows "fst (execute_update P f i db) = (\<exists>s. ef_GetAsync db i = Some s \<and> P s)"
    and "map_option s_Status (ef_GetAsync (snd (execute_update P f i db)) j) =
      (if fst (execute_update P f i db) \<and> j = i then Some t else map_option s_Status (ef_GetAsync db j))"
    and "map s_Id (snd (execute_update P f i db)) = map s_Id db"
proof -
  show w: "fst (execute_update P f i db) = (\<exists>s. ef_GetAsync db i = Some s \<and> P s)"
    by (simp add: execute_update_def ef_GetAsync_def filter_key [OF assms(1)] split: option.split)
  let ?u = "\<lambda>s. if s_Id s = i \<and> P s then (f s)\<lparr>s_Version := s_Version s + 1\<rparr> else s"
  have "ef_GetAsync (snd (execute_update P f i db)) j = map_option ?u (ef_GetAsync db j)"
    using f(1) by (simp add: execute_update_def ef_GetAsync_def find_map_same)
  moreover have "s_Id s = j" if "ef_GetAsync db j = Some s" for s
    using that by (auto simp: ef_GetAsync_def find_Some_iff)
  ultimately show "map_option s_Status (ef_GetAsync (snd (execute_update P f i db)) j) =
      (if fst (execute_update P f i db) \<and> j = i then Some t else map_option s_Status (ef_GetAsync db j))"
    using f(2) unfolding w by (cases "ef_GetAsync db j") auto
  show "map s_Id (snd (execute_update P f i db)) = map s_Id db" using f(1) by (simp add: execute_update_def)
qed

interpretation ef: upload_repository ef_GetAsync ef_step "\<lambda>db. distinct (map s_Id db)"
proof
  fix db :: table and a i
  assume d: "distinct (map s_Id db)"
  show "distinct (map s_Id (snd (ef_step a db)))"
    using d by (cases a) (simp_all add: ef_ops execute_update_status(3) [OF d])
  show "fst (ef_step a db) = (\<exists>s. ef_GetAsync db (op_id a) = Some s \<and> op_from a s)"
    by (cases a) (simp_all add: ef_ops IsExpired_def execute_update_status(1) [OF d])
  show "map_option s_Status (ef_GetAsync (snd (ef_step a db)) i) =
      (if fst (ef_step a db) \<and> i = op_id a then Some (op_to a) else map_option s_Status (ef_GetAsync db i))"
    by (cases a) (simp_all add: ef_ops execute_update_status(2) [OF d])
qed

text \<open>C4. The repositories are the only lock between requests and between server nodes. Whatever operations any number of
  nodes issue, in whatever order, at most one of them wins the right to merge a session, and after it at most one wins to
  finish, fail or expire it; a session that was aborted or expired is never merged. This holds of the dictionary and of the
  database table.\<close>

theorem complete_lease_exclusive:
  assumes "distinct (map s_Id db)"
    and "map_option s_Status (GetAsync st i) = Some StPending" and "map_option s_Status (ef_GetAsync db i) = Some StPending"
  shows "history StPending i (won (fst (run_ops repo_step as st)) i) \<and> history StPending i (won (fst (run_ops ef_step as db)) i)"
  using memory.run_history [OF TrueI assms(2)] ef.run_history [OF assms(1,3)] by blast

definition sample_session :: upload_session where
  "sample_session = \<lparr>s_Id = ''a'', s_FileName = ''f.txt'', s_FinalFileName = None, s_TotalSize = 5, s_ChunkSize = 2,
     s_TotalChunks = 3, s_Status = StPending, s_Version = 0, s_CreatedAt = 0, s_CompletedAt = None, s_ExpiresAt = 100,
     s_Checksum = None, s_ContentFingerprint = None, s_ContentType = None, s_ClientIp = None\<rparr>"

theorem complete_lease_exclusive_witness:
  "won (fst (run_ops ef_step [BeginOp ''a'', BeginOp ''a'', AbortOp ''a''] [sample_session])) ''a'' = [BeginOp ''a'']
   \<and> history StPending ''a'' [BeginOp ''a'']"
proof -
  have s: "distinct (map s_Id [sample_session])" "map_option s_Status (GetAsync [(''a'', sample_session)] ''a'') = Some StPending"
    "map_option s_Status (ef_GetAsync [sample_session] ''a'') = Some StPending" by code_simp+
  have "won (fst (run_ops ef_step [BeginOp ''a'', BeginOp ''a'', AbortOp ''a''] [sample_session])) ''a'' = [BeginOp ''a'']"
    by code_simp
  with complete_lease_exclusive [OF s, of "[BeginOp ''a'', BeginOp ''a'', AbortOp ''a'']"] show ?thesis by metis
qed

end
