(* ===== verification/Server_Storage.thy ===== *)
theory Server_Storage
  imports Server_Repository Sha256_Spec
begin

text \<open>
  The parts and final files on disk (\<open>src/WebApi/Storages/FileSystemStorage.cs\<close>), the two ways to merge parts, and the
  content fingerprint (\<open>src/WebApi/Hashing/ContentFingerprint.cs\<close>). Paths are those of Unix; a final file is known by its
  name in \<open>FinalPath\<close>. Copying through a buffer is copying. A merge that throws leaves what it wrote so far.
  A final name that is a directory cannot be opened; other limits of a file system on names (length, special characters) are not modelled.
\<close>

section \<open>Paths\<close>

definition after_last_of :: "char \<Rightarrow> string \<Rightarrow> string" where
  "after_last_of c s = rev (takeWhile (\<lambda>d. d \<noteq> c) (rev s))"

definition GetFileName :: "string \<Rightarrow> string" where
  "GetFileName path = after_last_of (CHR ''/'') path"

definition GetExtension :: "string \<Rightarrow> string" where
  "GetExtension path =
     (let name = GetFileName path; ext = after_last_of (CHR ''.'') name
      in if CHR ''.'' \<in> set name \<and> ext \<noteq> [] then CHR ''.'' # ext else [])"

definition GetFileNameWithoutExtension :: "string \<Rightarrow> string" where
  "GetFileNameWithoutExtension path =
     (let name = GetFileName path
      in if CHR ''.'' \<in> set name then take (length name - length (after_last_of (CHR ''.'') name) - 1) name else name)"

section \<open>Parts and final files\<close>

record files =
  f_dirs :: "guid list"
  f_parts :: "((guid \<times> nat) \<times> u8array) list"
  f_final :: "(string \<times> u8array) list"

definition part :: "files \<Rightarrow> guid \<Rightarrow> nat \<Rightarrow> u8array option" where
  "part fs i k = map_of (f_parts fs) (i, k)"

definition ChunkExistsAsync :: "files \<Rightarrow> guid \<Rightarrow> nat \<Rightarrow> bool" where
  "ChunkExistsAsync fs i k \<longleftrightarrow> part fs i k \<noteq> None"

definition write_part :: "guid \<Rightarrow> nat \<Rightarrow> u8array \<Rightarrow> files \<Rightarrow> files" where
  "write_part i k data fs = fs\<lparr>f_parts := put (i, k) data (f_parts fs)\<rparr>"

text \<open>\<open>SaveChunkAsync\<close> on a stream creates the directory; on a \<open>PipeReader\<close> it throws when there is none. \<open>data\<close> is what was
  read before the end, or before reading failed.\<close>

definition SaveChunkAsync_stream :: "guid \<Rightarrow> nat \<Rightarrow> u8array \<Rightarrow> files \<Rightarrow> files" where
  "SaveChunkAsync_stream i k data fs = write_part i k data (fs\<lparr>f_dirs := List.insert i (f_dirs fs)\<rparr>)"

definition SaveChunkAsync_pipe :: "guid \<Rightarrow> nat \<Rightarrow> u8array \<Rightarrow> files \<Rightarrow> files option" where
  "SaveChunkAsync_pipe i k data fs = (if i \<in> set (f_dirs fs) then Some (write_part i k data fs) else None)"

definition DeleteChunkAsync :: "guid \<Rightarrow> nat \<Rightarrow> files \<Rightarrow> files" where
  "DeleteChunkAsync i k fs = fs\<lparr>f_parts := filter (\<lambda>p. fst p \<noteq> (i, k)) (f_parts fs)\<rparr>"

definition DeleteTempFolderAsync :: "guid \<Rightarrow> files \<Rightarrow> files" where
  "DeleteTempFolderAsync i fs =
     fs\<lparr>f_dirs := removeAll i (f_dirs fs), f_parts := filter (\<lambda>p. fst (fst p) \<noteq> i) (f_parts fs)\<rparr>"

definition DeleteFinalFileAsync :: "string \<Rightarrow> files \<Rightarrow> files" where
  "DeleteFinalFileAsync name fs = fs\<lparr>f_final := filter (\<lambda>p. fst p \<noteq> GetFileName name) (f_final fs)\<rparr>"

text \<open>The names in \<open>FinalFileName\<close> are bare, so the case of a rooted path does not occur.\<close>

definition FinalObjectExistsAsync :: "string \<Rightarrow> int \<Rightarrow> files \<Rightarrow> bool" where
  "FinalObjectExistsAsync name sz fs \<longleftrightarrow> \<not> blank (Some name) \<and>
     (case map_of (f_final fs) (GetFileName name) of None \<Rightarrow> False | Some c \<Rightarrow> int (length c) = sz)"

definition GetExistingChunkIndexesAsync :: "guid \<Rightarrow> files \<Rightarrow> nat list" where
  "GetExistingChunkIndexesAsync i fs = map (snd \<circ> fst) (filter (\<lambda>p. fst (fst p) = i) (f_parts fs))"

definition VerifyChunksParallelAsync :: "guid \<Rightarrow> nat \<Rightarrow> files \<Rightarrow> nat list \<times> nat" where
  "VerifyChunksParallelAsync i totalChunks fs =
     (filter (\<lambda>k. part fs i k = None) [0..<totalChunks],
      sum_list (map (\<lambda>k. case part fs i k of None \<Rightarrow> 0 | Some c \<Rightarrow> length c) [0..<totalChunks]))"

section \<open>Merging\<close>

definition ResolveFinalPath :: "guid \<Rightarrow> string \<Rightarrow> files \<Rightarrow> string" where
  "ResolveFinalPath i fileName fs =
     (let safeName = GetFileName fileName
      in if map_of (f_final fs) safeName = None then safeName
         else GetFileNameWithoutExtension safeName @ ''_'' @ i @ GetExtension safeName)"

definition write_final :: "string \<Rightarrow> u8array \<Rightarrow> files \<Rightarrow> files" where
  "write_final name data fs = fs\<lparr>f_final := put name data (f_final fs)\<rparr>"

text \<open>Opening the final file for writing throws when its path is a directory: \<open>FinalPath\<close> itself or its parent.\<close>

definition openable :: "string \<Rightarrow> bool" where
  "openable name \<longleftrightarrow> name \<notin> {[], ''.'', ''..''}"

text \<open>The parts one after the other; the flag is false when one is missing.\<close>

fun append_parts :: "files \<Rightarrow> guid \<Rightarrow> nat list \<Rightarrow> u8array \<Rightarrow> bool \<times> u8array" where
  "append_parts fs i [] w = (True, w)"
| "append_parts fs i (k # ks) w = (case part fs i k of None \<Rightarrow> (False, w) | Some c \<Rightarrow> append_parts fs i ks (w @ c))"

text \<open>A file of the given length, overwritten from the start.\<close>

definition overlay :: "nat \<Rightarrow> u8array \<Rightarrow> u8array" where
  "overlay sz w = w @ drop (length w) (replicate sz 0)"

definition MergeSinglePassAsync :: "guid \<Rightarrow> string \<Rightarrow> nat \<Rightarrow> nat \<Rightarrow> files \<Rightarrow> (string \<times> string) option \<times> files" where
  "MergeSinglePassAsync i fileName totalChunks totalSize fs =
     (let name = ResolveFinalPath i fileName fs;
          (ok, w) = append_parts fs i [0..<totalChunks] [];
          fs1 = write_final name (overlay totalSize w) fs
      in if \<not> openable name then (None, fs)
         else if ok \<and> length w = totalSize then (Some (name, sha256_hex_spec w), DeleteTempFolderAsync i fs1)
         else (None, fs1))"

definition write_at :: "nat \<Rightarrow> u8array \<Rightarrow> u8array \<Rightarrow> u8array" where
  "write_at offset data c = take offset c @ data @ drop (offset + length data) c"

text \<open>One copy of the parallel merge: it throws when the part is missing, has another length than expected, or does not fit
  into the mapping.\<close>

definition copy_part :: "files \<Rightarrow> guid \<Rightarrow> nat \<Rightarrow> nat \<Rightarrow> nat \<Rightarrow> nat \<Rightarrow> u8array \<Rightarrow> u8array option" where
  "copy_part fs i totalChunks totalSize chunkSize k c =
     (case part fs i k of
        None \<Rightarrow> None
      | Some data \<Rightarrow>
          let offset = k * chunkSize;
              expectedLen = (if k + 1 = totalChunks then int totalSize - int offset else int chunkSize)
          in if int (length data) \<noteq> expectedLen \<or> totalSize < offset + length data then None
             else Some (write_at offset data c))"

text \<open>The copies in the order in which they are performed, until one throws.\<close>

fun copy_parts :: "files \<Rightarrow> guid \<Rightarrow> nat \<Rightarrow> nat \<Rightarrow> nat \<Rightarrow> nat list \<Rightarrow> u8array \<Rightarrow> bool \<times> u8array" where
  "copy_parts fs i totalChunks totalSize chunkSize [] c = (True, c)"
| "copy_parts fs i totalChunks totalSize chunkSize (k # ks) c =
     (case copy_part fs i totalChunks totalSize chunkSize k c of
        None \<Rightarrow> (False, c)
      | Some c' \<Rightarrow> copy_parts fs i totalChunks totalSize chunkSize ks c')"

definition MergeParallelThenHashAsync ::
  "nat list \<Rightarrow> guid \<Rightarrow> string \<Rightarrow> nat \<Rightarrow> nat \<Rightarrow> nat \<Rightarrow> bool \<Rightarrow> files \<Rightarrow> (string \<times> string) option \<times> files" where
  "MergeParallelThenHashAsync order i fileName totalChunks totalSize chunkSize hash fs =
     (let name = ResolveFinalPath i fileName fs;
          (ok, c) = copy_parts fs i totalChunks totalSize chunkSize order (replicate totalSize 0);
          fs1 = write_final name c fs
      in if \<not> openable name then (None, fs)
         else if ok \<and> length c = totalSize
         then (Some (name, if hash then sha256_hex_spec c else []), DeleteTempFolderAsync i fs1)
         else (None, fs1))"

definition MergeAsync ::
  "bool \<Rightarrow> nat list \<Rightarrow> guid \<Rightarrow> string \<Rightarrow> nat \<Rightarrow> nat \<Rightarrow> nat \<Rightarrow> bool \<Rightarrow> files \<Rightarrow> (string \<times> string) option \<times> files" where
  "MergeAsync singlePass order i fileName totalChunks totalSize chunkSize computeHash fs =
     (if \<not> computeHash then MergeParallelThenHashAsync order i fileName totalChunks totalSize chunkSize False fs
      else if singlePass then MergeSinglePassAsync i fileName totalChunks totalSize fs
      else MergeParallelThenHashAsync order i fileName totalChunks totalSize chunkSize True fs)"

section \<open>Content fingerprints\<close>

definition DefaultSampleBytes :: nat where
  "DefaultSampleBytes = 1024 * 1024"

definition le64 :: "nat \<Rightarrow> u8array" where
  "le64 n = map (\<lambda>k. word_of_nat (n div 256 ^ k)) [0..<8]"

definition ComputeFromSamples :: "nat \<Rightarrow> u8array \<Rightarrow> u8array \<Rightarrow> string" where
  "ComputeFromSamples totalSize head tail = sha256_hex_spec (le64 totalSize @ head @ tail)"

text \<open>The expected size gives way to the length of the file; a file without content has an empty sample.\<close>

definition ComputeFromFileAsync :: "u8array \<Rightarrow> nat \<Rightarrow> nat \<Rightarrow> string" where
  "ComputeFromFileAsync content expectedSize n =
     (let sz = (if 0 < expectedSize then length content else expectedSize)
      in if sz = 0 then ComputeFromSamples 0 [] []
         else if sz \<le> n * 2 then ComputeFromSamples sz (take sz content) []
         else ComputeFromSamples sz (take n content) (take n (drop (sz - n) content)))"

section \<open>Facts about the operations\<close>

lemma part_simps [simp]:
  "part (write_part i k data fs) j l = (if (j, l) = (i, k) then Some data else part fs j l)"
  "part (fs\<lparr>f_dirs := d\<rparr>) j l = part fs j l" "part (write_final name c fs) j l = part fs j l"
  by (simp_all add: part_def write_part_def write_final_def map_of_put)

lemma map_of_filter_key: "map_of (filter (\<lambda>p. P (fst p)) xs) k = (if P k then map_of xs k else None)"
  by (induction xs) auto

lemma part_delete [simp]:
  "part (DeleteTempFolderAsync i fs) j l = (if j = i then None else part fs j l)"
  "part (DeleteChunkAsync i k fs) j l = (if (j, l) = (i, k) then None else part fs j l)"
  using map_of_filter_key [of "\<lambda>q. fst q \<noteq> i" "f_parts fs" "(j, l)"] map_of_filter_key [of "\<lambda>key. key \<noteq> (i, k)" "f_parts fs" "(j, l)"]
  by (simp_all add: part_def DeleteTempFolderAsync_def DeleteChunkAsync_def)

lemma final_simps [simp]:
  "f_final (write_part i k data fs) = f_final fs" "f_final (DeleteTempFolderAsync i fs) = f_final fs"
  "f_final (DeleteChunkAsync i k fs) = f_final fs" "f_final (SaveChunkAsync_stream i k data fs) = f_final fs"
  "map_of (f_final (write_final name c fs)) n = (if n = name then Some c else map_of (f_final fs) n)"
  "SaveChunkAsync_pipe i k data fs = Some fs' \<Longrightarrow> f_final fs' = f_final fs"
  by (auto simp: write_part_def DeleteTempFolderAsync_def DeleteChunkAsync_def SaveChunkAsync_stream_def SaveChunkAsync_pipe_def
      write_final_def map_of_put split: if_splits)

lemma append_parts_all:
  assumes "\<And>k. k \<in> set ks \<Longrightarrow> part fs i k = Some (p k)"
  shows "append_parts fs i ks w = (True, w @ concat (map p ks))"
  using assms by (induction ks arbitrary: w) auto

text \<open>A list seen as consecutive pieces of the same length, the last one shorter.\<close>

definition piece :: "nat \<Rightarrow> 'a list \<Rightarrow> nat \<Rightarrow> 'a list" where
  "piece n c k = take n (drop (k * n) c)"

lemma concat_pieces: "length c \<le> m * n \<Longrightarrow> concat (map (piece n c) [0..<m]) = c"
proof -
  have "concat (map (piece n c) [0..<m]) = take (m * n) c"
  proof (induction m)
    case (Suc m)
    then show ?case by (simp add: piece_def take_add [symmetric] add.commute)
  qed simp
  then show "length c \<le> m * n \<Longrightarrow> ?thesis" by simp
qed

lemma write_at_nth:
  assumes "p < length c" "offset + length data \<le> length c"
  shows "write_at offset data c ! p = (if offset \<le> p \<and> p < offset + length data then data ! (p - offset) else c ! p)"
  using assms by (auto simp: write_at_def nth_append min_def)

lemma length_write_at [simp]: "offset + length data \<le> length c \<Longrightarrow> length (write_at offset data c) = length c"
  by (simp add: write_at_def)

lemma piece_write_at:
  assumes "length data = length (piece n c k)" "k * n + length data \<le> length c"
  shows "piece n (write_at (k * n) data c) j = (if j = k then data else piece n c j)"
proof (rule nth_equalityI)
  have len: "length (piece n c j) = min n (length c - j * n)" for j by (simp add: piece_def min.commute)
  then have l: "length (piece n (write_at (k * n) data c) j) = length (piece n c j)" using assms(2) by (simp add: piece_def)
  then show "length (piece n (write_at (k * n) data c) j) = length (if j = k then data else piece n c j)" using assms(1) by simp
  fix q assume "q < length (piece n (write_at (k * n) data c) j)"
  then have q: "q < n" "j * n + q < length c" using l len by auto
  have nth: "piece n c' j ! q = c' ! (j * n + q)" if "length c' = length c" for c' :: "u8array"
    using q that by (simp add: piece_def)
  have "k * n \<le> j * n + q \<and> j * n + q < k * n + length data \<longleftrightarrow> j = k"
  proof
    assume a: "k * n \<le> j * n + q \<and> j * n + q < k * n + length data"
    have "length data \<le> n" using assms(1) len [of k] by simp
    then have "j * n + q < Suc k * n" using a by simp
    then have "j < Suc k" using q(1) by (metis add_lessD1 mult_less_cancel2)
    moreover have "k * n < Suc j * n" using a q(1) by simp
    then have "k < Suc j" by (metis mult_less_cancel2)
    ultimately show "j = k" by simp
  next
    assume "j = k"
    then show "k * n \<le> j * n + q \<and> j * n + q < k * n + length data" using assms(1) len [of k] q by auto
  qed
  then show "piece n (write_at (k * n) data c) j ! q = (if j = k then data else piece n c j) ! q"
    using nth [of "write_at (k * n) data c"] nth [of c] write_at_nth [OF q(2) assms(2)] assms(2) by auto
qed

lemma copy_parts_pieces:
  assumes "copy_parts fs i m sz n ks c = (True, c')" "length c = sz" "m * n < sz + n" "sz \<le> m * n" "set ks \<subseteq> {..<m}"
  shows "length c' = sz" and "\<forall>k\<in>set ks. part fs i k = Some (piece n c' k)"
    and "\<And>j. j \<notin> set ks \<Longrightarrow> piece n c' j = piece n c j"
proof -
  have "length c' = sz \<and> (\<forall>k\<in>set ks. part fs i k = Some (piece n c' k)) \<and> (\<forall>j. j \<notin> set ks \<longrightarrow> piece n c' j = piece n c j)"
    using assms(1,2,5)
  proof (induction ks arbitrary: c)
    case (Cons k ks)
    obtain data where data: "part fs i k = Some data"
      "int (length data) = (if k + 1 = m then int sz - int (k * n) else int n)" "k * n + length data \<le> sz"
      "copy_parts fs i m sz n ks (write_at (k * n) data c) = (True, c')"
      using Cons.prems(1) by (auto simp: copy_part_def Let_def split: option.splits if_splits)
    have "length (piece n c k) = min n (sz - k * n)" using Cons.prems(2) by (simp add: piece_def min.commute)
    moreover have "k + 1 = m \<Longrightarrow> sz - k * n \<le> n" using assms(4) by auto
    moreover have "length data = (if k + 1 = m then sz - k * n else n)"
      using data(2,3) by (cases "k + 1 = m") (simp_all del: of_nat_mult)
    ultimately have len: "length data = length (piece n c k)" using data(3) by (auto split: if_splits)
    have p: "piece n (write_at (k * n) data c) j = (if j = k then data else piece n c j)" for j
      using piece_write_at [OF len] data(3) Cons.prems(2) by simp
    have ih: "length c' = sz" "\<forall>k\<in>set ks. part fs i k = Some (piece n c' k)"
      "\<forall>j. j \<notin> set ks \<longrightarrow> piece n c' j = piece n (write_at (k * n) data c) j"
      using Cons.IH [OF data(4)] Cons.prems(2,3) data(3) by auto
    moreover have "data = piece n c' k" using ih(2,3) p data(1) by (cases "k \<in> set ks") auto
    ultimately show ?case using p data(1) by auto
  qed simp
  then show "length c' = sz" "\<forall>k\<in>set ks. part fs i k = Some (piece n c' k)"
    "\<And>j. j \<notin> set ks \<Longrightarrow> piece n c' j = piece n c j" by blast+
qed

text \<open>C10. The two ways to merge agree: when the parallel merge succeeds, whatever the order in which the copies are made, it
  leaves the same files and returns the same name and digest as the single pass. The number of chunks is the one \<open>InitiateAsync\<close>
  computes for the size.\<close>

theorem parallel_merge_agrees:
  assumes "set order = {..<totalChunks}" and "totalSize \<le> totalChunks * chunkSize" and "totalChunks * chunkSize < totalSize + chunkSize"
    and "MergeParallelThenHashAsync order i fileName totalChunks totalSize chunkSize True fs = (Some r, fs')"
  shows "MergeSinglePassAsync i fileName totalChunks totalSize fs = (Some r, fs')"
proof -
  obtain c where c: "copy_parts fs i totalChunks totalSize chunkSize order (replicate totalSize 0) = (True, c)" "length c = totalSize"
    "r = (ResolveFinalPath i fileName fs, sha256_hex_spec c)"
    "fs' = DeleteTempFolderAsync i (write_final (ResolveFinalPath i fileName fs) c fs)" "openable (ResolveFinalPath i fileName fs)"
    using assms(4) by (auto simp: MergeParallelThenHashAsync_def Let_def split: prod.splits if_splits)
  have "part fs i k = Some (piece chunkSize c k)" if "k \<in> set [0..<totalChunks]" for k
    using copy_parts_pieces(2) [OF c(1)] assms(1-3) that by auto
  then have "append_parts fs i [0..<totalChunks] [] = (True, c)"
    using append_parts_all [of "[0..<totalChunks]" fs i "piece chunkSize c" "[]"] concat_pieces [of c totalChunks chunkSize] assms(2) c(2)
    by simp
  then show ?thesis using c by (simp add: MergeSinglePassAsync_def Let_def overlay_def)
qed

definition sample_files :: files where
  "sample_files = \<lparr>f_dirs = [''a''], f_parts = [((''a'', 1), [3, 4]), ((''a'', 2), [5]), ((''a'', 0), [1, 2])], f_final = []\<rparr>"

theorem parallel_merge_agrees_witness:
  "MergeSinglePassAsync ''a'' ''f.txt'' 3 5 sample_files =
     MergeParallelThenHashAsync [2, 0, 1] ''a'' ''f.txt'' 3 5 2 True sample_files"
proof -
  let ?m = "MergeParallelThenHashAsync [2, 0, 1] ''a'' ''f.txt'' 3 5 2 True sample_files"
  have "copy_parts sample_files ''a'' 3 5 2 [2, 0, 1] (replicate 5 0) = (True, [1, 2, 3, 4, 5])" by code_simp
  moreover have "openable (ResolveFinalPath ''a'' ''f.txt'' sample_files)" by code_simp
  ultimately have "fst ?m \<noteq> None" by (simp add: MergeParallelThenHashAsync_def Let_def)
  then obtain r fs' where m: "?m = (Some r, fs')" by (cases ?m) auto
  have "MergeSinglePassAsync ''a'' ''f.txt'' 3 5 sample_files = (Some r, fs')"
    by (rule parallel_merge_agrees [OF _ _ _ m]) auto
  then show ?thesis using m by simp
qed

end
