(* ===== verification/Server_Service.thy ===== *)
theory Server_Service
  imports Server_Storage Http_Api Crc32
begin

text \<open>
  The upload service (\<open>src/WebApi/Services/UploadService.cs\<close>) over the in-memory repository, the session cache and the
  file system, the chunk handler of \<open>UploadController\<close>, and the two background services. \<open>server_step\<close> puts them together: one
  step is a request on the metadata, the beginning or the body of a chunk request, the verification or the merge of a complete job, or
  a cleanup. Times are given with the events.

  The received-chunk cache is written and never read. Logging, audit, metrics and events do not change the state. The number
  of chunks is cast to \<open>int\<close> as .NET 9 does it; \<open>Math.Ceiling\<close> on doubles is exact for sizes below 2 to the 52, and sizes, offsets
  and their sums stay below the range of \<open>long\<close>.
  \<open>EnsureSessionDirectoriesAsync\<close>, which \<open>FileSystemStorage\<close> lacks, is the parameter \<open>mkdir\<close>; the hash of
  \<open>System.IO.Hashing.Crc32\<close> is the parameter \<open>crc32\<close>.
\<close>

section \<open>Options, errors and validation\<close>

record options =
  o_PendingTtlHours :: nat
  o_MaxFileSizeBytes :: int
  o_MaxChunkSizeBytes :: int
  o_AllowedExtensions :: "string list"
  o_BlockedExtensions :: "string list"
  o_MaxPendingSessionsPerIp :: nat
  o_MaxTotalStoredBytes :: int
  o_MaxStoredBytesPerIp :: int
  o_SinglePassMergeAndHash :: bool
  o_AlwaysComputeFullChecksum :: bool
  o_DeduplicateByContent :: bool
  o_ContentSampleBytes :: int
  o_RequireChunkCrc32 :: bool
  o_RequireChunkSha256 :: bool
  o_SessionCacheTtlSeconds :: nat

datatype serror = ArgumentException | InvalidOperation

definition hex_string :: "string \<Rightarrow> bool" where
  "hex_string s \<longleftrightarrow> length s = 64 \<and> list_all is_hex_char s"

definition NormalizeChecksum :: "string option \<Rightarrow> serror + string option" where
  "NormalizeChecksum checksum =
     (case checksum of
        None \<Rightarrow> Inr None
      | Some c \<Rightarrow>
          if blank (Some c) then Inr None
          else let normalized = strip_start ''sha256:'' (map to_lower (str_trim c))
               in if hex_string normalized then Inr (Some normalized) else Inl ArgumentException)"

definition Fingerprint_Normalize :: "string option \<Rightarrow> serror + string option" where
  "Fingerprint_Normalize fingerprint =
     (case fingerprint of
        None \<Rightarrow> Inr None
      | Some f \<Rightarrow>
          if blank (Some f) then Inr None
          else let n = map to_lower (str_trim f);
                   normalized = (if starts_with ''fp:'' n \<or> starts_with ''sample:'' n
                                 then tl (dropWhile (\<lambda>c. c \<noteq> CHR '':'') n) else n)
               in if hex_string normalized then Inr (Some normalized) else Inl ArgumentException)"

definition trim_dots :: "string \<Rightarrow> string" where
  "trim_dots s = dropWhile (\<lambda>c. c = CHR ''.'') s"

definition ValidateExtension :: "options \<Rightarrow> string \<Rightarrow> bool" where
  "ValidateExtension opts fileName =
     (let ext = map to_lower (trim_dots (GetExtension fileName));
          listed = list_ex (\<lambda>e. equals_ignore_case (Some (trim_dots e)) ext)
      in if ext = [] then o_AllowedExtensions opts = []
         else \<not> listed (o_BlockedExtensions opts)
              \<and> (o_AllowedExtensions opts = [] \<or> listed (o_AllowedExtensions opts)))"

definition valid_request :: "options \<Rightarrow> string \<Rightarrow> int \<Rightarrow> int \<Rightarrow> bool" where
  "valid_request opts fileName totalSize chunkSize \<longleftrightarrow>
     \<not> blank (Some fileName) \<and> 0 < totalSize \<and> 0 < chunkSize
     \<and> \<not> (0 < o_MaxFileSizeBytes opts \<and> o_MaxFileSizeBytes opts < totalSize)
     \<and> \<not> (0 < o_MaxChunkSizeBytes opts \<and> o_MaxChunkSizeBytes opts < chunkSize)
     \<and> ValidateExtension opts fileName"

section \<open>State\<close>

record job =
  j_id :: guid
  j_checksum :: "string option"

record chunk_put =
  pt_id :: guid
  pt_index :: nat
  pt_encoding :: string
  pt_crc :: string
  pt_sha :: string

text \<open>\<open>sv_puts\<close> are the chunk requests whose body has not arrived, \<open>sv_verified\<close> is the job the background service is
  working on, with the session it read.\<close>

record server =
  sv_store :: store
  sv_cache :: "(guid \<times> (upload_session \<times> time)) list"
  sv_received :: "(guid \<times> (int list \<times> time)) list"
  sv_files :: files
  sv_jobs :: "job list"
  sv_puts :: "chunk_put list"
  sv_verified :: "(job \<times> upload_session) option"

definition empty_server :: server where
  "empty_server = \<lparr>sv_store = [], sv_cache = [], sv_received = [], sv_files = \<lparr>f_dirs = [], f_parts = [], f_final = []\<rparr>, sv_jobs = [],
     sv_puts = [], sv_verified = None\<rparr>"

definition cache_Remove :: "guid \<Rightarrow> server \<Rightarrow> server" where
  "cache_Remove i sv = sv\<lparr>sv_cache := filter (\<lambda>p. fst p \<noteq> i) (sv_cache sv)\<rparr>"

definition cache_Set :: "options \<Rightarrow> time \<Rightarrow> upload_session \<Rightarrow> server \<Rightarrow> server" where
  "cache_Set opts now s sv = sv\<lparr>sv_cache := put (s_Id s) (s, now + max 5 (o_SessionCacheTtlSeconds opts)) (sv_cache sv)\<rparr>"

definition cache_TryGet :: "time \<Rightarrow> guid \<Rightarrow> server \<Rightarrow> upload_session option \<times> server" where
  "cache_TryGet now i sv =
     (case map_of (sv_cache sv) i of
        None \<Rightarrow> (None, sv)
      | Some (s, expires) \<Rightarrow> if expires \<le> now then (None, cache_Remove i sv) else (Some s, sv))"

text \<open>The cache of received chunks: the indices seen for an upload and the time of the last access. It is cleaned when it
  holds ten thousand entries: of the expired ones first, then of the older half (of entries with equal times, those
  entered first).\<close>

definition received_ttl :: "options \<Rightarrow> time" where
  "received_ttl opts = 60 * min 60 (max 5 (o_SessionCacheTtlSeconds opts * 20))"

definition received_maxEntries :: nat where
  "received_maxEntries = 10000"

definition EvictIfNeeded :: "options \<Rightarrow> time \<Rightarrow> (guid \<times> (int list \<times> time)) list \<Rightarrow> (guid \<times> (int list \<times> time)) list" where
  "EvictIfNeeded opts now m =
     (if length m < received_maxEntries then m
      else let live = filter (\<lambda>(i, idx, access). \<not> received_ttl opts < now - access) m
           in if length live < received_maxEntries then live
              else let oldest = map fst (take (length live div 2) (sort_key (snd \<circ> snd) live))
                   in filter (\<lambda>e. fst e \<notin> set oldest) live)"

definition received_GetOrCreate :: "options \<Rightarrow> time \<Rightarrow> guid \<Rightarrow> server \<Rightarrow> server" where
  "received_GetOrCreate opts now i sv =
     (let m = EvictIfNeeded opts now (sv_received sv)
      in sv\<lparr>sv_received := put i (case map_of m i of Some (idx, access) \<Rightarrow> (idx, now) | None \<Rightarrow> ([], now)) m\<rparr>)"

definition received_Mark :: "options \<Rightarrow> time \<Rightarrow> guid \<Rightarrow> int \<Rightarrow> server \<Rightarrow> server" where
  "received_Mark opts now i index sv =
     (let sv1 = received_GetOrCreate opts now i sv
      in case map_of (sv_received sv1) i of
           Some (idx, access) \<Rightarrow> sv1\<lparr>sv_received := put i (List.insert index idx, access) (sv_received sv1)\<rparr>
         | None \<Rightarrow> sv1)"

definition received_TryGet :: "options \<Rightarrow> time \<Rightarrow> guid \<Rightarrow> server \<Rightarrow> int list option \<times> server" where
  "received_TryGet opts now i sv =
     (case map_of (sv_received sv) i of
        None \<Rightarrow> (None, sv)
      | Some (idx, access) \<Rightarrow>
          if received_ttl opts < now - access then (None, sv\<lparr>sv_received := filter (\<lambda>e. fst e \<noteq> i) (sv_received sv)\<rparr>)
          else (Some idx, sv\<lparr>sv_received := put i (idx, now) (sv_received sv)\<rparr>))"

definition received_Remove :: "guid \<Rightarrow> server \<Rightarrow> server" where
  "received_Remove i sv = sv\<lparr>sv_received := filter (\<lambda>e. fst e \<noteq> i) (sv_received sv)\<rparr>"

section \<open>Starting an upload\<close>

definition EnforceQuota :: "options \<Rightarrow> time \<Rightarrow> int \<Rightarrow> string option \<Rightarrow> store \<Rightarrow> bool" where
  "EnforceQuota opts now totalSize clientIp st \<longleftrightarrow>
     \<not> (0 < o_MaxTotalStoredBytes opts
        \<and> o_MaxTotalStoredBytes opts < SumCompletedBytesAsync st + SumActivePendingBytesAsync now st + totalSize)
     \<and> \<not> (0 < o_MaxStoredBytesPerIp opts \<and> \<not> blank clientIp
        \<and> o_MaxStoredBytesPerIp opts < SumCompletedBytesByIpAsync (the clientIp) st + SumActivePendingBytesByIpAsync now (the clientIp) st + totalSize)"

definition find_duplicate :: "options \<Rightarrow> string option \<Rightarrow> string option \<Rightarrow> int \<Rightarrow> server \<Rightarrow> upload_session option" where
  "find_duplicate opts checksum fingerprint totalSize sv =
     (if \<not> o_DeduplicateByContent opts then None
      else let byContent = (case checksum of None \<Rightarrow> None | Some c \<Rightarrow> FindCompletedByContentAsync c totalSize (sv_store sv));
               existing = (case byContent of
                  Some s \<Rightarrow> Some s
                | None \<Rightarrow> (case fingerprint of None \<Rightarrow> None | Some f \<Rightarrow> FindCompletedByFingerprintAsync f totalSize (sv_store sv)))
           in (case existing of
                 None \<Rightarrow> None
               | Some s \<Rightarrow> if \<not> blank (s_FinalFileName s) \<and> FinalObjectExistsAsync (the (s_FinalFileName s)) totalSize (sv_files sv)
                           then Some s else None))"

record initiate_request =
  ir_fileName :: string
  ir_totalSize :: int
  ir_chunkSize :: int
  ir_contentType :: "string option"
  ir_checksum :: "string option"
  ir_fingerprint :: "string option"
  ir_clientIp :: "string option"

text \<open>\<open>(int)\<close> on a \<open>double\<close> saturates (.NET 9, the target framework).\<close>

definition to_int32 :: "int \<Rightarrow> int" where
  "to_int32 x = max (- (2 ^ 31)) (min (2 ^ 31 - 1) x)"

definition new_session :: "options \<Rightarrow> time \<Rightarrow> guid \<Rightarrow> initiate_request \<Rightarrow> string option \<Rightarrow> string option \<Rightarrow> upload_session" where
  "new_session opts now i rq checksum fingerprint =
     \<lparr>s_Id = i, s_FileName = GetFileName (ir_fileName rq), s_FinalFileName = None, s_TotalSize = ir_totalSize rq,
      s_ChunkSize = ir_chunkSize rq,
      s_TotalChunks = nat (to_int32 \<lceil>of_int (ir_totalSize rq) / (of_int (ir_chunkSize rq) :: rat)\<rceil>),
      s_Status = StPending, s_Version = 0, s_CreatedAt = now, s_CompletedAt = None,
      s_ExpiresAt = now + 3600 * o_PendingTtlHours opts, s_Checksum = checksum, s_ContentFingerprint = fingerprint,
      s_ContentType = ir_contentType rq, s_ClientIp = ir_clientIp rq\<rparr>"

text \<open>The result is the session and whether the content is there already.\<close>

definition InitiateAsync ::
  "options \<Rightarrow> (guid \<Rightarrow> files \<Rightarrow> files) \<Rightarrow> time \<Rightarrow> guid \<Rightarrow> initiate_request \<Rightarrow> server \<Rightarrow> (serror + upload_session \<times> bool) \<times> server" where
  "InitiateAsync opts mkdir now i rq sv =
     (if \<not> valid_request opts (ir_fileName rq) (ir_totalSize rq) (ir_chunkSize rq) then (Inl ArgumentException, sv)
      else case (NormalizeChecksum (ir_checksum rq), Fingerprint_Normalize (ir_fingerprint rq)) of
        (Inr checksum, Inr fingerprint) \<Rightarrow>
          (case find_duplicate opts checksum fingerprint (ir_totalSize rq) sv of
             Some s \<Rightarrow> (Inr (s, True), sv)
           | None \<Rightarrow>
               if \<not> blank (ir_clientIp rq) \<and> 0 < o_MaxPendingSessionsPerIp opts
                  \<and> o_MaxPendingSessionsPerIp opts \<le> CountActivePendingByIpAsync now (the (ir_clientIp rq)) (sv_store sv)
               then (Inl InvalidOperation, sv)
               else if \<not> EnforceQuota opts now (ir_totalSize rq) (ir_clientIp rq) (sv_store sv) then (Inl InvalidOperation, sv)
               else let s = new_session opts now i rq checksum fingerprint
                    in (Inr (s, False),
                        cache_Set opts now s (received_GetOrCreate opts now i
                          (sv\<lparr>sv_store := AddAsync s (sv_store sv), sv_files := mkdir i (sv_files sv)\<rparr>))))
      | _ \<Rightarrow> (Inl ArgumentException, sv))"

section \<open>Chunks\<close>

definition GetSessionHotAsync :: "options \<Rightarrow> time \<Rightarrow> guid \<Rightarrow> server \<Rightarrow> upload_session option \<times> server" where
  "GetSessionHotAsync opts now i sv =
     (case cache_TryGet now i sv of (cached, sv1) \<Rightarrow>
        if (case cached of Some s \<Rightarrow> s_Status s = StPending \<and> \<not> IsExpired now s | None \<Rightarrow> False) then (cached, sv1)
        else case GetAsync (sv_store sv1) i of
               None \<Rightarrow> (None, sv1)
             | Some s \<Rightarrow> (Some s, cache_Set opts now s sv1))"

definition EnsureCanAcceptChunkAsync :: "options \<Rightarrow> time \<Rightarrow> guid \<Rightarrow> int \<Rightarrow> server \<Rightarrow> bool \<times> server" where
  "EnsureCanAcceptChunkAsync opts now i index sv =
     (case GetSessionHotAsync opts now i sv of
        (None, sv1) \<Rightarrow> (False, sv1)
      | (Some s, sv1) \<Rightarrow>
          (s_Status s = StPending \<and> \<not> IsExpired now s \<and> 0 \<le> index \<and> index < int (s_TotalChunks s), sv1))"

definition MarkChunkReceivedAsync :: "options \<Rightarrow> time \<Rightarrow> guid \<Rightarrow> int \<Rightarrow> server \<Rightarrow> bool \<times> server" where
  "MarkChunkReceivedAsync opts now i index sv =
     (case EnsureCanAcceptChunkAsync opts now i index sv of
        (False, sv1) \<Rightarrow> (False, sv1)
      | (True, sv1) \<Rightarrow> (True, received_Mark opts now i index sv1))"

datatype response = ROkIdempotent | ROkStored | RBadRequest | RServerError | RAwaitBody

definition marked :: "options \<Rightarrow> time \<Rightarrow> guid \<Rightarrow> int \<Rightarrow> response \<Rightarrow> server \<Rightarrow> response \<times> server" where
  "marked opts now i index ok sv =
     (case MarkChunkReceivedAsync opts now i index sv of (b, sv1) \<Rightarrow> (if b then ok else RBadRequest, sv1))"

text \<open>\<open>UploadChunk\<close> up to the reading of the body.\<close>

definition UploadChunk_begin ::
  "options \<Rightarrow> decoders \<Rightarrow> time \<Rightarrow> guid \<Rightarrow> int \<Rightarrow> string \<Rightarrow> string \<Rightarrow> string \<Rightarrow> server \<Rightarrow> response \<times> server" where
  "UploadChunk_begin opts d now i index encoding crc sha sv =
     (case EnsureCanAcceptChunkAsync opts now i index sv of
        (False, sv1) \<Rightarrow> (RBadRequest, sv1)
      | (True, sv1) \<Rightarrow>
          if ChunkExistsAsync (sv_files sv1) i (nat index) then marked opts now i index ROkIdempotent sv1
          else if (case chunk_Wrap d [] encoding of Inl (UnsupportedEncoding e) \<Rightarrow> True | _ \<Rightarrow> False) then (RBadRequest, sv1)
          else if o_RequireChunkCrc32 opts \<and> blank (Some crc) then (RBadRequest, sv1)
          else if o_RequireChunkSha256 opts \<and> blank (Some sha) then (RBadRequest, sv1)
          else (RAwaitBody,
                sv1\<lparr>sv_puts := sv_puts sv1 @ [\<lparr>pt_id = i, pt_index = nat index, pt_encoding = encoding, pt_crc = crc, pt_sha = sha\<rparr>]\<rparr>))"

definition needs_tee :: "options \<Rightarrow> chunk_put \<Rightarrow> bool" where
  "needs_tee opts p \<longleftrightarrow> \<not> blank (Some (pt_crc p)) \<or> o_RequireChunkCrc32 opts \<or> \<not> blank (Some (pt_sha p)) \<or> o_RequireChunkSha256 opts"

definition save_body :: "options \<Rightarrow> chunk_put \<Rightarrow> u8array \<Rightarrow> files \<Rightarrow> files option" where
  "save_body opts p data fs =
     (if \<not> needs_tee opts p \<and> blank (Some (pt_encoding p)) then SaveChunkAsync_pipe (pt_id p) (pt_index p) data fs
      else Some (SaveChunkAsync_stream (pt_id p) (pt_index p) data fs))"

definition hashes_match :: "(u8array \<Rightarrow> u8array) \<Rightarrow> chunk_put \<Rightarrow> u8array \<Rightarrow> bool" where
  "hashes_match crc32 p data \<longleftrightarrow>
     (blank (Some (pt_crc p)) \<or> EqualsHex (Some (pt_crc p)) (ComputeHex crc32 data))
     \<and> (blank (Some (pt_sha p))
        \<or> equals_ignore_case (Some (strip_start ''sha256:'' (map to_lower (str_trim (pt_sha p))))) (sha256_hex_spec data))"

text \<open>The rest of \<open>UploadChunk\<close>: the decoded body is written, all of it or, when the connection breaks or the decoder fails,
  the first \<open>broken\<close> bytes of it or what the decoder had delivered (\<open>junk\<close>).\<close>

definition UploadChunk_body ::
  "options \<Rightarrow> decoders \<Rightarrow> (u8array \<Rightarrow> u8array) \<Rightarrow> time \<Rightarrow> chunk_put \<Rightarrow> u8array \<Rightarrow> nat option \<Rightarrow> u8array \<Rightarrow> server \<Rightarrow> response \<times> server" where
  "UploadChunk_body opts d crc32 now p body broken junk sv =
     (let (data, failure) = (case chunk_Wrap d body (pt_encoding p) of
                               Inl e \<Rightarrow> (junk, Some RBadRequest)
                             | Inr x \<Rightarrow> (case broken of None \<Rightarrow> (x, None) | Some n \<Rightarrow> (take n x, Some RServerError)))
      in case save_body opts p data (sv_files sv) of
           None \<Rightarrow> (RServerError, sv)
         | Some fs \<Rightarrow>
             let sv1 = sv\<lparr>sv_files := fs\<rparr>
             in (case failure of
                   Some r \<Rightarrow> (r, sv1)
                 | None \<Rightarrow>
                     if hashes_match crc32 p data then marked opts now (pt_id p) (int (pt_index p)) ROkStored sv1
                     else (RBadRequest, sv1\<lparr>sv_files := DeleteChunkAsync (pt_id p) (pt_index p) fs\<rparr>)))"

section \<open>Completing and aborting\<close>

datatype complete_result = CompleteDone string | CompleteBackground

definition final_or_name :: "upload_session \<Rightarrow> string" where
  "final_or_name s = (case s_FinalFileName s of Some n \<Rightarrow> n | None \<Rightarrow> s_FileName s)"

definition CompleteAsync :: "time \<Rightarrow> guid \<Rightarrow> string option \<Rightarrow> server \<Rightarrow> (serror + complete_result) \<times> server" where
  "CompleteAsync now i checksum sv0 =
     (let sv = cache_Remove i sv0
      in case GetAsync (sv_store sv) i of
           None \<Rightarrow> (Inl InvalidOperation, sv)
         | Some s \<Rightarrow>
             if s_Status s = StCompleted then (Inr (CompleteDone (final_or_name s)), sv)
             else if s_Status s = StCompleting then (Inr CompleteBackground, sv)
             else if s_Status s \<noteq> StPending then (Inl InvalidOperation, sv)
             else if IsExpired now s then (Inl InvalidOperation, sv)
             else (case TryBeginCompleteAsync i (sv_store sv) of
                     (True, st) \<Rightarrow>
                       (Inr CompleteBackground, sv\<lparr>sv_store := st, sv_jobs := sv_jobs sv @ [\<lparr>j_id = i, j_checksum = checksum\<rparr>]\<rparr>)
                   | (False, st) \<Rightarrow>
                       (case GetAsync st i of
                          None \<Rightarrow> (Inl InvalidOperation, sv)
                        | Some t \<Rightarrow> if s_Status t = StCompleted then (Inr (CompleteDone (final_or_name t)), sv)
                                    else (Inr CompleteBackground, sv))))"

text \<open>The end of a job that fails.\<close>

definition fail_job :: "guid \<Rightarrow> string option \<Rightarrow> server \<Rightarrow> server" where
  "fail_job i checksum sv =
     received_Remove i (cache_Remove i (sv\<lparr>sv_store := snd (TryFailCompleteAsync checksum i (sv_store sv))\<rparr>))"

text \<open>\<open>ProcessCompleteJobAsync\<close> up to the merge.\<close>

definition process_verify :: "job \<Rightarrow> server \<Rightarrow> server" where
  "process_verify j sv =
     (case GetAsync (sv_store sv) (j_id j) of
        None \<Rightarrow> sv
      | Some s \<Rightarrow>
          if s_Status s \<noteq> StCompleting then sv
          else let (missing, bytesOnDisk) = VerifyChunksParallelAsync (j_id j) (s_TotalChunks s) (sv_files sv)
               in if missing \<noteq> [] then fail_job (j_id j) (s_Checksum s) sv
                  else if int bytesOnDisk \<noteq> s_TotalSize s then fail_job (j_id j) (s_Checksum s) sv
                  else sv\<lparr>sv_verified := Some (j, s)\<rparr>)"

definition sample_bytes :: "options \<Rightarrow> nat" where
  "sample_bytes opts = (if 0 < o_ContentSampleBytes opts then nat (o_ContentSampleBytes opts) else DefaultSampleBytes)"

text \<open>The rest of the job. A malformed checksum of the client makes \<open>NormalizeChecksum\<close> throw: the background service logs it
  and goes on with the next job.\<close>

definition process_merge :: "options \<Rightarrow> time \<Rightarrow> nat list \<Rightarrow> job \<Rightarrow> upload_session \<Rightarrow> server \<Rightarrow> server" where
  "process_merge opts now order j s sv =
     (case NormalizeChecksum (j_checksum j) of
        Inl e \<Rightarrow> sv
      | Inr normalized \<Rightarrow>
          let expected = (case normalized of None \<Rightarrow> s_Checksum s | x \<Rightarrow> x);
              computeHash = (o_AlwaysComputeFullChecksum opts \<or> expected \<noteq> None)
          in case MergeAsync (o_SinglePassMergeAndHash opts) order (j_id j) (s_FileName s) (s_TotalChunks s) (nat (s_TotalSize s))
                    (nat (s_ChunkSize s)) computeHash (sv_files sv) of
               (None, fs) \<Rightarrow> fail_job (j_id j) (s_Checksum s) (sv\<lparr>sv_files := fs\<rparr>)
             | (Some (name, actual), fs) \<Rightarrow>
                 if (case expected of Some e \<Rightarrow> actual \<noteq> [] \<and> \<not> equals_ignore_case (Some actual) e | None \<Rightarrow> False)
                 then fail_job (j_id j) (Some actual) (sv\<lparr>sv_files := DeleteFinalFileAsync name fs\<rparr>)
                 else let fingerprint = (case map_of (f_final fs) name of
                              Some c \<Rightarrow> Some (ComputeFromFileAsync c (nat (s_TotalSize s)) (sample_bytes opts))
                            | None \<Rightarrow> s_ContentFingerprint s)
                      in (case TryFinishCompleteAsync now name (if actual \<noteq> [] then Some actual else expected) fingerprint (j_id j)
                             (sv_store sv) of
                            (True, st) \<Rightarrow> cache_Remove (j_id j) (received_Remove (j_id j) (sv\<lparr>sv_store := st, sv_files := fs\<rparr>))
                          | (False, st) \<Rightarrow> sv\<lparr>sv_files := fs\<rparr>))"

text \<open>\<open>AbortAsync\<close>: the flag is false when it throws.\<close>

definition AbortAsync :: "guid \<Rightarrow> server \<Rightarrow> bool \<times> server" where
  "AbortAsync i sv0 =
     (let sv = cache_Remove i sv0
      in case GetAsync (sv_store sv) i of
           None \<Rightarrow> (False, sv)
         | Some s \<Rightarrow>
             if s_Status s \<in> {StCompleted, StAborted, StExpired} then (True, sv)
             else if s_Status s = StCompleting then (False, sv)
             else if s_Status s = StFailed then (True, sv)
             else (case TryAbortAsync i (sv_store sv) of
                     (True, st) \<Rightarrow>
                       (True, cache_Remove i (received_Remove i (sv\<lparr>sv_store := st, sv_files := DeleteTempFolderAsync i (sv_files sv)\<rparr>)))
                   | (False, st) \<Rightarrow>
                       (case GetAsync st i of None \<Rightarrow> True | Some t \<Rightarrow> s_Status t \<in> {StAborted, StCompleted, StExpired, StFailed}, sv)))"

section \<open>Status and cleanup\<close>

definition GetStatusAsync :: "options \<Rightarrow> time \<Rightarrow> guid \<Rightarrow> server \<Rightarrow> upload_session option \<times> server" where
  "GetStatusAsync opts now i sv =
     (case GetAsync (sv_store sv) i of None \<Rightarrow> (None, sv) | Some s \<Rightarrow> (Some s, cache_Set opts now s sv))"

text \<open>The reply of \<open>Status\<close>: the session and the parts on disk in order, or not found.\<close>

definition Status :: "options \<Rightarrow> time \<Rightarrow> guid \<Rightarrow> server \<Rightarrow> (upload_session \<times> nat list) option \<times> server" where
  "Status opts now i sv =
     (case GetStatusAsync opts now i sv of
        (None, sv1) \<Rightarrow> (None, sv1)
      | (Some s, sv1) \<Rightarrow> (Some (s, sort (GetExistingChunkIndexesAsync i (sv_files sv1))), sv1))"

definition cleanup_session :: "time \<Rightarrow> upload_session \<Rightarrow> server \<Rightarrow> server" where
  "cleanup_session now s sv =
     (case TryClaimExpiredAsync now (s_Id s) (sv_store sv) of
        (True, st) \<Rightarrow> sv\<lparr>sv_store := st, sv_files := DeleteTempFolderAsync (s_Id s) (sv_files sv)\<rparr>
      | (False, st) \<Rightarrow> sv)"

definition CleanupOnceAsync :: "time \<Rightarrow> server \<Rightarrow> server" where
  "CleanupOnceAsync now sv = fold (cleanup_session now) (GetExpiredPendingAsync now (sv_store sv)) sv"

section \<open>The server\<close>

datatype server_event =
    SInitiate time guid initiate_request
  | SPutBegin time guid int string string string
  | SPutBody time nat u8array "nat option" u8array
  | SComplete time guid "string option"
  | SJobStart
  | SJobMerge time "nat list"
  | SAbort guid
  | SStatus time guid
  | SCleanup time

record server_config =
  cf_options :: options
  cf_mkdir :: "guid \<Rightarrow> files \<Rightarrow> files"
  cf_decoders :: decoders
  cf_crc32 :: "u8array \<Rightarrow> u8array"

text \<open>A new identifier is not in use; the body belongs to a request under way; the background service takes one job at a time, and
  its copies are made in some order.\<close>

definition server_step :: "server_config \<Rightarrow> server_event \<Rightarrow> server \<Rightarrow> server option" where
  "server_step cf e sv =
     (case e of
        SInitiate now i rq \<Rightarrow>
          if GetAsync (sv_store sv) i = None then Some (snd (InitiateAsync (cf_options cf) (cf_mkdir cf) now i rq sv)) else None
      | SPutBegin now i index encoding crc sha \<Rightarrow>
          Some (snd (UploadChunk_begin (cf_options cf) (cf_decoders cf) now i index encoding crc sha sv))
      | SPutBody now n body broken junk \<Rightarrow>
          if n < length (sv_puts sv)
          then Some (snd (UploadChunk_body (cf_options cf) (cf_decoders cf) (cf_crc32 cf) now (sv_puts sv ! n) body broken junk
                 (sv\<lparr>sv_puts := take n (sv_puts sv) @ drop (Suc n) (sv_puts sv)\<rparr>)))
          else None
      | SComplete now i checksum \<Rightarrow> Some (snd (CompleteAsync now i checksum sv))
      | SJobStart \<Rightarrow>
          (case (sv_jobs sv, sv_verified sv) of
             (j # js, None) \<Rightarrow> Some (process_verify j (sv\<lparr>sv_jobs := js\<rparr>))
           | _ \<Rightarrow> None)
      | SJobMerge now order \<Rightarrow>
          (case sv_verified sv of
             Some (j, s) \<Rightarrow>
               if sort order = [0..<s_TotalChunks s] then Some (process_merge (cf_options cf) now order j s (sv\<lparr>sv_verified := None\<rparr>))
               else None
           | None \<Rightarrow> None)
      | SAbort i \<Rightarrow> Some (snd (AbortAsync i sv))
      | SStatus now i \<Rightarrow> Some (snd (Status (cf_options cf) now i sv))
      | SCleanup now \<Rightarrow> Some (CleanupOnceAsync now sv))"

end
