(* ===== verification/Server_Frame.thy ===== *)
theory Server_Frame
  imports Server_Service
begin

text \<open>
  What each operation of the server leaves alone, the outcomes of a merge job, and the life of a session.
\<close>

section \<open>The life of a session\<close>

abbreviation status_of :: "server \<Rightarrow> guid \<Rightarrow> upload_status option" where
  "status_of sv i \<equiv> map_option s_Status (GetAsync (sv_store sv) i)"

text \<open>From no session to a pending one, and then along the edges.\<close>

definition evolves :: "upload_status option \<Rightarrow> upload_status option \<Rightarrow> bool" where
  "evolves a b \<longleftrightarrow>
     (case a of
        None \<Rightarrow> True
      | Some StPending \<Rightarrow> b \<noteq> None
      | Some StCompleting \<Rightarrow> b \<in> {Some StCompleting, Some StCompleted, Some StFailed, Some StExpired}
      | Some s \<Rightarrow> b = Some s)"

lemma evolves_refl [simp]: "evolves a a"
  by (simp add: evolves_def split: option.split upload_status.split)

lemma evolves_trans: "evolves a b \<Longrightarrow> evolves b c \<Longrightarrow> evolves a c"
  by (auto simp: evolves_def split: option.splits upload_status.splits)

lemma evolves_new [simp]: "evolves None b"
  by (simp add: evolves_def)

lemma evolves_edge: "status_edge s t \<Longrightarrow> evolves (Some s) (Some t)"
  by (cases s) (auto simp: evolves_def)

lemma repo_step_evolves:
  "evolves (map_option s_Status (GetAsync st i)) (map_option s_Status (GetAsync (snd (repo_step a st)) i))"
proof (cases "fst (repo_step a st) \<and> i = op_id a")
  case True
  then obtain s where "map_option s_Status (GetAsync st i) = Some s" "status_edge s (op_to a)"
    using memory.step_edge [OF TrueI, of a st] by blast
  moreover have "map_option s_Status (GetAsync (snd (repo_step a st)) i) = Some (op_to a)"
    using True memory.step_status [OF TrueI, of a st i] by presburger
  ultimately show ?thesis using evolves_edge by presburger
next
  case False
  then show ?thesis using memory.step_status [OF TrueI, of a st i] by auto
qed

text \<open>What an operation does to the store: nothing, or one operation of the repository, or a new session.\<close>

definition store_effect :: "store \<Rightarrow> store \<Rightarrow> bool" where
  "store_effect st st' \<longleftrightarrow> st' = st \<or> (\<exists>a. st' = snd (repo_step a st))"

lemma store_effect_refl [simp]: "store_effect st st"
  by (simp add: store_effect_def)

lemma store_effect_ops [simp]:
  "store_effect st (snd (TryBeginCompleteAsync i st))" "store_effect st (snd (TryFinishCompleteAsync now name c f i st))"
  "store_effect st (snd (TryFailCompleteAsync c i st))" "store_effect st (snd (TryClaimExpiredAsync now i st))"
  "store_effect st (snd (TryAbortAsync i st))"
  unfolding store_effect_def by (metis repo_step.simps)+

lemma store_effect_won:
  "TryBeginCompleteAsync i st = (b, st') \<Longrightarrow> store_effect st st'" "TryFinishCompleteAsync now name c f i st = (b, st') \<Longrightarrow> store_effect st st'"
  "TryClaimExpiredAsync now i st = (b, st') \<Longrightarrow> store_effect st st'" "TryAbortAsync i st = (b, st') \<Longrightarrow> store_effect st st'"
  using store_effect_ops by (metis snd_conv)+

lemma store_effect_evolves:
  "store_effect st st' \<Longrightarrow> evolves (map_option s_Status (GetAsync st i)) (map_option s_Status (GetAsync st' i))"
  using repo_step_evolves by (auto simp: store_effect_def)

lemma cache_store [simp]:
  "sv_store (cache_Remove i sv) = sv_store sv" "sv_store (cache_Set opts now s sv) = sv_store sv"
  "sv_store (snd (cache_TryGet now i sv)) = sv_store sv"
  "sv_files (cache_Remove i sv) = sv_files sv" "sv_files (cache_Set opts now s sv) = sv_files sv"
  "sv_files (snd (cache_TryGet now i sv)) = sv_files sv"
  "sv_jobs (cache_Remove i sv) = sv_jobs sv" "sv_jobs (cache_Set opts now s sv) = sv_jobs sv"
  "sv_jobs (snd (cache_TryGet now i sv)) = sv_jobs sv"
  "sv_puts (cache_Remove i sv) = sv_puts sv" "sv_puts (cache_Set opts now s sv) = sv_puts sv"
  "sv_puts (snd (cache_TryGet now i sv)) = sv_puts sv"
  "sv_verified (cache_Remove i sv) = sv_verified sv" "sv_verified (cache_Set opts now s sv) = sv_verified sv"
  "sv_verified (snd (cache_TryGet now i sv)) = sv_verified sv"
  by (simp_all add: cache_Remove_def cache_Set_def cache_TryGet_def split: option.split prod.split)

lemma received_frame [simp]:
  "sv_store (received_GetOrCreate opts now i sv) = sv_store sv" "sv_store (received_Mark opts now i k sv) = sv_store sv" "sv_store (received_Remove i sv) = sv_store sv"
  "sv_cache (received_GetOrCreate opts now i sv) = sv_cache sv" "sv_cache (received_Mark opts now i k sv) = sv_cache sv" "sv_cache (received_Remove i sv) = sv_cache sv"
  "sv_files (received_GetOrCreate opts now i sv) = sv_files sv" "sv_files (received_Mark opts now i k sv) = sv_files sv" "sv_files (received_Remove i sv) = sv_files sv"
  "sv_jobs (received_GetOrCreate opts now i sv) = sv_jobs sv" "sv_jobs (received_Mark opts now i k sv) = sv_jobs sv" "sv_jobs (received_Remove i sv) = sv_jobs sv"
  "sv_puts (received_GetOrCreate opts now i sv) = sv_puts sv" "sv_puts (received_Mark opts now i k sv) = sv_puts sv" "sv_puts (received_Remove i sv) = sv_puts sv"
  "sv_verified (received_GetOrCreate opts now i sv) = sv_verified sv" "sv_verified (received_Mark opts now i k sv) = sv_verified sv" "sv_verified (received_Remove i sv) = sv_verified sv"
  by (simp_all add: received_GetOrCreate_def received_Mark_def received_Remove_def Let_def split: option.split)

text \<open>Looking at a session changes the caches only.\<close>

definition same_but_cache :: "server \<Rightarrow> server \<Rightarrow> bool" where
  "same_but_cache sv sv' \<longleftrightarrow> sv_store sv' = sv_store sv \<and> sv_files sv' = sv_files sv \<and> sv_jobs sv' = sv_jobs sv
     \<and> sv_puts sv' = sv_puts sv \<and> sv_verified sv' = sv_verified sv"

lemma same_but_cache_refl [simp]: "same_but_cache sv sv"
  by (simp add: same_but_cache_def)

lemma GetSessionHot_cache: "same_but_cache sv (snd (GetSessionHotAsync opts now i sv))"
proof -
  obtain cached sv1 where c: "cache_TryGet now i sv = (cached, sv1)" by (cases "cache_TryGet now i sv")
  then have "sv1 = snd (cache_TryGet now i sv)" by simp
  then have "same_but_cache sv sv1" by (simp add: same_but_cache_def)
  then show ?thesis by (simp add: GetSessionHotAsync_def c same_but_cache_def split: option.split)
qed

lemma EnsureCanAccept_cache: "same_but_cache sv (snd (EnsureCanAcceptChunkAsync opts now i index sv))"
  using GetSessionHot_cache [of sv opts now i]
  by (auto simp: EnsureCanAcceptChunkAsync_def split: prod.split option.split)

lemma marked_cache: "same_but_cache sv (snd (marked opts now i index r sv))"
  using EnsureCanAccept_cache [of sv opts now i index]
  by (auto simp: marked_def MarkChunkReceivedAsync_def same_but_cache_def split: prod.split bool.split)

lemmas cache_only [simp] = EnsureCanAccept_cache [unfolded same_but_cache_def] marked_cache [unfolded same_but_cache_def]

lemma UploadChunk_begin_frame [simp]:
  "sv_store (snd (UploadChunk_begin opts d now i index e c h sv)) = sv_store sv"
  "sv_files (snd (UploadChunk_begin opts d now i index e c h sv)) = sv_files sv"
  "sv_jobs (snd (UploadChunk_begin opts d now i index e c h sv)) = sv_jobs sv"
  "sv_verified (snd (UploadChunk_begin opts d now i index e c h sv)) = sv_verified sv"
proof -
  obtain b sv1 where b: "EnsureCanAcceptChunkAsync opts now i index sv = (b, sv1)" by fastforce
  then have "same_but_cache sv sv1" using EnsureCanAccept_cache [of sv opts now i index] by simp
  then show
    "sv_store (snd (UploadChunk_begin opts d now i index e c h sv)) = sv_store sv"
    "sv_files (snd (UploadChunk_begin opts d now i index e c h sv)) = sv_files sv"
    "sv_jobs (snd (UploadChunk_begin opts d now i index e c h sv)) = sv_jobs sv"
    "sv_verified (snd (UploadChunk_begin opts d now i index e c h sv)) = sv_verified sv"
    by (simp_all add: UploadChunk_begin_def b same_but_cache_def split: bool.split)
qed

lemma save_body_final: "save_body opts p data fs = Some fs' \<Longrightarrow> f_final fs' = f_final fs"
  by (auto simp: save_body_def split: if_splits)

text \<open>What the body of a chunk request leaves: the cache aside, only the parts change.\<close>

lemma UploadChunk_body_cases:
  obtains "snd (UploadChunk_body opts d crc now p body br junk sv) = sv"
  | data fs where "save_body opts p data (sv_files sv) = Some fs"
      "same_but_cache (sv\<lparr>sv_files := fs\<rparr>) (snd (UploadChunk_body opts d crc now p body br junk sv))"
  | data fs where "save_body opts p data (sv_files sv) = Some fs"
      "snd (UploadChunk_body opts d crc now p body br junk sv) = sv\<lparr>sv_files := DeleteChunkAsync (pt_id p) (pt_index p) fs\<rparr>"
proof -
  obtain data failure where df: "(case chunk_Wrap d body (pt_encoding p) of Inl e \<Rightarrow> (junk, Some RBadRequest)
      | Inr x \<Rightarrow> (case br of None \<Rightarrow> (x, None) | Some n \<Rightarrow> (take n x, Some RServerError))) = (data, failure)" by fastforce
  note u = UploadChunk_body_def [of opts d crc now p body br junk sv, unfolded df, simplified]
  show ?thesis
  proof (cases "save_body opts p data (sv_files sv)")
    case None
    then show ?thesis using that(1) u by simp
  next
    case (Some fs)
    then show ?thesis using that(2,3) [OF Some] u marked_cache by (cases failure; cases "hashes_match crc p data") simp_all
  qed
qed

lemma UploadChunk_body_frame [simp]:
  "sv_store (snd (UploadChunk_body opts d crc now p body br junk sv)) = sv_store sv"
  "sv_jobs (snd (UploadChunk_body opts d crc now p body br junk sv)) = sv_jobs sv"
  "sv_verified (snd (UploadChunk_body opts d crc now p body br junk sv)) = sv_verified sv"
  "f_final (sv_files (snd (UploadChunk_body opts d crc now p body br junk sv))) = f_final (sv_files sv)"
  by (rule UploadChunk_body_cases [of opts d crc now p body br junk sv]; auto simp: same_but_cache_def dest: save_body_final)+

lemma fail_job_simps [simp]:
  "sv_store (fail_job i c sv) = snd (TryFailCompleteAsync c i (sv_store sv))" "sv_files (fail_job i c sv) = sv_files sv"
  "sv_jobs (fail_job i c sv) = sv_jobs sv" "sv_verified (fail_job i c sv) = sv_verified sv"
  by (simp_all add: fail_job_def)

lemma CompleteAsync_store: "store_effect (sv_store sv) (sv_store (snd (CompleteAsync now i c sv)))"
  by (auto simp: CompleteAsync_def Let_def split: option.split prod.split bool.split intro: store_effect_won)

lemma AbortAsync_store: "store_effect (sv_store sv) (sv_store (snd (AbortAsync i sv)))"
  by (auto simp: AbortAsync_def Let_def split: option.split prod.split bool.split intro: store_effect_won)

lemma process_verify_store: "store_effect (sv_store sv) (sv_store (process_verify j sv))"
  by (auto simp: process_verify_def Let_def split: option.split prod.split)

definition expected_checksum :: "job \<Rightarrow> upload_session \<Rightarrow> string option" where
  "expected_checksum j s = (case NormalizeChecksum (j_checksum j) of Inr (Some c) \<Rightarrow> Some c | _ \<Rightarrow> s_Checksum s)"

definition job_merge :: "options \<Rightarrow> nat list \<Rightarrow> job \<Rightarrow> upload_session \<Rightarrow> files \<Rightarrow> (string \<times> string) option \<times> files" where
  "job_merge opts order j s fs =
     MergeAsync (o_SinglePassMergeAndHash opts) order (j_id j) (s_FileName s) (s_TotalChunks s) (nat (s_TotalSize s))
       (nat (s_ChunkSize s)) (o_AlwaysComputeFullChecksum opts \<or> expected_checksum j s \<noteq> None) fs"

text \<open>The outcomes of a merge job: a malformed checksum, a merge that throws, a digest that differs, a session lost to the cleanup
  meanwhile, or a completed session.\<close>

lemma process_merge_cases:
  obtains (malformed) e where "NormalizeChecksum (j_checksum j) = Inl e" "process_merge opts now order j s sv = sv"
  | (throws) fs where "job_merge opts order j s (sv_files sv) = (None, fs)"
      "process_merge opts now order j s sv = fail_job (j_id j) (s_Checksum s) (sv\<lparr>sv_files := fs\<rparr>)"
  | (differs) name actual fs e where "job_merge opts order j s (sv_files sv) = (Some (name, actual), fs)"
      "expected_checksum j s = Some e" "\<not> equals_ignore_case (Some actual) e"
      "process_merge opts now order j s sv = fail_job (j_id j) (Some actual) (sv\<lparr>sv_files := DeleteFinalFileAsync name fs\<rparr>)"
  | (lost) name actual fs c fp where "job_merge opts order j s (sv_files sv) = (Some (name, actual), fs)"
      "\<not> fst (TryFinishCompleteAsync now name c fp (j_id j) (sv_store sv))"
      "process_merge opts now order j s sv = sv\<lparr>sv_files := fs\<rparr>"
  | (finished) name actual fs fp st where "job_merge opts order j s (sv_files sv) = (Some (name, actual), fs)"
      "TryFinishCompleteAsync now name (if actual \<noteq> [] then Some actual else expected_checksum j s) fp (j_id j) (sv_store sv) = (True, st)"
      "\<And>e. expected_checksum j s = Some e \<Longrightarrow> actual \<noteq> [] \<Longrightarrow> equals_ignore_case (Some actual) e"
      "process_merge opts now order j s sv = cache_Remove (j_id j) (received_Remove (j_id j) (sv\<lparr>sv_store := st, sv_files := fs\<rparr>))"
proof (cases "NormalizeChecksum (j_checksum j)")
  case (Inl e)
  then show ?thesis using malformed by (simp add: process_merge_def)
next
  case (Inr normalized)
  have ex: "(case normalized of None \<Rightarrow> s_Checksum s | Some x \<Rightarrow> Some x) = expected_checksum j s"
    by (simp add: expected_checksum_def Inr split: option.split)
  obtain r fs where m: "job_merge opts order j s (sv_files sv) = (r, fs)" by fastforce
  note u = process_merge_def [of opts now order j s sv, unfolded Inr sum.case Let_def ex, folded job_merge_def, unfolded m]
  show ?thesis
  proof (cases r)
    case None
    then show ?thesis using throws [of fs] m u by simp
  next
    case (Some na)
    obtain name actual where na: "na = (name, actual)" by (cases na)
    let ?bad = "case expected_checksum j s of Some e \<Rightarrow> actual \<noteq> [] \<and> \<not> equals_ignore_case (Some actual) e | None \<Rightarrow> False"
    let ?fp = "case map_of (f_final fs) name of Some c \<Rightarrow> Some (ComputeFromFileAsync c (nat (s_TotalSize s)) (sample_bytes opts))
        | None \<Rightarrow> s_ContentFingerprint s"
    obtain b st where b: "TryFinishCompleteAsync now name (if actual \<noteq> [] then Some actual else expected_checksum j s) ?fp (j_id j)
        (sv_store sv) = (b, st)" by fastforce
    show ?thesis
    proof (cases ?bad)
      case True
      then obtain e where e: "expected_checksum j s = Some e" "actual \<noteq> []" "\<not> equals_ignore_case (Some actual) e" by (auto split: option.splits)
      show ?thesis by (rule differs [of name actual fs e]) (use m u Some na e in simp_all)
    next
      case False
      then have eq: "\<And>e. expected_checksum j s = Some e \<Longrightarrow> actual \<noteq> [] \<Longrightarrow> equals_ignore_case (Some actual) e" by simp
      show ?thesis
      proof (cases b)
        case True
        then show ?thesis using finished [OF _ _ eq] m u Some na False b by simp
      next
        case not: False
        show ?thesis
          by (rule lost [of name actual fs "if actual \<noteq> [] then Some actual else expected_checksum j s" ?fp]) (use m u Some na False b not in simp_all)
      qed
    qed
  qed
qed

lemma process_merge_store: "store_effect (sv_store sv) (sv_store (process_merge opts now order j s sv))"
proof (rule process_merge_cases [of j opts now order s sv])
qed (auto intro: store_effect_won)

lemma cleanup_evolves:
  "evolves (status_of sv i) (status_of (fold (cleanup_session now) ss sv) i)"
proof (induction ss arbitrary: sv)
  case (Cons s ss)
  have "store_effect (sv_store sv) (sv_store (cleanup_session now s sv))"
    by (auto simp: cleanup_session_def split: prod.split bool.split intro: store_effect_won)
  then show ?case using Cons evolves_trans store_effect_evolves by fastforce
qed simp

lemma GetAsync_Add: "GetAsync (AddAsync s st) i = (if i = s_Id s then Some (s\<lparr>s_Version := 0\<rparr>) else GetAsync st i)"
  by (simp add: GetAsync_def AddAsync_def map_of_put)

lemma Initiate_store:
  assumes "GetAsync (sv_store sv) i = None"
  shows "sv_store (snd (InitiateAsync opts mkdir now i rq sv)) = sv_store sv
    \<or> (\<exists>c f. sv_store (snd (InitiateAsync opts mkdir now i rq sv)) = AddAsync (new_session opts now i rq c f) (sv_store sv)
         \<and> 0 < ir_totalSize rq \<and> 0 < ir_chunkSize rq)"
  by (auto simp: InitiateAsync_def valid_request_def Let_def split: option.split sum.split)

lemma GetStatus_cache: "same_but_cache sv (snd (Status opts now i sv))"
  by (simp add: Status_def GetStatusAsync_def same_but_cache_def split: option.split)

text \<open>C9. A session never goes back: once it is completed, failed, aborted or expired, no request, job or cleanup changes its status,
  and a session that is being merged ends completed, failed or expired.\<close>

theorem session_never_goes_back:
  assumes "exec_events (server_step cf) es sv = Some sv'"
  shows "evolves (status_of sv i) (status_of sv' i)"
  using assms
proof (induction es arbitrary: sv)
  case (Cons e es)
  then obtain t where t: "server_step cf e sv = Some t" "exec_events (server_step cf) es t = Some sv'"
    by (auto split: option.splits)
  have "evolves (status_of sv i) (status_of t i)"
  proof (cases e)
    case (SInitiate now j rq)
    then have "GetAsync (sv_store sv) j = None" "t = snd (InitiateAsync (cf_options cf) (cf_mkdir cf) now j rq sv)"
      using t(1) by (auto simp: server_step_def split: if_splits)
    then show ?thesis using Initiate_store [of sv j "cf_options cf" "cf_mkdir cf" now rq]
      by (auto simp: GetAsync_Add new_session_def)
  qed (use t(1) in \<open>auto simp: server_step_def UploadChunk_begin_frame UploadChunk_body_frame CleanupOnceAsync_def
      split: if_splits option.splits list.splits prod.splits
      intro: cleanup_evolves store_effect_evolves [OF CompleteAsync_store] store_effect_evolves [OF AbortAsync_store]
        store_effect_evolves [OF process_verify_store, of "sv\<lparr>sv_jobs := js\<rparr>" for js, simplified]
        store_effect_evolves [OF process_merge_store, of "sv\<lparr>sv_verified := None\<rparr>", simplified]
      simp: GetStatus_cache [unfolded same_but_cache_def]\<close>)
  then show ?case using Cons.IH [OF t(2)] evolves_trans by blast
qed simp

text \<open>A small configuration: the options of \<open>StorageOptions.cs\<close> without limits.\<close>

definition plain_options :: options where
  "plain_options = \<lparr>o_PendingTtlHours = 24, o_MaxFileSizeBytes = 0, o_MaxChunkSizeBytes = 0, o_AllowedExtensions = [],
     o_BlockedExtensions = [''exe''], o_MaxPendingSessionsPerIp = 5, o_MaxTotalStoredBytes = 0, o_MaxStoredBytesPerIp = 0,
     o_SinglePassMergeAndHash = True, o_AlwaysComputeFullChecksum = True, o_DeduplicateByContent = True,
     o_ContentSampleBytes = 0, o_RequireChunkCrc32 = False, o_RequireChunkSha256 = False, o_SessionCacheTtlSeconds = 30\<rparr>"

definition plain_config :: server_config where
  "plain_config = \<lparr>cf_options = plain_options, cf_mkdir = \<lambda>i fs. fs\<lparr>f_dirs := List.insert i (f_dirs fs)\<rparr>,
     cf_decoders = \<lparr>d_gunzip = \<lambda>x. None, d_inflate = \<lambda>x. None, d_brotli = \<lambda>x. None\<rparr>, cf_crc32 = \<lambda>x. []\<rparr>"

definition aborted_server :: server where
  "aborted_server = empty_server\<lparr>sv_store := [(''a'', sample_session\<lparr>s_Status := StAborted\<rparr>)]\<rparr>"

theorem session_never_goes_back_witness:
  "\<exists>sv'. exec_events (server_step plain_config) [SComplete 1 ''a'' None, SAbort ''a'', SCleanup 200] aborted_server = Some sv'
     \<and> status_of sv' ''a'' = Some StAborted"
proof -
  let ?es = "[SComplete 1 ''a'' None, SAbort ''a'', SCleanup 200]"
  have "exec_events (server_step plain_config) ?es aborted_server \<noteq> None" by (simp add: server_step_def)
  then obtain sv' where sv': "exec_events (server_step plain_config) ?es aborted_server = Some sv'" by blast
  have a: "status_of aborted_server ''a'' = Some StAborted" by code_simp
  have "status_of sv' ''a'' = Some StAborted"
    using session_never_goes_back [OF sv', of "''a''"] unfolding a by (simp only: evolves_def option.case upload_status.case)
  with sv' show ?thesis by blast
qed

end
