(* ===== verification/Server_Files.thy ===== *)
theory Server_Files
  imports Server_Frame
begin

text \<open>
  What a completed session guarantees: its final file is there, has the announced size, and its SHA-256 is the stored checksum,
  whatever other uploads, retries, failures and cleanups happen before and after. Final files are told apart by their names, so the
  proof is about names: they are free of underscores or carry the identifier of their session.
\<close>

section \<open>Names of final files\<close>

definition guid_N :: "guid \<Rightarrow> bool" where
  "guid_N i \<longleftrightarrow> length i = 32 \<and> list_all is_hex_char i"

definition underscore_free :: "string \<Rightarrow> bool" where
  "underscore_free s \<longleftrightarrow> CHR ''_'' \<notin> set s"

definition owned :: "guid \<Rightarrow> string \<Rightarrow> bool" where
  "owned i name \<longleftrightarrow> (\<exists>b e. name = b @ ''_'' @ i @ e \<and> underscore_free b)"

lemma owned_unique: "owned i name \<Longrightarrow> owned j name \<Longrightarrow> guid_N i \<Longrightarrow> guid_N j \<Longrightarrow> i = j"
proof -
  assume "owned i name" "owned j name" and ij: "guid_N i" "guid_N j"
  then obtain b e c f where n: "name = b @ CHR ''_'' # i @ e" "name = c @ CHR ''_'' # j @ f"
    and free: "CHR ''_'' \<notin> set b" "CHR ''_'' \<notin> set c" unfolding owned_def underscore_free_def by (metis append_Cons append_Nil)
  have drop: "dropWhile (\<lambda>x. x \<noteq> CHR ''_'') (b @ CHR ''_'' # r) = CHR ''_'' # r" if "CHR ''_'' \<notin> set b" for b r
    using that by (induction b) auto
  have "CHR ''_'' # i @ e = CHR ''_'' # j @ f" using drop [OF free(1), of "i @ e"] drop [OF free(2), of "j @ f"] n by metis
  then show "i = j" using ij by (simp add: guid_N_def append_eq_append_conv)
qed

lemma set_after_last: "set (after_last_of c s) \<subseteq> set s"
  by (auto simp: after_last_of_def dest: set_takeWhileD)

lemma after_last_id:
  assumes "c \<notin> set s"
  shows "after_last_of c s = s"
proof -
  have "takeWhile (\<lambda>d. d \<noteq> c) (rev s) = rev s" using assms by (intro takeWhile_eq_all_conv [THEN iffD2]) auto
  then show ?thesis by (simp only: after_last_of_def rev_rev_ident)
qed

lemma not_in_after_last: "c \<notin> set (after_last_of c s)"
  by (auto simp: after_last_of_def dest: set_takeWhileD)

lemma GetFileName_idem: "GetFileName (GetFileName s) = GetFileName s"
  by (simp add: GetFileName_def after_last_id not_in_after_last)

lemma set_extension: "set (GetExtension s) \<subseteq> set (GetFileName s)" "set (GetFileNameWithoutExtension s) \<subseteq> set (GetFileName s)"
  using set_after_last by (auto simp: GetExtension_def GetFileNameWithoutExtension_def Let_def dest: in_set_takeD)

lemma ResolveFinalPath_cases:
  assumes "underscore_free fileName"
  shows "(map_of (f_final fs) (ResolveFinalPath i fileName fs) = None \<and> underscore_free (ResolveFinalPath i fileName fs))
    \<or> owned i (ResolveFinalPath i fileName fs)"
proof -
  have "CHR ''_'' \<notin> set (GetFileName fileName)" using assms set_after_last by (auto simp: underscore_free_def GetFileName_def)
  moreover from this have "underscore_free (GetFileNameWithoutExtension (GetFileName fileName))"
    using set_extension(2) [of "GetFileName fileName"] by (auto simp: underscore_free_def GetFileName_idem)
  ultimately show ?thesis by (auto simp: ResolveFinalPath_def Let_def owned_def underscore_free_def)
qed

lemma ResolveFinalPath_bare:
  assumes "guid_N i"
  shows "GetFileName (ResolveFinalPath i fileName fs) = ResolveFinalPath i fileName fs"
proof -
  have "CHR ''/'' \<notin> set i" using assms by (auto simp: guid_N_def list_all_iff is_hex_char_def)
  moreover have "CHR ''/'' \<notin> set (GetFileName fileName)" by (simp add: GetFileName_def not_in_after_last)
  moreover have "set (GetExtension (GetFileName fileName)) \<subseteq> set (GetFileName fileName)"
    "set (GetFileNameWithoutExtension (GetFileName fileName)) \<subseteq> set (GetFileName fileName)"
    using set_extension [of "GetFileName fileName"] by (simp_all add: GetFileName_idem)
  ultimately have "CHR ''/'' \<notin> set (ResolveFinalPath i fileName fs)" by (auto simp: ResolveFinalPath_def Let_def)
  then show ?thesis by (simp add: GetFileName_def after_last_id)
qed

section \<open>What a merge writes\<close>

lemma MergeAsync_final:
  assumes "MergeAsync single order i fileName n sz cs hash fs = (r, fs')"
  shows "m \<noteq> ResolveFinalPath i fileName fs \<Longrightarrow> map_of (f_final fs') m = map_of (f_final fs) m"
    and "r = Some (name, actual) \<Longrightarrow> name = ResolveFinalPath i fileName fs
      \<and> (\<exists>c. map_of (f_final fs') name = Some c \<and> length c = sz \<and> actual = (if hash then sha256_hex_spec c else []))"
  using assms
  by (auto simp: MergeAsync_def MergeParallelThenHashAsync_def MergeSinglePassAsync_def Let_def overlay_def split: prod.splits if_splits)

lemma sha256_hex_nonempty: "sha256_hex_spec c \<noteq> []"
  using hash_hex_length [of "sha256_spec c"] by (auto simp: sha256_hex_spec_def)

section \<open>The invariant\<close>

text \<open>The fields of a session that no operation changes.\<close>

definition fixed_fields :: "upload_session \<Rightarrow> guid \<times> string \<times> int" where
  "fixed_fields s = (s_Id s, s_FileName s, s_TotalSize s)"

definition good_session :: "guid \<Rightarrow> upload_session \<Rightarrow> bool" where
  "good_session i s \<longleftrightarrow> s_Id s = i \<and> guid_N i \<and> underscore_free (s_FileName s) \<and> 0 < s_TotalSize s"

definition stored_file :: "upload_session \<Rightarrow> files \<Rightarrow> bool" where
  "stored_file s fs \<longleftrightarrow> (\<exists>name c. s_FinalFileName s = Some name \<and> map_of (f_final fs) name = Some c
     \<and> int (length c) = s_TotalSize s \<and> s_Checksum s = Some (sha256_hex_spec c))"

text \<open>The sessions with a job: in the queue, or being merged.\<close>

definition job_ids :: "server \<Rightarrow> guid list" where
  "job_ids sv = (case sv_verified sv of Some (j, s) \<Rightarrow> [j_id j] | None \<Rightarrow> []) @ map j_id (sv_jobs sv)"

definition server_inv :: "server \<Rightarrow> bool" where
  "server_inv sv \<longleftrightarrow>
     (\<forall>i s. GetAsync (sv_store sv) i = Some s \<longrightarrow> good_session i s)
     \<and> (\<forall>i s. GetAsync (sv_store sv) i = Some s \<longrightarrow> s_Status s = StCompleted \<longrightarrow> stored_file s (sv_files sv)
          \<and> (\<forall>name. s_FinalFileName s = Some name \<longrightarrow> underscore_free name \<or> owned i name))
     \<and> distinct (job_ids sv)
     \<and> (\<forall>i\<in>set (job_ids sv). status_of sv i = Some StCompleting \<or> status_of sv i = Some StExpired)
     \<and> (\<forall>j s. sv_verified sv = Some (j, s) \<longrightarrow> (\<exists>t. GetAsync (sv_store sv) (j_id j) = Some t \<and> fixed_fields t = fixed_fields s))"

lemma server_invD:
  assumes "server_inv sv"
  shows "GetAsync (sv_store sv) i = Some s \<Longrightarrow> good_session i s"
    and "GetAsync (sv_store sv) i = Some s \<Longrightarrow> s_Status s = StCompleted \<Longrightarrow> stored_file s (sv_files sv)"
    and "GetAsync (sv_store sv) i = Some s \<Longrightarrow> s_Status s = StCompleted \<Longrightarrow> s_FinalFileName s = Some name \<Longrightarrow>
      underscore_free name \<or> owned i name"
    and "distinct (job_ids sv)"
    and "i \<in> set (job_ids sv) \<Longrightarrow> status_of sv i = Some StCompleting \<or> status_of sv i = Some StExpired"
    and "sv_verified sv = Some (j, s) \<Longrightarrow> \<exists>t. GetAsync (sv_store sv) (j_id j) = Some t \<and> fixed_fields t = fixed_fields s"
  using assms unfolding server_inv_def by blast+

text \<open>The final files of completed sessions are left alone.\<close>

definition keeps_final :: "server \<Rightarrow> files \<Rightarrow> bool" where
  "keeps_final sv fs \<longleftrightarrow> (\<forall>k s name. GetAsync (sv_store sv) k = Some s \<longrightarrow> s_Status s = StCompleted \<longrightarrow> s_FinalFileName s = Some name \<longrightarrow>
     map_of (f_final fs) name = map_of (f_final (sv_files sv)) name)"

lemma keeps_final_same: "f_final fs = f_final (sv_files sv) \<Longrightarrow> keeps_final sv fs"
  by (simp add: keeps_final_def)

lemma keeps_stored:
  "keeps_final sv fs \<Longrightarrow> GetAsync (sv_store sv) k = Some s \<Longrightarrow> s_Status s = StCompleted \<Longrightarrow> stored_file s (sv_files sv) \<Longrightarrow> stored_file s fs"
  by (auto simp: stored_file_def keeps_final_def)

text \<open>A step that changes no session.\<close>

lemma inv_same_store:
  assumes inv: "server_inv sv" and store: "sv_store sv' = sv_store sv" and final: "keeps_final sv (sv_files sv')"
    and jobs: "distinct (job_ids sv')" "set (job_ids sv') \<subseteq> set (job_ids sv)"
    and verified: "\<And>j s. sv_verified sv' = Some (j, s) \<Longrightarrow> \<exists>t. GetAsync (sv_store sv) (j_id j) = Some t \<and> fixed_fields t = fixed_fields s"
  shows "server_inv sv'"
  using server_invD [OF inv] jobs verified keeps_stored [OF final] unfolding server_inv_def store by (meson subsetD)

text \<open>A step that changes one session.\<close>

lemma inv_one_session:
  assumes inv: "server_inv sv" and t: "GetAsync (sv_store sv) i = Some t" "fixed_fields t' = fixed_fields t"
    and store: "\<And>j. GetAsync (sv_store sv') j = (if j = i then Some t' else GetAsync (sv_store sv) j)"
    and final: "keeps_final sv (sv_files sv')"
    and completed: "s_Status t' = StCompleted \<Longrightarrow> stored_file t' (sv_files sv')
      \<and> (\<forall>name. s_FinalFileName t' = Some name \<longrightarrow> underscore_free name \<or> owned i name)"
    and jobs: "distinct (job_ids sv')" "set (job_ids sv') - {i} \<subseteq> set (job_ids sv)"
      "i \<in> set (job_ids sv') \<Longrightarrow> s_Status t' = StCompleting \<or> s_Status t' = StExpired"
    and verified: "\<And>j s. sv_verified sv' = Some (j, s) \<Longrightarrow> sv_verified sv = Some (j, s)"
  shows "server_inv sv'"
proof -
  note D = server_invD [OF inv]
  have good: "good_session k s" if "GetAsync (sv_store sv') k = Some s" for k s
    using that D(1) [of k] D(1) [OF t(1)] t(2) by (auto simp: store good_session_def fixed_fields_def split: if_splits)
  have files: "stored_file s (sv_files sv') \<and> (\<forall>name. s_FinalFileName s = Some name \<longrightarrow> underscore_free name \<or> owned k name)"
    if "GetAsync (sv_store sv') k = Some s" "s_Status s = StCompleted" for k s
    using that D(2,3) [of k s] completed keeps_stored [OF final, of k s] by (cases "k = i") (auto simp: store)
  have stat: "status_of sv' k = Some StCompleting \<or> status_of sv' k = Some StExpired" if "k \<in> set (job_ids sv')" for k
    using that D(5) [of k] jobs(2,3) by (cases "k = i") (auto simp: store)
  have "\<exists>u. GetAsync (sv_store sv') (j_id j) = Some u \<and> fixed_fields u = fixed_fields s" if "sv_verified sv' = Some (j, s)" for j s
    using D(6) [OF verified [OF that]] t by (auto simp: store)
  then show ?thesis unfolding server_inv_def using good files stat jobs(1) by blast
qed

lemma try_update_get:
  assumes "try_update P f i st = (b, st')"
  shows "(b = False \<and> st' = st) \<or> (\<exists>t. b \<and> GetAsync st i = Some t \<and> P t \<and>
    (\<forall>j. GetAsync st' j = (if j = i then Some ((f t)\<lparr>s_Version := s_Version t + 1\<rparr>) else GetAsync st j)))"
  using assms by (auto simp: try_update_def GetAsync_def map_of_put split: option.splits if_splits)

text \<open>An operation of the repository that does not complete a session.\<close>

lemma inv_try_update:
  assumes inv: "server_inv sv" and upd: "try_update P f i (sv_store sv) = (b, sv_store sv')"
    and f: "\<And>t. fixed_fields (f t) = fixed_fields t" "\<And>t. s_Status (f t) \<noteq> StCompleted"
    and final: "keeps_final sv (sv_files sv')"
    and jobs: "distinct (job_ids sv')" "set (job_ids sv') - {i} \<subseteq> set (job_ids sv)"
      "i \<in> set (job_ids sv') \<Longrightarrow> i \<in> set (job_ids sv) \<or> b"
      "\<And>t. i \<in> set (job_ids sv') \<Longrightarrow> P t \<Longrightarrow> s_Status (f t) = StCompleting \<or> s_Status (f t) = StExpired"
    and verified: "\<And>j s. sv_verified sv' = Some (j, s) \<Longrightarrow> sv_verified sv = Some (j, s)"
  shows "server_inv sv'"
  using try_update_get [OF upd]
proof (elim disjE exE conjE)
  assume b: "b = False" "sv_store sv' = sv_store sv"
  have "set (job_ids sv') \<subseteq> set (job_ids sv)" using jobs(2,3) b(1) by blast
  then show ?thesis
    using inv_same_store [OF inv b(2) final jobs(1)] verified server_invD(6) [OF inv] by blast
next
  fix t assume t: "b" "GetAsync (sv_store sv) i = Some t" "P t"
    "\<forall>j. GetAsync (sv_store sv') j = (if j = i then Some ((f t)\<lparr>s_Version := s_Version t + 1\<rparr>) else GetAsync (sv_store sv) j)"
  show ?thesis
  proof (rule inv_one_session [OF inv t(2) _ t(4) [rule_format] final _ jobs(1,2) _ verified])
    show "fixed_fields ((f t)\<lparr>s_Version := s_Version t + 1\<rparr>) = fixed_fields t" using f(1) by (simp add: fixed_fields_def)
  qed (use f(2) jobs(4) t(3) in auto)
qed

section \<open>Every step keeps the invariant\<close>

lemma keeps_final_merge:
  assumes inv: "server_inv sv" and i: "guid_N i" "status_of sv i \<noteq> Some StCompleted" "underscore_free fileName"
    and other: "\<And>m. m \<noteq> ResolveFinalPath i fileName (sv_files sv) \<Longrightarrow> map_of (f_final fs) m = map_of (f_final (sv_files sv)) m"
  shows "keeps_final sv fs"
  unfolding keeps_final_def
proof (intro allI impI other)
  fix k s name
  assume s: "GetAsync (sv_store sv) k = Some s" "s_Status s = StCompleted" "s_FinalFileName s = Some name"
  then have k: "k \<noteq> i" "guid_N k" using i(2) server_invD(1) [OF inv s(1)] by (auto simp: good_session_def)
  have there: "map_of (f_final (sv_files sv)) name \<noteq> None" using server_invD(2) [OF inv s(1,2)] s(3) by (auto simp: stored_file_def)
  show "name \<noteq> ResolveFinalPath i fileName (sv_files sv)"
  proof
    assume "name = ResolveFinalPath i fileName (sv_files sv)"
    with ResolveFinalPath_cases [OF i(3), of "sv_files sv" i] there have o: "owned i name" by auto
    then have "\<not> underscore_free name" by (auto simp: owned_def underscore_free_def)
    then have "owned k name" using server_invD(3) [OF inv s] by blast
    then show False using owned_unique [OF o] i(1) k by blast
  qed
qed

lemmas repo_update_ops = TryBeginCompleteAsync_def TryFailCompleteAsync_def TryClaimExpiredAsync_def TryAbortAsync_def

lemma fixed_update [simp]:
  "fixed_fields (s\<lparr>s_Status := x\<rparr>) = fixed_fields s" "fixed_fields (s\<lparr>s_Status := x, s_Checksum := c\<rparr>) = fixed_fields s"
  by (simp_all add: fixed_fields_def)

lemma inv_fail_job:
  assumes "server_inv sv" "keeps_final sv (sv_files sv')" "sv_store sv' = sv_store sv" "i \<notin> set (job_ids sv)" "sv_verified sv' = sv_verified sv"
    "sv_jobs sv' = sv_jobs sv"
  shows "server_inv (fail_job i c sv')"
proof (rule inv_try_update [OF assms(1), where i = i])
  show "try_update (\<lambda>s. s_Status s = StCompleting)
      (\<lambda>s. s\<lparr>s_Status := StFailed, s_Checksum := (case c of None \<Rightarrow> s_Checksum s | x \<Rightarrow> x)\<rparr>) i (sv_store sv)
      = (fst (TryFailCompleteAsync c i (sv_store sv')), sv_store (fail_job i c sv'))"
    by (simp add: TryFailCompleteAsync_def assms(3))
  have same: "job_ids (fail_job i c sv') = job_ids sv" using assms(5,6) by (simp add: job_ids_def)
  show "distinct (job_ids (fail_job i c sv'))" using server_invD(4) [OF assms(1)] same by simp
qed (use assms in \<open>auto simp: job_ids_def\<close>)

lemma inv_process_merge:
  assumes inv: "server_inv sv" and opts: "o_AlwaysComputeFullChecksum opts" and j: "j_id j \<notin> set (job_ids sv)"
    and stat: "status_of sv (j_id j) = Some StCompleting \<or> status_of sv (j_id j) = Some StExpired"
    and t: "GetAsync (sv_store sv) (j_id j) = Some t" "fixed_fields t = fixed_fields s"
  shows "server_inv (process_merge opts now order j s sv)"
proof -
  let ?i = "j_id j" and ?name = "ResolveFinalPath (j_id j) (s_FileName s) (sv_files sv)"
  have good: "guid_N ?i" "underscore_free (s_FileName s)" "0 < s_TotalSize s" "s_TotalSize t = s_TotalSize s"
    using server_invD(1) [OF inv t(1)] t(2) by (auto simp: good_session_def fixed_fields_def)
  have not_done: "status_of sv ?i \<noteq> Some StCompleted" using stat by auto
  note keep = keeps_final_merge [OF inv good(1) not_done good(2)]
  have other: "map_of (f_final fs) m = map_of (f_final (sv_files sv)) m"
    if "job_merge opts order j s (sv_files sv) = (r, fs)" "m \<noteq> ?name" for r fs m
    using MergeAsync_final(1) [OF that(1) [unfolded job_merge_def] that(2)] .
  have merged: "name = ?name \<and> (\<exists>c. map_of (f_final fs) name = Some c \<and> length c = nat (s_TotalSize s) \<and> actual = sha256_hex_spec c)"
    if "job_merge opts order j s (sv_files sv) = (Some (name, actual), fs)" for name actual fs
    using MergeAsync_final(2) [OF that [unfolded job_merge_def] refl] opts by auto
  show ?thesis
  proof (rule process_merge_cases [of j opts now order s sv])
    fix e assume "process_merge opts now order j s sv = sv"
    then show ?thesis using inv by simp
  next
    fix fs assume m: "job_merge opts order j s (sv_files sv) = (None, fs)"
      and r: "process_merge opts now order j s sv = fail_job ?i (s_Checksum s) (sv\<lparr>sv_files := fs\<rparr>)"
    show ?thesis unfolding r using other [OF m] j by (intro inv_fail_job [OF inv]) (auto intro: keep)
  next
    fix name actual fs assume m: "job_merge opts order j s (sv_files sv) = (Some (name, actual), fs)"
      and r: "process_merge opts now order j s sv = fail_job ?i (Some actual) (sv\<lparr>sv_files := DeleteFinalFileAsync name fs\<rparr>)"
    have "map_of (f_final (DeleteFinalFileAsync name fs)) m = map_of (f_final (sv_files sv)) m" if "m \<noteq> ?name" for m
      using merged [OF m] other [OF m] that ResolveFinalPath_bare [OF good(1)] map_of_filter_key [of "\<lambda>n. n \<noteq> ?name" "f_final fs" m]
      by (auto simp: DeleteFinalFileAsync_def)
    then show ?thesis unfolding r using j by (intro inv_fail_job [OF inv]) (auto intro: keep)
  next
    fix name actual fs c fp assume m: "job_merge opts order j s (sv_files sv) = (Some (name, actual), fs)" and r: "process_merge opts now order j s sv = sv\<lparr>sv_files := fs\<rparr>"
    have k: "keeps_final sv fs" using other [OF m] by (auto intro: keep)
    have same: "job_ids (sv\<lparr>sv_files := fs\<rparr>) = job_ids sv" by (simp add: job_ids_def)
    show ?thesis unfolding r
      using inv_same_store [OF inv, of "sv\<lparr>sv_files := fs\<rparr>"] k same server_invD(4,6) [OF inv] by simp
  next
    fix name actual fs fp st assume m: "job_merge opts order j s (sv_files sv) = (Some (name, actual), fs)"
      and fin: "TryFinishCompleteAsync now name (if actual \<noteq> [] then Some actual else expected_checksum j s) fp ?i (sv_store sv) = (True, st)"
      and r: "process_merge opts now order j s sv = cache_Remove ?i (received_Remove ?i (sv\<lparr>sv_store := st, sv_files := fs\<rparr>))"
    obtain c where c: "map_of (f_final fs) name = Some c" "name = ?name" "length c = nat (s_TotalSize s)" "actual = sha256_hex_spec c" using merged [OF m] by blast
    define t' where "t' = t\<lparr>s_Status := StCompleted, s_FinalFileName := Some name, s_Checksum := Some actual,
      s_ContentFingerprint := (case fp of None \<Rightarrow> s_ContentFingerprint t | x \<Rightarrow> x), s_CompletedAt := Some now, s_Version := s_Version t + 1\<rparr>"
    have get: "GetAsync st k = (if k = ?i then Some t' else GetAsync (sv_store sv) k)" for k
      using try_update_get [OF fin [unfolded TryFinishCompleteAsync_def]] t(1) c(4) by (auto simp: t'_def sha256_hex_nonempty)
    have own: "underscore_free name \<or> owned ?i name" using ResolveFinalPath_cases [OF good(2)] c(2) by blast
    have same: "job_ids (process_merge opts now order j s sv) = job_ids sv" by (simp add: r job_ids_def)
    show ?thesis
    proof (rule inv_one_session [OF inv t(1), where t' = t'])
      show "fixed_fields t' = fixed_fields t" by (simp add: t'_def fixed_fields_def)
      show "keeps_final sv (sv_files (process_merge opts now order j s sv))" using other [OF m] by (auto simp: r intro: keep)
      show "distinct (job_ids (process_merge opts now order j s sv))" using same server_invD(4) [OF inv] by simp
      show "stored_file t' (sv_files (process_merge opts now order j s sv))
        \<and> (\<forall>name. s_FinalFileName t' = Some name \<longrightarrow> underscore_free name \<or> owned ?i name)"
        using c good own by (auto simp: r stored_file_def t'_def)
    qed (use get same j in \<open>auto simp: r\<close>)
  qed
qed

lemma inv_frame:
  assumes "server_inv sv" "sv_store sv' = sv_store sv" "f_final (sv_files sv') = f_final (sv_files sv)" "sv_jobs sv' = sv_jobs sv"
    "sv_verified sv' = sv_verified sv"
  shows "server_inv sv'"
proof -
  have "job_ids sv' = job_ids sv" using assms by (simp add: job_ids_def)
  then show ?thesis
    using inv_same_store [OF assms(1,2) keeps_final_same [OF assms(3)]] server_invD(4,6) [OF assms(1)] assms(5) by simp
qed

lemma inv_initiate:
  assumes inv: "server_inv sv" and i: "GetAsync (sv_store sv) i = None" "guid_N i" "underscore_free (ir_fileName rq)"
    and mkdir: "\<And>fs. f_final (mkdir i fs) = f_final fs"
  shows "server_inv (snd (InitiateAsync opts mkdir now i rq sv))"
proof -
  let ?t = "snd (InitiateAsync opts mkdir now i rq sv)"
  have fr: "f_final (sv_files ?t) = f_final (sv_files sv)" "sv_jobs ?t = sv_jobs sv" "sv_verified ?t = sv_verified sv"
    by (simp_all add: InitiateAsync_def Let_def mkdir split: option.split sum.split)
  note st = Initiate_store [OF i(1), of opts mkdir now rq]
  show ?thesis
  proof (cases "sv_store ?t = sv_store sv")
    case True
    then show ?thesis using inv_frame [OF inv] fr by blast
  next
    case False
    then obtain c f where a: "sv_store ?t = AddAsync (new_session opts now i rq c f) (sv_store sv)" "0 < ir_totalSize rq"
      using st by blast
    have get: "GetAsync (sv_store ?t) k = (if k = i then Some (new_session opts now i rq c f) else GetAsync (sv_store sv) k)" for k
      unfolding a(1) by (simp add: GetAsync_Add new_session_def)
    have new: "good_session i (new_session opts now i rq c f)" "s_Status (new_session opts now i rq c f) = StPending"
      using a(2) i(2,3) set_after_last by (auto simp: good_session_def new_session_def underscore_free_def GetFileName_def)
    have same: "job_ids ?t = job_ids sv" using fr by (simp add: job_ids_def)
    have old: "k \<noteq> i" if "status_of sv k \<noteq> None" for k using that i(1) by auto
    have stored: "stored_file s (sv_files ?t) = stored_file s (sv_files sv)" for s by (simp add: stored_file_def fr)
    show ?thesis
      unfolding server_inv_def get same stored fr
      using server_invD [OF inv] new old by (auto split: if_splits) metis+
  qed
qed

lemma inv_complete: "server_inv sv \<Longrightarrow> server_inv (snd (CompleteAsync now i c sv))"
proof -
  assume inv: "server_inv sv"
  let ?t = "snd (CompleteAsync now i c sv)"
  show ?thesis
  proof (cases "sv_store ?t = sv_store sv \<and> sv_jobs ?t = sv_jobs sv")
    case True
    moreover have "sv_files ?t = sv_files sv" "sv_verified ?t = sv_verified sv"
      by (simp_all add: CompleteAsync_def Let_def split: option.split prod.split bool.split)
    ultimately show ?thesis using inv_frame [OF inv] by simp
  next
    case False
    then obtain st s where b: "TryBeginCompleteAsync i (sv_store sv) = (True, st)" "GetAsync (sv_store sv) i = Some s" "s_Status s = StPending"
      "?t = (cache_Remove i sv)\<lparr>sv_store := st, sv_jobs := sv_jobs sv @ [\<lparr>j_id = i, j_checksum = c\<rparr>]\<rparr>"
      by (auto simp: CompleteAsync_def Let_def split: option.splits prod.splits bool.splits if_splits)
    have new: "i \<notin> set (job_ids sv)" using server_invD(5) [OF inv, of i] b(2,3) by auto
    have ids: "job_ids ?t = job_ids sv @ [i]" by (simp add: b(4) job_ids_def)
    show ?thesis
    proof (rule inv_try_update [OF inv, where i = i])
      show "try_update (\<lambda>s. s_Status s = StPending) (\<lambda>s. s\<lparr>s_Status := StCompleting\<rparr>) i (sv_store sv) = (True, sv_store ?t)"
        using b(1) by (simp add: b(4) TryBeginCompleteAsync_def)
    qed (use ids new server_invD(4) [OF inv] in \<open>auto simp: b(4) intro: keeps_final_same\<close>)
  qed
qed

lemma inv_abort: "server_inv sv \<Longrightarrow> server_inv (snd (AbortAsync i sv))"
proof -
  assume inv: "server_inv sv"
  let ?t = "snd (AbortAsync i sv)"
  have fr: "f_final (sv_files ?t) = f_final (sv_files sv)" "sv_jobs ?t = sv_jobs sv" "sv_verified ?t = sv_verified sv"
    by (simp_all add: AbortAsync_def Let_def split: option.split prod.split bool.split)
  show ?thesis
  proof (cases "sv_store ?t = sv_store sv")
    case True
    then show ?thesis using inv_frame [OF inv] fr by blast
  next
    case False
    then obtain st s where b: "TryAbortAsync i (sv_store sv) = (True, st)" "GetAsync (sv_store sv) i = Some s" "s_Status s = StPending"
      "sv_store ?t = st"
      by (auto simp: AbortAsync_def Let_def split: option.splits prod.splits bool.splits if_splits)
         (metis upload_status.exhaust)+
    have new: "i \<notin> set (job_ids sv)" using server_invD(5) [OF inv, of i] b(2,3) by auto
    have ids: "job_ids ?t = job_ids sv" using fr by (simp add: job_ids_def)
    show ?thesis
    proof (rule inv_try_update [OF inv, where i = i])
      show "try_update (\<lambda>s. s_Status s = StPending) (\<lambda>s. s\<lparr>s_Status := StAborted\<rparr>) i (sv_store sv) = (True, sv_store ?t)"
        using b(1,4) by (simp add: TryAbortAsync_def)
    qed (use ids new server_invD(4) [OF inv] fr in \<open>auto intro: keeps_final_same\<close>)
  qed
qed

lemma inv_cleanup: "server_inv sv \<Longrightarrow> server_inv (fold (cleanup_session now) ss sv)"
proof (induction ss arbitrary: sv)
  case (Cons s ss)
  let ?t = "cleanup_session now s sv"
  have fr: "f_final (sv_files ?t) = f_final (sv_files sv)" "sv_jobs ?t = sv_jobs sv" "sv_verified ?t = sv_verified sv"
    by (simp_all add: cleanup_session_def split: prod.split bool.split)
  have ids: "job_ids ?t = job_ids sv" using fr by (simp add: job_ids_def)
  have "sv_store ?t = snd (TryClaimExpiredAsync now (s_Id s) (sv_store sv))"
    using try_update_get [of _ _ "s_Id s" "sv_store sv"] by (auto simp: cleanup_session_def TryClaimExpiredAsync_def split: prod.split bool.split)
  then have "try_update (\<lambda>s. active (s_Status s) \<and> s_ExpiresAt s \<le> now) (\<lambda>s. s\<lparr>s_Status := StExpired\<rparr>) (s_Id s) (sv_store sv)
      = (fst (TryClaimExpiredAsync now (s_Id s) (sv_store sv)), sv_store ?t)" by (simp add: TryClaimExpiredAsync_def)
  then have "server_inv ?t"
    by (rule inv_try_update [OF Cons.prems]) (use ids server_invD(4) [OF Cons.prems] fr in \<open>auto intro: keeps_final_same\<close>)
  then show ?case using Cons.IH by simp
qed simp

lemma inv_job_start:
  assumes inv: "server_inv sv" and j: "sv_jobs sv = j # js" "sv_verified sv = None"
  shows "server_inv (process_verify j (sv\<lparr>sv_jobs := js\<rparr>))"
proof -
  let ?u = "sv\<lparr>sv_jobs := js\<rparr>"
  have ids: "job_ids sv = j_id j # job_ids ?u" by (simp add: job_ids_def j)
  have u: "server_inv ?u"
    using inv_same_store [OF inv, of ?u] ids server_invD(4) [OF inv] by (auto simp: j(2) intro: keeps_final_same)
  have new: "j_id j \<notin> set (job_ids ?u)" using server_invD(4) [OF inv] ids by simp
  show ?thesis
  proof (cases "\<exists>s. GetAsync (sv_store sv) (j_id j) = Some s \<and> process_verify j ?u = ?u\<lparr>sv_verified := Some (j, s)\<rparr>")
    case True
    then obtain s where s: "GetAsync (sv_store sv) (j_id j) = Some s" "process_verify j ?u = ?u\<lparr>sv_verified := Some (j, s)\<rparr>" by blast
    have "job_ids (?u\<lparr>sv_verified := Some (j, s)\<rparr>) = job_ids sv" by (simp add: job_ids_def j)
    then show ?thesis unfolding s(2)
      using inv_same_store [OF inv, of "?u\<lparr>sv_verified := Some (j, s)\<rparr>"] server_invD(4) [OF inv] s(1) by (auto intro: keeps_final_same)
  next
    case False
    then have "process_verify j ?u = ?u \<or> (\<exists>c. process_verify j ?u = fail_job (j_id j) c ?u)"
      by (auto simp: process_verify_def Let_def split: option.splits prod.splits if_splits)
    then show ?thesis using u inv_fail_job [OF u _ _ new, of ?u] keeps_final_same by auto
  qed
qed

lemma inv_job_merge:
  assumes inv: "server_inv sv" and v: "sv_verified sv = Some (j, s)" and opts: "o_AlwaysComputeFullChecksum opts"
  shows "server_inv (process_merge opts now order j s (sv\<lparr>sv_verified := None\<rparr>))"
proof -
  let ?u = "sv\<lparr>sv_verified := None\<rparr>"
  have ids: "job_ids sv = j_id j # job_ids ?u" by (simp add: job_ids_def v)
  have u: "server_inv ?u" using inv_same_store [OF inv, of ?u] ids server_invD(4) [OF inv] by (auto intro: keeps_final_same)
  obtain t where "GetAsync (sv_store sv) (j_id j) = Some t" "fixed_fields t = fixed_fields s" using server_invD(6) [OF inv v] by blast
  then show ?thesis
    using inv_process_merge [OF u opts, of j t s now order] ids server_invD(4) [OF inv] server_invD(5) [OF inv, of "j_id j"] by simp
qed

text \<open>File names without underscores, identifiers in the format of \<open>Guid.ToString("N")\<close>; digests are computed for every file, and
  creating directories does not touch final files.\<close>

definition good_event :: "server_event \<Rightarrow> bool" where
  "good_event e = (case e of SInitiate now i rq \<Rightarrow> guid_N i \<and> underscore_free (ir_fileName rq) | _ \<Rightarrow> True)"

definition good_config :: "server_config \<Rightarrow> bool" where
  "good_config cf \<longleftrightarrow> o_AlwaysComputeFullChecksum (cf_options cf) \<and> (\<forall>i fs. f_final (cf_mkdir cf i fs) = f_final fs)"

definition guarded_step :: "server_config \<Rightarrow> server_event \<Rightarrow> server \<Rightarrow> server option" where
  "guarded_step cf e sv = (if good_config cf \<and> good_event e then server_step cf e sv else None)"

interpretation server: invariant_system "guarded_step cf" server_inv for cf
proof
  fix sv e sv' assume inv: "server_inv sv" and "guarded_step cf e sv = Some sv'"
  then have ok: "o_AlwaysComputeFullChecksum (cf_options cf)" "\<And>i fs. f_final (cf_mkdir cf i fs) = f_final fs" "good_event e"
    and step: "server_step cf e sv = Some sv'" by (auto simp: guarded_step_def good_config_def split: if_splits)
  show "server_inv sv'"
  proof (cases e)
    case (SInitiate now i rq)
    then show ?thesis using step ok inv_initiate [OF inv] by (auto simp: server_step_def good_event_def split: if_splits)
  next
    case (SPutBegin now i index enc crc sha)
    then show ?thesis using step inv_frame [OF inv] by (auto simp: server_step_def)
  next
    case (SPutBody now n body br junk)
    then show ?thesis using step inv_frame [OF inv] by (auto simp: server_step_def split: if_splits)
  next
    case (SStatus now i)
    then show ?thesis using step inv_frame [OF inv] GetStatus_cache by (auto simp: server_step_def same_but_cache_def)
  next
    case SJobStart
    then show ?thesis using step inv_job_start [OF inv] by (auto simp: server_step_def split: list.splits option.splits)
  next
    case (SJobMerge now order)
    then show ?thesis using step inv_job_merge [OF inv _ ok(1)] by (auto simp: server_step_def split: option.splits prod.splits if_splits)
  qed (use step inv_complete [OF inv] inv_abort [OF inv] inv_cleanup [OF inv] in \<open>auto simp: server_step_def CleanupOnceAsync_def\<close>)
qed

lemma guarded_exec:
  "good_config cf \<Longrightarrow> list_all good_event es \<Longrightarrow> exec_events (guarded_step cf) es sv = exec_events (server_step cf) es sv"
  by (induction es arbitrary: sv) (auto simp: guarded_step_def split: option.split)

end
