(* ===== verification/Server_Upload.thy ===== *)
theory Server_Upload
  imports Server_Files
begin

text \<open>
  One upload from the first request to the file on disk, and two ways in which an upload cannot succeed any more: a connection
  that breaks while a chunk is sent, and a malformed checksum.
\<close>

section \<open>Chunks of a file\<close>

lemma chunk_count:
  assumes "0 < sz" "0 < cs"
  shows "sz \<le> int (nat \<lceil>of_int sz / (of_int cs :: rat)\<rceil>) * cs" "int (nat \<lceil>of_int sz / (of_int cs :: rat)\<rceil>) * cs < sz + cs"
proof -
  let ?q = "of_int sz / (of_int cs :: rat)"
  have cs: "(0::rat) < of_int cs" using assms by simp
  have "0 < ?q" using assms by simp
  then have n: "int (nat \<lceil>?q\<rceil>) = \<lceil>?q\<rceil>" by simp
  have "?q * of_int cs \<le> of_int \<lceil>?q\<rceil> * of_int cs" using cs by (intro mult_right_mono le_of_int_ceiling) simp
  then have "of_int sz \<le> (of_int (\<lceil>?q\<rceil> * cs) :: rat)" using cs by simp
  then show "sz \<le> int (nat \<lceil>?q\<rceil>) * cs" unfolding n of_int_le_iff .
  have "of_int \<lceil>?q\<rceil> < ?q + 1" by linarith
  then have "of_int \<lceil>?q\<rceil> * of_int cs < (?q + 1) * (of_int cs :: rat)" using cs by simp
  then have "of_int (\<lceil>?q\<rceil> * cs) < (of_int (sz + cs) :: rat)" using cs by (simp add: distrib_right)
  then show "int (nat \<lceil>?q\<rceil>) * cs < sz + cs" unfolding n of_int_less_iff .
qed

lemma pieces_total: "length bytes \<le> n * cs \<Longrightarrow> sum_list (map (\<lambda>k. length (piece cs bytes k)) [0..<n]) = length bytes"
  using arg_cong [OF concat_pieces [of bytes n cs], of length] by (simp add: length_concat o_def)

section \<open>Requests for chunks of a pending session\<close>

text \<open>The session is pending, the cache does not contradict the store, the parts in \<open>got\<close> are there, and nothing else is under way.\<close>

definition ready :: "upload_session \<Rightarrow> nat set \<Rightarrow> (nat \<Rightarrow> u8array) \<Rightarrow> server \<Rightarrow> bool" where
  "ready s got chunk sv \<longleftrightarrow> GetAsync (sv_store sv) (s_Id s) = Some s \<and> s_Status s = StPending
     \<and> (\<forall>t x. map_of (sv_cache sv) (s_Id s) = Some (t, x) \<longrightarrow> t = s)
     \<and> s_Id s \<in> set (f_dirs (sv_files sv)) \<and> (\<forall>k. part (sv_files sv) (s_Id s) k = (if k \<in> got then Some (chunk k) else None))
     \<and> sv_puts sv = [] \<and> sv_jobs sv = [] \<and> sv_verified sv = None"

lemma ensure_ready:
  assumes "ready s got chunk sv" "now < s_ExpiresAt s" "k < s_TotalChunks s"
  shows "\<exists>sv1. EnsureCanAcceptChunkAsync opts now (s_Id s) (int k) sv = (True, sv1) \<and> same_but_cache sv sv1
    \<and> (\<forall>t x. map_of (sv_cache sv1) (s_Id s) = Some (t, x) \<longrightarrow> t = s)"
proof -
  have live: "s_Status s = StPending" "\<not> IsExpired now s" "GetAsync (sv_store sv) (s_Id s) = Some s"
    using assms by (auto simp: ready_def IsExpired_def)
  obtain cached sv1 where c: "cache_TryGet now (s_Id s) sv = (cached, sv1)" by fastforce
  have sv1: "same_but_cache sv sv1" "cached = None \<or> cached = Some s" "\<forall>t x. map_of (sv_cache sv1) (s_Id s) = Some (t, x) \<longrightarrow> t = s"
    using c assms(1) map_of_filter_key [of "\<lambda>k. k \<noteq> s_Id s" "sv_cache sv" "s_Id s"]
    by (auto simp: cache_TryGet_def cache_Remove_def ready_def same_but_cache_def split: option.splits prod.splits if_splits)
  have "\<exists>sv2. GetSessionHotAsync opts now (s_Id s) sv = (Some s, sv2) \<and> same_but_cache sv sv2
      \<and> (\<forall>t x. map_of (sv_cache sv2) (s_Id s) = Some (t, x) \<longrightarrow> t = s)"
    using sv1 live by (auto simp: GetSessionHotAsync_def c same_but_cache_def cache_Set_def map_of_put)
  then show ?thesis using live(1,2) assms(3) by (auto simp: EnsureCanAcceptChunkAsync_def)
qed

lemma ready_cache:
  assumes "ready s got chunk sv" "same_but_cache sv sv1" "\<forall>t x. map_of (sv_cache sv1) (s_Id s) = Some (t, x) \<longrightarrow> t = s"
  shows "ready s got chunk sv1"
  using assms by (simp add: ready_def same_but_cache_def)

lemma marked_ready:
  assumes "ready s got chunk sv" "now < s_ExpiresAt s" "k < s_TotalChunks s"
  shows "\<exists>sv1. marked opts now (s_Id s) (int k) r sv = (r, sv1) \<and> same_but_cache sv sv1 \<and> ready s got chunk sv1"
  using ensure_ready [OF assms, of opts] ready_cache [OF assms(1)]
  by (auto simp: marked_def MarkChunkReceivedAsync_def same_but_cache_def)

text \<open>The headers and body of a chunk request.\<close>

record chunk_request =
  cr_encoding :: string
  cr_crc :: string
  cr_sha :: string
  cr_body :: u8array

definition put_of :: "guid \<Rightarrow> nat \<Rightarrow> chunk_request \<Rightarrow> chunk_put" where
  "put_of i k r = \<lparr>pt_id = i, pt_index = k, pt_encoding = cr_encoding r, pt_crc = cr_crc r, pt_sha = cr_sha r\<rparr>"

text \<open>A request the server accepts for this chunk: it decodes to the chunk and the headers that are required or sent agree with it.\<close>

definition good_chunk :: "server_config \<Rightarrow> guid \<Rightarrow> nat \<Rightarrow> u8array \<Rightarrow> chunk_request \<Rightarrow> bool" where
  "good_chunk cf i k data r \<longleftrightarrow> chunk_Wrap (cf_decoders cf) (cr_body r) (cr_encoding r) = Inr data
     \<and> (o_RequireChunkCrc32 (cf_options cf) \<longrightarrow> \<not> blank (Some (cr_crc r)))
     \<and> (o_RequireChunkSha256 (cf_options cf) \<longrightarrow> \<not> blank (Some (cr_sha r)))
     \<and> hashes_match (cf_crc32 cf) (put_of i k r) data"

lemma chunk_Wrap_supported: "chunk_Wrap d body enc = Inr x \<Longrightarrow> chunk_Wrap d [] enc \<noteq> Inl (UnsupportedEncoding e)"
  by (auto simp: chunk_Wrap_def decode_with_def Let_def split: if_splits option.splits)

lemma begin_ready:
  assumes ready: "ready s got chunk sv" and k: "now < s_ExpiresAt s" "k < s_TotalChunks s" "k \<notin> got"
    and good: "good_chunk cf (s_Id s) k data r"
  shows "\<exists>sv1. server_step cf (SPutBegin now (s_Id s) (int k) (cr_encoding r) (cr_crc r) (cr_sha r)) sv
      = Some (sv1\<lparr>sv_puts := [put_of (s_Id s) k r]\<rparr>) \<and> same_but_cache sv sv1 \<and> ready s got chunk sv1"
proof -
  obtain sv1 where e: "EnsureCanAcceptChunkAsync (cf_options cf) now (s_Id s) (int k) sv = (True, sv1)" "same_but_cache sv sv1"
    "ready s got chunk sv1" using ensure_ready [OF ready k(1,2)] ready_cache [OF ready] by blast
  have "\<not> ChunkExistsAsync (sv_files sv1) (s_Id s) k" using e(3) k(3) by (simp add: ChunkExistsAsync_def ready_def)
  moreover have "\<not> (case chunk_Wrap (cf_decoders cf) [] (cr_encoding r) of Inl (UnsupportedEncoding e) \<Rightarrow> True | _ \<Rightarrow> False)"
    using good chunk_Wrap_supported [of "cf_decoders cf" "cr_body r" "cr_encoding r" data]
    by (auto simp: good_chunk_def split: sum.split decode_error.split)
  ultimately have "UploadChunk_begin (cf_options cf) (cf_decoders cf) now (s_Id s) (int k) (cr_encoding r) (cr_crc r) (cr_sha r) sv
      = (RAwaitBody, sv1\<lparr>sv_puts := [put_of (s_Id s) k r]\<rparr>)"
    using e(1,3) good by (auto simp: UploadChunk_begin_def good_chunk_def put_of_def ready_def)
  then show ?thesis using e(2,3) by (auto simp: server_step_def)
qed

lemma save_body_ready:
  assumes "ready s got chunk sv" "pt_id p = s_Id s"
  shows "\<exists>fs. save_body opts p data (sv_files sv) = Some fs \<and> f_final fs = f_final (sv_files sv)
    \<and> s_Id s \<in> set (f_dirs fs) \<and> (\<forall>k. part fs (s_Id s) k = (if k = pt_index p then Some data else part (sv_files sv) (s_Id s) k))"
proof -
  let ?w = "write_part (s_Id s) (pt_index p) data (sv_files sv)"
  let ?w' = "write_part (s_Id s) (pt_index p) data ((sv_files sv)\<lparr>f_dirs := List.insert (s_Id s) (f_dirs (sv_files sv))\<rparr>)"
  have d: "s_Id s \<in> set (f_dirs (sv_files sv))" using assms(1) by (simp add: ready_def)
  have "save_body opts p data (sv_files sv) = Some ?w \<or> save_body opts p data (sv_files sv) = Some ?w'"
    using d assms(2) by (simp add: save_body_def SaveChunkAsync_pipe_def SaveChunkAsync_stream_def)
  moreover have "f_dirs ?w = f_dirs (sv_files sv)" "s_Id s \<in> set (f_dirs ?w')" by (simp_all add: write_part_def)
  ultimately show ?thesis using d by (elim disjE) simp_all
qed

definition put_events :: "guid \<Rightarrow> nat \<Rightarrow> time \<times> chunk_request \<Rightarrow> server_event list" where
  "put_events i k tr = [SPutBegin (fst tr) i (int k) (cr_encoding (snd tr)) (cr_crc (snd tr)) (cr_sha (snd tr)),
     SPutBody (fst tr) 0 (cr_body (snd tr)) None []]"

lemma put_chunk:
  assumes ready: "ready s got chunk sv" and k: "fst tr < s_ExpiresAt s" "k < s_TotalChunks s" "k \<notin> got"
    and good: "good_chunk cf (s_Id s) k (chunk k) (snd tr)"
  shows "\<exists>sv'. exec_events (server_step cf) (put_events (s_Id s) k tr) sv = Some sv' \<and> ready s (insert k got) chunk sv'
    \<and> sv_store sv' = sv_store sv \<and> f_final (sv_files sv') = f_final (sv_files sv)"
proof -
  let ?i = "s_Id s" and ?p = "put_of (s_Id s) k (snd tr)"
  obtain sv1 where b: "server_step cf (SPutBegin (fst tr) ?i (int k) (cr_encoding (snd tr)) (cr_crc (snd tr)) (cr_sha (snd tr))) sv
      = Some (sv1\<lparr>sv_puts := [?p]\<rparr>)" "same_but_cache sv sv1" "ready s got chunk sv1"
    using begin_ready [OF ready k good] by blast
  have p: "pt_id ?p = ?i" "pt_index ?p = k" "pt_encoding ?p = cr_encoding (snd tr)" by (simp_all add: put_of_def)
  obtain fs where fs: "save_body (cf_options cf) ?p (chunk k) (sv_files sv1) = Some fs" "f_final fs = f_final (sv_files sv1)"
    "?i \<in> set (f_dirs fs)" "\<forall>l. part fs ?i l = (if l = k then Some (chunk k) else part (sv_files sv1) ?i l)"
    using save_body_ready [OF b(3) p(1), of "cf_options cf" "chunk k"] p(2) by auto
  have r2: "ready s (insert k got) chunk (sv1\<lparr>sv_files := fs\<rparr>)" using b(3) fs(3,4) by (auto simp: ready_def)
  obtain sv2 where m: "marked (cf_options cf) (fst tr) ?i (int k) ROkStored (sv1\<lparr>sv_files := fs\<rparr>) = (ROkStored, sv2)"
    "same_but_cache (sv1\<lparr>sv_files := fs\<rparr>) sv2" "ready s (insert k got) chunk sv2"
    using marked_ready [OF r2 k(1,2)] by blast
  have w: "chunk_Wrap (cf_decoders cf) (cr_body (snd tr)) (cr_encoding (snd tr)) = Inr (chunk k)" "hashes_match (cf_crc32 cf) ?p (chunk k)"
    using good by (simp_all add: good_chunk_def)
  have "sv1\<lparr>sv_puts := []\<rparr> = sv1" using b(3) by (simp add: ready_def)
  then have "server_step cf (SPutBody (fst tr) 0 (cr_body (snd tr)) None []) (sv1\<lparr>sv_puts := [?p]\<rparr>) = Some sv2"
    using w fs(1) m(1) by (simp add: server_step_def UploadChunk_body_def p Let_def)
  then show ?thesis using b(1,2) m(2,3) fs(2) by (auto simp: put_events_def same_but_cache_def)
qed

lemma put_chunks:
  assumes "ready s got chunk sv" "distinct ks" "set ks \<inter> got = {}" "\<And>k. k \<in> set ks \<Longrightarrow> k < s_TotalChunks s"
    and "\<And>k. k \<in> set ks \<Longrightarrow> fst (tr k) < s_ExpiresAt s \<and> good_chunk cf (s_Id s) k (chunk k) (snd (tr k))"
  shows "\<exists>sv'. exec_events (server_step cf) (concat (map (\<lambda>k. put_events (s_Id s) k (tr k)) ks)) sv = Some sv'
    \<and> ready s (got \<union> set ks) chunk sv' \<and> f_final (sv_files sv') = f_final (sv_files sv)"
  using assms
proof (induction ks arbitrary: got sv)
  case (Cons k ks)
  obtain u where u: "exec_events (server_step cf) (put_events (s_Id s) k (tr k)) sv = Some u" "ready s (insert k got) chunk u"
    "f_final (sv_files u) = f_final (sv_files sv)"
    using put_chunk [OF Cons.prems(1), of "tr k" k cf] Cons.prems by force
  show ?case using Cons.IH [OF u(2)] Cons.prems u by (auto simp: exec_events_append)
qed simp

section \<open>Merging the parts of a file\<close>

lemma sum_list_strict_mono_one:
  fixes f g :: "'a \<Rightarrow> nat"
  assumes "\<And>x. x \<in> set xs \<Longrightarrow> f x \<le> g x" "\<exists>x\<in>set xs. f x < g x"
  shows "sum_list (map f xs) < sum_list (map g xs)"
  using assms
proof (induction xs)
  case (Cons x xs)
  have "sum_list (map f xs) \<le> sum_list (map g xs)" using Cons.prems(1) by (intro sum_list_mono) simp
  then show ?case using Cons by (cases "f x < g x") (auto simp: add_less_le_mono add_le_less_mono)
qed simp


lemma copy_parts_succeeds:
  assumes "\<And>k. k < n \<Longrightarrow> part fs i k = Some (piece cs bytes k)" "length bytes \<le> n * cs" "n * cs < length bytes + cs" "set ks \<subseteq> {..<n}"
  shows "fst (copy_parts fs i n (length bytes) cs ks c)"
  using assms(4)
proof (induction ks arbitrary: c)
  case (Cons k ks)
  then have k: "k < n" by simp
  have len: "length (piece cs bytes k) = min cs (length bytes - k * cs)" by (simp add: piece_def min.commute)
  have low: "k * cs < length bytes" using k assms(3) by (metis add_less_cancel_right Suc_leI mult_Suc mult_le_mono1 le_less_trans add.commute)
  have "k + 1 = n \<Longrightarrow> length (piece cs bytes k) = length bytes - k * cs" using len assms(2) by auto
  moreover have "length (piece cs bytes k) = cs" if "k + 1 \<noteq> n"
  proof -
    have "Suc (Suc k) * cs \<le> n * cs" using k that by (intro mult_le_mono1) simp
    then show ?thesis using len assms(3) by simp
  qed
  ultimately have "copy_part fs i n (length bytes) cs k c \<noteq> None"
    using assms(1) [OF k] low len by (auto simp: copy_part_def Let_def of_nat_diff simp del: of_nat_mult)
  then show ?case using Cons by auto
qed simp

lemma openable_ResolveFinalPath: "openable (GetFileName fileName) \<Longrightarrow> openable (ResolveFinalPath i fileName fs)"
  by (auto simp: openable_def ResolveFinalPath_def Let_def append_eq_Cons_conv)

lemma merge_succeeds:
  assumes name: "openable (GetFileName fileName)"
    and parts: "\<And>k. k < n \<Longrightarrow> part fs i k = Some (piece cs bytes k)" and n: "length bytes \<le> n * cs" "n * cs < length bytes + cs"
    and order: "set order = {..<n}"
  shows "MergeAsync single order i fileName n (length bytes) cs True fs =
    (Some (ResolveFinalPath i fileName fs, sha256_hex_spec bytes),
     DeleteTempFolderAsync i (write_final (ResolveFinalPath i fileName fs) bytes fs))"
proof -
  note can_open = openable_ResolveFinalPath [OF name, of i fs]
  have "append_parts fs i [0..<n] [] = (True, bytes)"
    using append_parts_all [of "[0..<n]" fs i "piece cs bytes" "[]"] parts concat_pieces [OF n(1)] by simp
  then have sp: "MergeSinglePassAsync i fileName n (length bytes) fs =
      (Some (ResolveFinalPath i fileName fs, sha256_hex_spec bytes), DeleteTempFolderAsync i (write_final (ResolveFinalPath i fileName fs) bytes fs))"
    using can_open by (simp add: MergeSinglePassAsync_def Let_def overlay_def)
  obtain c where c: "copy_parts fs i n (length bytes) cs order (replicate (length bytes) 0) = (True, c)"
    using copy_parts_succeeds [OF parts n, of order] order by (metis prod.collapse order_refl)
  note p = copy_parts_pieces [OF c _ n(2,1)]
  have "length c = length bytes" using p(1) order by simp
  moreover have "\<forall>k<n. piece cs c k = piece cs bytes k" using p(2) order parts by force
  ultimately have "c = bytes" using concat_pieces [OF n(1)] concat_pieces [of c n cs] n(1) by (metis (no_types, lifting) atLeastLessThan_upt lessThan_iff map_cong set_upt atLeastLessThan_iff)
  then have "MergeParallelThenHashAsync order i fileName n (length bytes) cs True fs =
      (Some (ResolveFinalPath i fileName fs, sha256_hex_spec bytes), DeleteTempFolderAsync i (write_final (ResolveFinalPath i fileName fs) bytes fs))"
    using c can_open by (simp add: MergeParallelThenHashAsync_def Let_def)
  with sp show ?thesis by (simp add: MergeAsync_def)
qed

lemma sha256_hex_string: "hex_string (sha256_hex_spec m)"
  using hash_hex_length [of "sha256_spec m"] hash_hex_chars [of "sha256_spec m"] by (simp add: hex_string_def sha256_hex_spec_def)

lemma hex_string_plain:
  assumes "hex_string c"
  shows "str_trim c = c" "\<not> blank (Some c)" "map to_lower c = c" "strip_start ''sha256:'' c = c"
proof -
  have hex: "\<forall>x\<in>set c. is_hex_char x" and len: "length c = 64" using assms by (simp_all add: hex_string_def list_all_iff)
  then have "\<forall>x\<in>set c. \<not> is_white_space x" using hex_char_plain by blast
  then show "str_trim c = c" "\<not> blank (Some c)" using len by (auto simp: str_trim_plain blank_def list_all_iff)
  show "map to_lower c = c" using hex hex_char_plain by (intro map_idI) blast
  have "\<not> starts_with ''sha256:'' c" using hex len by (cases c) (auto simp: starts_with_def is_hex_char_def)
  then show "strip_start ''sha256:'' c = c" by (simp add: strip_start_def)
qed

lemma NormalizeChecksum_hex: "hex_string c \<Longrightarrow> NormalizeChecksum (Some c) = Inr (Some c)"
  by (simp add: NormalizeChecksum_def hex_string_plain)

lemma equals_refl [simp]: "equals_ignore_case (Some c) c"
  by (simp add: equals_ignore_case_def)

section \<open>Completing\<close>

definition complete_events :: "guid \<Rightarrow> time \<Rightarrow> string option \<Rightarrow> time \<Rightarrow> nat list \<Rightarrow> server_event list" where
  "complete_events i tc checksum tm order = [SComplete tc i checksum, SJobStart, SJobMerge tm order]"

definition completing :: "upload_session \<Rightarrow> upload_session" where
  "completing s = s\<lparr>s_Status := StCompleting, s_Version := s_Version s + 1\<rparr>"

lemma begin_complete:
  assumes "ready s got chunk sv" "tc < s_ExpiresAt s"
  shows "\<exists>sv1. server_step cf (SComplete tc (s_Id s) checksum) sv = Some sv1 \<and> sv_jobs sv1 = [\<lparr>j_id = s_Id s, j_checksum = checksum\<rparr>]
    \<and> sv_verified sv1 = None \<and> sv_files sv1 = sv_files sv
    \<and> (\<forall>j. GetAsync (sv_store sv1) j = (if j = s_Id s then Some (completing s) else GetAsync (sv_store sv) j))"
proof -
  have s: "GetAsync (sv_store sv) (s_Id s) = Some s" "s_Status s = StPending" "\<not> IsExpired tc s" "sv_jobs sv = []" "sv_verified sv = None"
    using assms by (auto simp: ready_def IsExpired_def)
  obtain b st where b: "TryBeginCompleteAsync (s_Id s) (sv_store sv) = (b, st)" by fastforce
  have "b" using memory.step_wins [OF TrueI, of "BeginOp (s_Id s)" "sv_store sv"] b s(1,2) by simp
  then have g: "GetAsync st j = (if j = s_Id s then Some (completing s) else GetAsync (sv_store sv) j)" for j
    using try_update_get [OF b [unfolded TryBeginCompleteAsync_def]] s(1) by (auto simp: completing_def)
  have "server_step cf (SComplete tc (s_Id s) checksum) sv =
      Some ((cache_Remove (s_Id s) sv)\<lparr>sv_store := st, sv_jobs := [\<lparr>j_id = s_Id s, j_checksum = checksum\<rparr>]\<rparr>)"
    using s b \<open>b\<close> by (simp add: server_step_def CompleteAsync_def Let_def)
  then show ?thesis using g s(5) by auto
qed

lemma verify_ok:
  assumes "GetAsync (sv_store sv) (j_id j) = Some s" "s_Status s = StCompleting" "s_TotalSize s = int (length bytes)"
    and parts: "\<And>k. k < s_TotalChunks s \<Longrightarrow> part (sv_files sv) (j_id j) k = Some (piece cs bytes k)" and "length bytes \<le> s_TotalChunks s * cs"
  shows "process_verify j sv = sv\<lparr>sv_verified := Some (j, s)\<rparr>"
proof -
  have "map (\<lambda>k. case part (sv_files sv) (j_id j) k of None \<Rightarrow> 0 | Some c \<Rightarrow> length c) [0..<s_TotalChunks s]
      = map (\<lambda>k. length (piece cs bytes k)) [0..<s_TotalChunks s]" using parts by auto
  then have "VerifyChunksParallelAsync (j_id j) (s_TotalChunks s) (sv_files sv) = ([], length bytes)"
    using parts pieces_total [OF assms(5)] by (simp add: VerifyChunksParallelAsync_def del: map_eq_conv)
  then show ?thesis using assms(1-3) by (simp add: process_verify_def Let_def)
qed

lemma finish_merge:
  assumes "GetAsync (sv_store sv) (j_id j) = Some s" "s_Status s = StCompleting" "s_TotalSize s = int (length bytes)" "s_ChunkSize s = int cs"
    and "\<And>k. k < s_TotalChunks s \<Longrightarrow> part (sv_files sv) (j_id j) k = Some (piece cs bytes k)"
    and "length bytes \<le> s_TotalChunks s * cs" "s_TotalChunks s * cs < length bytes + cs" "set order = {..<s_TotalChunks s}"
    and "o_AlwaysComputeFullChecksum opts" and "openable (GetFileName (s_FileName s))"
    and sums: "j_checksum j \<in> {None, Some (sha256_hex_spec bytes)}" "s_Checksum s \<in> {None, Some (sha256_hex_spec bytes)}"
  shows "\<exists>t name. GetAsync (sv_store (process_merge opts now order j s sv)) (j_id j) = Some t \<and> s_Status t = StCompleted
    \<and> s_FinalFileName t = Some name \<and> map_of (f_final (sv_files (process_merge opts now order j s sv))) name = Some bytes
    \<and> s_Checksum t = Some (sha256_hex_spec bytes)"
proof -
  let ?name = "ResolveFinalPath (j_id j) (s_FileName s) (sv_files sv)" and ?sha = "sha256_hex_spec bytes"
  let ?fs = "DeleteTempFolderAsync (j_id j) (write_final ?name bytes (sv_files sv))"
  have m: "job_merge opts order j s (sv_files sv) = (Some (?name, ?sha), ?fs)"
    using merge_succeeds [OF assms(10,5-8)] assms(3,4,9) by (simp add: job_merge_def)
  have norm: "NormalizeChecksum (j_checksum j) = Inr (j_checksum j)"
    using sums(1) NormalizeChecksum_hex [OF sha256_hex_string] by (auto simp: NormalizeChecksum_def)
  have expected: "expected_checksum j s \<in> {None, Some ?sha}" using sums norm by (auto simp: expected_checksum_def split: option.split)
  have fin: "\<exists>t. fst (TryFinishCompleteAsync now name c fp (j_id j) (sv_store sv))
      \<and> GetAsync (snd (TryFinishCompleteAsync now name c fp (j_id j) (sv_store sv))) (j_id j) = Some t \<and> s_Status t = StCompleted
      \<and> s_FinalFileName t = Some name \<and> s_Checksum t = c" for name c fp
    using assms(1,2) by (simp add: TryFinishCompleteAsync_def try_update_def GetAsync_def map_of_put)
  show ?thesis
  proof (rule process_merge_cases [of j opts now order s sv])
    fix e assume "NormalizeChecksum (j_checksum j) = Inl e"
    then show ?thesis using norm by simp
  next
    fix fs assume "job_merge opts order j s (sv_files sv) = (None, fs)"
    then show ?thesis using m by simp
  next
    fix name actual fs e assume "job_merge opts order j s (sv_files sv) = (Some (name, actual), fs)"
      "expected_checksum j s = Some e" "\<not> equals_ignore_case (Some actual) e"
    then show ?thesis using m expected by simp
  next
    fix name actual fs c fp assume "\<not> fst (TryFinishCompleteAsync now name c fp (j_id j) (sv_store sv))"
    then show ?thesis using fin by blast
  next
    fix name actual fs fp st assume f: "job_merge opts order j s (sv_files sv) = (Some (name, actual), fs)"
      "TryFinishCompleteAsync now name (if actual \<noteq> [] then Some actual else expected_checksum j s) fp (j_id j) (sv_store sv) = (True, st)"
      "process_merge opts now order j s sv = cache_Remove (j_id j) (received_Remove (j_id j) (sv\<lparr>sv_store := st, sv_files := fs\<rparr>))"
    have "name = ?name" "actual = ?sha" "fs = ?fs" using f(1) m by auto
    then show ?thesis using f(2,3) fin [of name "Some ?sha" fp] by (auto simp: sha256_hex_nonempty)
  qed
qed

lemma complete_ready:
  assumes ready: "ready s got (piece cs bytes) sv" and got: "{..<s_TotalChunks s} \<subseteq> got" and size: "s_TotalSize s = int (length bytes)" "s_ChunkSize s = int cs"
    "length bytes \<le> s_TotalChunks s * cs" "s_TotalChunks s * cs < length bytes + cs"
    and times: "tc < s_ExpiresAt s" and order: "sort order = [0..<s_TotalChunks s]" and opts: "o_AlwaysComputeFullChecksum (cf_options cf)"
    and name: "openable (GetFileName (s_FileName s))"
    and sums: "checksum \<in> {None, Some (sha256_hex_spec bytes)}" "s_Checksum s \<in> {None, Some (sha256_hex_spec bytes)}"
  shows "\<exists>sv' t name. exec_events (server_step cf) (complete_events (s_Id s) tc checksum tm order) sv = Some sv'
    \<and> GetAsync (sv_store sv') (s_Id s) = Some t \<and> s_Status t = StCompleted \<and> s_FinalFileName t = Some name
    \<and> map_of (f_final (sv_files sv')) name = Some bytes \<and> s_Checksum t = Some (sha256_hex_spec bytes)"
proof -
  let ?j = "\<lparr>j_id = s_Id s, j_checksum = checksum\<rparr>" and ?s = "completing s"
  obtain sv1 where sv1: "server_step cf (SComplete tc (s_Id s) checksum) sv = Some sv1" "sv_jobs sv1 = [?j]" "sv_verified sv1 = None"
    "sv_files sv1 = sv_files sv" "GetAsync (sv_store sv1) (s_Id s) = Some ?s"
    using begin_complete [OF ready times, of cf checksum] by auto
  have parts: "part (sv_files sv) (s_Id s) k = Some (piece cs bytes k)" if "k < s_TotalChunks s" for k
    using ready got that by (auto simp: ready_def)
  have f: "s_Status ?s = StCompleting" "s_TotalSize ?s = s_TotalSize s" "s_ChunkSize ?s = s_ChunkSize s" "s_TotalChunks ?s = s_TotalChunks s"
    "s_Checksum ?s = s_Checksum s" "s_FileName ?s = s_FileName s" by (simp_all add: completing_def)
  let ?u = "sv1\<lparr>sv_jobs := []\<rparr>"
  have v: "process_verify ?j ?u = ?u\<lparr>sv_verified := Some (?j, ?s)\<rparr>"
    using sv1 parts size f by (intro verify_ok [where bytes = bytes and cs = cs]) simp_all
  then have s2: "server_step cf SJobStart sv1 = Some (?u\<lparr>sv_verified := Some (?j, ?s)\<rparr>)" using sv1 by (simp add: server_step_def)
  let ?v = "?u\<lparr>sv_verified := None\<rparr>"
  have s3: "server_step cf (SJobMerge tm order) (?u\<lparr>sv_verified := Some (?j, ?s)\<rparr>) = Some (process_merge (cf_options cf) tm order ?j ?s ?v)"
    using order f by (simp add: server_step_def)
  have "set order = {..<s_TotalChunks s}" using order by (metis set_sort set_upt atLeast0LessThan)
  then have "\<exists>t name. GetAsync (sv_store (process_merge (cf_options cf) tm order ?j ?s ?v)) (s_Id s) = Some t \<and> s_Status t = StCompleted
    \<and> s_FinalFileName t = Some name \<and> map_of (f_final (sv_files (process_merge (cf_options cf) tm order ?j ?s ?v))) name = Some bytes
    \<and> s_Checksum t = Some (sha256_hex_spec bytes)"
    using finish_merge [of ?v ?j ?s bytes cs order "cf_options cf" tm] sv1 parts size f opts name sums by simp
  then show ?thesis using sv1(1) s2 s3 by (simp add: complete_events_def)
qed

section \<open>A whole upload\<close>

text \<open>A server on which nothing is under way and that does not know the identifier.\<close>

definition idle_for :: "guid \<Rightarrow> server \<Rightarrow> bool" where
  "idle_for i sv \<longleftrightarrow> GetAsync (sv_store sv) i = None \<and> map_of (sv_cache sv) i = None \<and> (\<forall>k. part (sv_files sv) i k = None)
     \<and> sv_puts sv = [] \<and> sv_jobs sv = [] \<and> sv_verified sv = None"

lemma Initiate_new:
  assumes "InitiateAsync opts mkdir now i rq sv = (Inr (s, False), sv0)"
  shows "\<exists>c f. s = new_session opts now i rq c f \<and> NormalizeChecksum (ir_checksum rq) = Inr c \<and> 0 < ir_totalSize rq \<and> 0 < ir_chunkSize rq
    \<and> sv0 = cache_Set opts now s (received_GetOrCreate opts now i (sv\<lparr>sv_store := AddAsync s (sv_store sv), sv_files := mkdir i (sv_files sv)\<rparr>))"
  using assms by (auto simp: InitiateAsync_def valid_request_def Let_def split: option.splits sum.splits if_splits)

lemma int_chunk_limit: "int ((2 ^ 31 - 1) * n) = (2 ^ 31 - 1) * int n"
  by simp

lemma chunk_count_fits:
  fixes a c :: int
  assumes "0 < a" "0 < c" "a \<le> (2 ^ 31 - 1) * c"
  shows "to_int32 \<lceil>of_int a / (of_int c :: rat)\<rceil> = \<lceil>of_int a / (of_int c :: rat)\<rceil>"
proof -
  have "(of_int a :: rat) \<le> of_int ((2 ^ 31 - 1) * c)" using assms(3) by (simp only: of_int_le_iff)
  then have "of_int a / (of_int c :: rat) \<le> of_int (2 ^ 31 - 1)"
    using assms(2) by (simp add: divide_le_eq)
  then have "\<lceil>of_int a / (of_int c :: rat)\<rceil> \<le> 2 ^ 31 - 1" by (simp only: ceiling_le_iff)
  moreover have "(0 :: rat) < of_int a / of_int c" using assms(1,2) by simp
  then have "0 < \<lceil>of_int a / (of_int c :: rat)\<rceil>" by (simp only: zero_less_ceiling)
  ultimately show ?thesis by (simp add: to_int32_def)
qed

lemma upload_run:
  assumes idle: "idle_for i sv" and initiate: "InitiateAsync (cf_options cf) (cf_mkdir cf) now i rq sv = (Inr (s, False), sv0)"
    and rq: "ir_totalSize rq = int (length bytes)" "ir_chunkSize rq = int cs"
    and fits: "length bytes \<le> (2 ^ 31 - 1) * cs" and name: "openable (GetFileName (ir_fileName rq))"
    and mkdir: "\<And>fs. cf_mkdir cf i fs = fs\<lparr>f_dirs := List.insert i (f_dirs fs)\<rparr>"
    and ks: "distinct ks" "set ks = {..<s_TotalChunks s}"
    and puts: "\<And>k. k < s_TotalChunks s \<Longrightarrow> fst (tr k) < s_ExpiresAt s \<and> good_chunk cf i k (piece cs bytes k) (snd (tr k))"
    and times: "tc < s_ExpiresAt s" and order: "sort order = [0..<s_TotalChunks s]" and opts: "o_AlwaysComputeFullChecksum (cf_options cf)"
    and sums: "checksum \<in> {None, Some (sha256_hex_spec bytes)}" "ir_checksum rq \<in> {None, Some (sha256_hex_spec bytes)}"
  shows "\<exists>sv' t name. exec_events (server_step cf) (SInitiate now i rq # concat (map (\<lambda>k. put_events i k (tr k)) ks)
      @ complete_events i tc checksum tm order) sv = Some sv'
    \<and> GetAsync (sv_store sv') i = Some t \<and> s_Status t = StCompleted \<and> s_FinalFileName t = Some name
    \<and> map_of (f_final (sv_files sv')) name = Some bytes \<and> s_Checksum t = Some (sha256_hex_spec bytes)"
proof -
  obtain c f where new: "s = new_session (cf_options cf) now i rq c f" "NormalizeChecksum (ir_checksum rq) = Inr c"
    "0 < ir_totalSize rq" "0 < ir_chunkSize rq"
    and sv0: "sv0 = cache_Set (cf_options cf) now s (received_GetOrCreate (cf_options cf) now i
      (sv\<lparr>sv_store := AddAsync s (sv_store sv), sv_files := cf_mkdir cf i (sv_files sv)\<rparr>))"
    using Initiate_new [OF initiate] by blast
  have s: "s_Id s = i" "s_TotalSize s = int (length bytes)" "s_ChunkSize s = int cs" "s_Status s = StPending" "s_Version s = 0"
    "s_TotalChunks s = nat (to_int32 \<lceil>of_int (ir_totalSize rq) / (of_int (ir_chunkSize rq) :: rat)\<rceil>)" "s_Checksum s = c"
    using rq by (simp_all add: new(1) new_session_def)
  have can_open: "openable (GetFileName (s_FileName s))" using name by (simp add: new(1) new_session_def GetFileName_idem)
  have "ir_totalSize rq \<le> (2 ^ 31 - 1) * ir_chunkSize rq"
    using fits unfolding rq by (simp only: of_nat_le_iff [symmetric, where 'a = int] int_chunk_limit)
  then have count: "s_TotalChunks s = nat \<lceil>of_int (ir_totalSize rq) / (of_int (ir_chunkSize rq) :: rat)\<rceil>"
    using chunk_count_fits [OF new(3,4)] s(6) by simp
  have "c \<in> {None, Some (sha256_hex_spec bytes)}"
    using sums(2) new(2) NormalizeChecksum_hex [OF sha256_hex_string] by (auto simp: NormalizeChecksum_def)
  then have sum: "s_Checksum s \<in> {None, Some (sha256_hex_spec bytes)}" using s by simp
  have n: "length bytes \<le> s_TotalChunks s * cs" "s_TotalChunks s * cs < length bytes + cs"
  proof -
    have "int (length bytes) \<le> int (s_TotalChunks s) * int cs" "int (s_TotalChunks s) * int cs < int (length bytes) + int cs"
      using chunk_count [OF new(3,4)] by (simp_all only: count rq)
    then show "length bytes \<le> s_TotalChunks s * cs" "s_TotalChunks s * cs < length bytes + cs"
      by (metis of_nat_mult of_nat_le_iff) (metis of_nat_mult of_nat_add of_nat_less_iff \<open>int (s_TotalChunks s) * int cs < int (length bytes) + int cs\<close>)
  qed
  have first: "server_step cf (SInitiate now i rq) sv = Some sv0" using idle initiate by (simp add: server_step_def idle_for_def)
  have "s\<lparr>s_Version := 0\<rparr> = s" using s(5) by simp
  then have "ready s {} (piece cs bytes) sv0"
    using idle s by (simp add: ready_def sv0 idle_for_def mkdir GetAsync_Add cache_Set_def map_of_put)
  then obtain sv1 where sv1: "exec_events (server_step cf) (concat (map (\<lambda>k. put_events i k (tr k)) ks)) sv0 = Some sv1"
    "ready s ({} \<union> set ks) (piece cs bytes) sv1"
    using put_chunks [of s "{}" "piece cs bytes" sv0 ks tr cf] ks puts s(1) by auto
  show ?thesis
    using complete_ready [OF sv1(2) _ s(2,3) n times order opts can_open sums(1) sum, of tm] first sv1(1) ks(2) s(1)
    by (auto simp: exec_events_append)
qed


text \<open>Five bytes in chunks of two, sent in the order 2, 0, 1.\<close>

definition demo_guid :: guid where
  "demo_guid = replicate 32 (CHR ''a'')"

definition demo_rq :: initiate_request where
  "demo_rq = \<lparr>ir_fileName = ''f.txt'', ir_totalSize = 5, ir_chunkSize = 2, ir_contentType = None, ir_checksum = None,
     ir_fingerprint = None, ir_clientIp = None\<rparr>"

definition demo_chunk :: "nat \<Rightarrow> time \<times> chunk_request" where
  "demo_chunk k = (1, \<lparr>cr_encoding = [], cr_crc = [], cr_sha = [], cr_body = piece 2 [1, 2, 3, 4, 5] k\<rparr>)"

definition demo_session :: upload_session where
  "demo_session = new_session plain_options 0 demo_guid demo_rq None None"

lemma demo_initiate:
  "\<exists>sv0. InitiateAsync plain_options (cf_mkdir plain_config) 0 demo_guid demo_rq empty_server = (Inr (demo_session, False), sv0)"
proof -
  have "valid_request plain_options (ir_fileName demo_rq) (ir_totalSize demo_rq) (ir_chunkSize demo_rq)" by code_simp
  moreover have "EnforceQuota plain_options 0 (ir_totalSize demo_rq) (ir_clientIp demo_rq) (sv_store empty_server)" by code_simp
  moreover have "find_duplicate plain_options None None (ir_totalSize demo_rq) empty_server = None" by code_simp
  ultimately show ?thesis
    by (simp add: InitiateAsync_def NormalizeChecksum_def Fingerprint_Normalize_def demo_rq_def blank_def demo_session_def Let_def)
qed

lemma demo_facts:
  "idle_for demo_guid empty_server" "s_TotalChunks demo_session = 3" "s_ExpiresAt demo_session = 86400"
  "good_chunk plain_config demo_guid k (piece 2 [1, 2, 3, 4, 5] k) (snd (demo_chunk k))"
proof -
  have "\<lceil>5 / (2 :: rat)\<rceil> = 3" by (simp add: ceiling_eq_iff)
  then show "s_TotalChunks demo_session = 3" by (simp add: demo_session_def new_session_def demo_rq_def to_int32_def)
  show "s_ExpiresAt demo_session = 86400" by (simp add: demo_session_def new_session_def plain_options_def)
qed (simp_all add: idle_for_def empty_server_def GetAsync_def part_def plain_config_def good_chunk_def demo_chunk_def chunk_Wrap_none
      plain_options_def hashes_match_def put_of_def blank_def)

lemma demo_open: "openable (GetFileName (ir_fileName demo_rq))"
  by code_simp


text \<open>C3. On a server that always computes the full checksum, and for clients whose file names contain no underscore, a completed
  session keeps its promise: at any later time, after whatever other requests and background work, the final file it names is
  stored, has the size the client announced, and its SHA-256 is the checksum in the session. So a file that is found again by its
  checksum is a file with that checksum, and uploads do not overwrite each other's files. (Both conditions are needed: without the
  option the merged file is not hashed, and a name that ends in an underscore and the identifier of another upload is overwritten.
  Identifiers are in the printed form of a \<open>Guid\<close>, and creating a part directory touches no final file.)\<close>

theorem completed_file_intact:
  assumes "exec_events (server_step cf) es empty_server = Some sv" and "list_all good_event es" and "good_config cf"
    and "GetAsync (sv_store sv) i = Some s" and "s_Status s = StCompleted"
  shows "\<exists>name c. s_FinalFileName s = Some name \<and> map_of (f_final (sv_files sv)) name = Some c
    \<and> int (length c) = s_TotalSize s \<and> s_Checksum s = Some (sha256_hex_spec c)"
proof -
  have "server_inv empty_server" by (simp add: server_inv_def empty_server_def GetAsync_def job_ids_def)
  then have "server_inv sv" using server.inv_exec [of empty_server cf es sv] guarded_exec [OF assms(3,2)] assms(1) by simp
  then show ?thesis using server_invD(2) assms(4,5) by (auto simp: stored_file_def)
qed

theorem completed_file_intact_witness:
  "\<exists>es sv s name c. exec_events (server_step plain_config) es empty_server = Some sv \<and> GetAsync (sv_store sv) demo_guid = Some s
     \<and> s_Status s = StCompleted \<and> s_FinalFileName s = Some name \<and> map_of (f_final (sv_files sv)) name = Some c
     \<and> int (length c) = s_TotalSize s \<and> s_Checksum s = Some (sha256_hex_spec c)"
proof -
  let ?es = "SInitiate 0 demo_guid demo_rq # concat (map (\<lambda>k. put_events demo_guid k (demo_chunk k)) [2, 0, 1])
    @ complete_events demo_guid 2 None 3 [0, 1, 2]"
  obtain sv0 where "InitiateAsync plain_options (cf_mkdir plain_config) 0 demo_guid demo_rq empty_server = (Inr (demo_session, False), sv0)"
    using demo_initiate by blast
  then have "\<exists>sv t name. exec_events (server_step plain_config) ?es empty_server = Some sv \<and> GetAsync (sv_store sv) demo_guid = Some t
      \<and> s_Status t = StCompleted \<and> s_FinalFileName t = Some name \<and> map_of (f_final (sv_files sv)) name = Some [1, 2, 3, 4, 5]
      \<and> s_Checksum t = Some (sha256_hex_spec [1, 2, 3, 4, 5])"
    by (intro upload_run [where s = demo_session and cs = 2])
      (simp_all add: demo_facts demo_open, simp_all add: demo_rq_def plain_config_def plain_options_def demo_chunk_def numeral_3_eq_3, auto)
  then obtain sv t where t: "exec_events (server_step plain_config) ?es empty_server = Some sv" "GetAsync (sv_store sv) demo_guid = Some t"
    "s_Status t = StCompleted" by blast
  have "list_all good_event ?es" by code_simp
  moreover have "good_config plain_config" by (simp add: good_config_def plain_config_def plain_options_def)
  ultimately show ?thesis using completed_file_intact [OF t(1) _ _ t(2,3)] t by blast
qed

section \<open>Uploads that cannot succeed\<close>

text \<open>The job of a session whose parts do not add up to the size fails it.\<close>

lemma verify_fails:
  assumes "GetAsync (sv_store sv) (j_id j) = Some s" "s_Status s = StCompleting"
    and "\<And>k. k < s_TotalChunks s \<Longrightarrow> part (sv_files sv) (j_id j) k = Some (chunk k)"
    and "s_TotalSize s \<noteq> int (sum_list (map (\<lambda>k. length (chunk k)) [0..<s_TotalChunks s]))"
  shows "status_of (process_verify j sv) (j_id j) = Some StFailed"
proof -
  have "map (\<lambda>k. case part (sv_files sv) (j_id j) k of None \<Rightarrow> 0 | Some c \<Rightarrow> length c) [0..<s_TotalChunks s]
      = map (\<lambda>k. length (chunk k)) [0..<s_TotalChunks s]" using assms(3) by auto
  then have "VerifyChunksParallelAsync (j_id j) (s_TotalChunks s) (sv_files sv) = ([], sum_list (map (\<lambda>k. length (chunk k)) [0..<s_TotalChunks s]))"
    using assms(3) by (simp add: VerifyChunksParallelAsync_def del: map_eq_conv)
  then have "process_verify j sv = fail_job (j_id j) (s_Checksum s) sv" using assms(1,2,4) by (simp add: process_verify_def Let_def)
  moreover have "status_of (fail_job (j_id j) c sv) (j_id j) = Some StFailed" for c
    using assms(1,2) by (simp add: TryFailCompleteAsync_def try_update_def GetAsync_def map_of_put)
  ultimately show ?thesis by simp
qed

lemma broken_body:
  assumes ready: "ready s got chunk sv" and k: "fst tr < s_ExpiresAt s" "k < s_TotalChunks s" "k \<notin> got"
    and good: "good_chunk cf (s_Id s) k (chunk k) (snd tr)"
  shows "\<exists>sv1. exec_events (server_step cf) [SPutBegin (fst tr) (s_Id s) (int k) (cr_encoding (snd tr)) (cr_crc (snd tr)) (cr_sha (snd tr)),
      SPutBody (fst tr) 0 (cr_body (snd tr)) (Some m) []] sv = Some sv1 \<and> ready s (insert k got) (chunk(k := take m (chunk k))) sv1"
proof -
  let ?i = "s_Id s" and ?p = "put_of (s_Id s) k (snd tr)" and ?c = "take m (chunk k)"
  obtain sv1 where b: "server_step cf (SPutBegin (fst tr) ?i (int k) (cr_encoding (snd tr)) (cr_crc (snd tr)) (cr_sha (snd tr))) sv
      = Some (sv1\<lparr>sv_puts := [?p]\<rparr>)" "ready s got chunk sv1"
    using begin_ready [OF ready k good] by blast
  have p: "pt_id ?p = ?i" "pt_index ?p = k" "pt_encoding ?p = cr_encoding (snd tr)" by (simp_all add: put_of_def)
  obtain fs where fs: "save_body (cf_options cf) ?p ?c (sv_files sv1) = Some fs"
    "?i \<in> set (f_dirs fs)" "\<forall>l. part fs ?i l = (if l = k then Some ?c else part (sv_files sv1) ?i l)"
    using save_body_ready [OF b(2) p(1), of "cf_options cf" ?c] p(2) by auto
  have "chunk_Wrap (cf_decoders cf) (cr_body (snd tr)) (cr_encoding (snd tr)) = Inr (chunk k)" using good by (simp add: good_chunk_def)
  moreover have "sv1\<lparr>sv_puts := []\<rparr> = sv1" using b(2) by (simp add: ready_def)
  ultimately have "server_step cf (SPutBody (fst tr) 0 (cr_body (snd tr)) (Some m) []) (sv1\<lparr>sv_puts := [?p]\<rparr>) = Some (sv1\<lparr>sv_files := fs\<rparr>)"
    using fs(1) by (simp add: server_step_def UploadChunk_body_def p Let_def)
  moreover have "ready s (insert k got) (chunk(k := ?c)) (sv1\<lparr>sv_files := fs\<rparr>)" using b(2) fs(2,3) k(3) by (auto simp: ready_def)
  ultimately show ?thesis using b(1) by auto
qed

lemma retry_idempotent:
  assumes "ready s got chunk sv" "t < s_ExpiresAt s" "k < s_TotalChunks s" "k \<in> got"
  shows "\<exists>sv1. UploadChunk_begin opts d t (s_Id s) (int k) e c h sv = (ROkIdempotent, sv1) \<and> ready s got chunk sv1"
proof -
  obtain u where u: "EnsureCanAcceptChunkAsync opts t (s_Id s) (int k) sv = (True, u)" "ready s got chunk u"
    using ensure_ready [OF assms(1-3)] ready_cache [OF assms(1)] by blast
  obtain w where w: "marked opts t (s_Id s) (int k) ROkIdempotent u = (ROkIdempotent, w)" "ready s got chunk w"
    using marked_ready [OF u(2) assms(2,3)] by blast
  have "ChunkExistsAsync (sv_files u) (s_Id s) k" using u(2) assms(4) by (simp add: ChunkExistsAsync_def ready_def)
  then show ?thesis using u(1) w by (simp add: UploadChunk_begin_def)
qed

text \<open>C23. A connection that breaks once while a chunk is being sent ruins the upload. The part that was written stays on disk;
  when the client sends the chunk again the server answers that it has it already; and after the other chunks have arrived, completing
  fails the session for good.\<close>

theorem broken_chunk_fails_upload:
  assumes "ready s ({..<s_TotalChunks s} - {k}) (piece cs bytes) sv" and "k < s_TotalChunks s" and "m < length (piece cs bytes k)"
    and "good_chunk cf (s_Id s) k (piece cs bytes k) (snd tr)" and "fst tr < s_ExpiresAt s" and "retry < s_ExpiresAt s" and "tc < s_ExpiresAt s"
    and "s_TotalSize s = int (length bytes)" and "length bytes \<le> s_TotalChunks s * cs"
  shows "\<exists>sv1 sv2 sv3. exec_events (server_step cf) [SPutBegin (fst tr) (s_Id s) (int k) (cr_encoding (snd tr)) (cr_crc (snd tr)) (cr_sha (snd tr)),
        SPutBody (fst tr) 0 (cr_body (snd tr)) (Some m) []] sv = Some sv1
    \<and> UploadChunk_begin (cf_options cf) (cf_decoders cf) retry (s_Id s) (int k) (cr_encoding (snd tr)) (cr_crc (snd tr)) (cr_sha (snd tr)) sv1
        = (ROkIdempotent, sv2)
    \<and> exec_events (server_step cf) [SComplete tc (s_Id s) checksum, SJobStart] sv2 = Some sv3 \<and> status_of sv3 (s_Id s) = Some StFailed"
proof -
  let ?n = "s_TotalChunks s" and ?chunk = "(piece cs bytes)(k := take m (piece cs bytes k))"
  obtain sv1 where sv1: "exec_events (server_step cf) [SPutBegin (fst tr) (s_Id s) (int k) (cr_encoding (snd tr)) (cr_crc (snd tr)) (cr_sha (snd tr)),
      SPutBody (fst tr) 0 (cr_body (snd tr)) (Some m) []] sv = Some sv1" "ready s (insert k ({..<?n} - {k})) ?chunk sv1"
    using broken_body [OF assms(1,5,2) _ assms(4), of m] by auto
  have all: "insert k ({..<?n} - {k}) = {..<?n}" using assms(2) by auto
  obtain sv2 where sv2: "UploadChunk_begin (cf_options cf) (cf_decoders cf) retry (s_Id s) (int k) (cr_encoding (snd tr)) (cr_crc (snd tr))
      (cr_sha (snd tr)) sv1 = (ROkIdempotent, sv2)" "ready s {..<?n} ?chunk sv2"
    using retry_idempotent [OF sv1(2) assms(6,2) insertI1, unfolded all] by blast
  let ?j = "\<lparr>j_id = s_Id s, j_checksum = checksum\<rparr>"
  obtain u where u: "server_step cf (SComplete tc (s_Id s) checksum) sv2 = Some u" "sv_jobs u = [?j]" "sv_verified u = None"
    "sv_files u = sv_files sv2" "GetAsync (sv_store u) (s_Id s) = Some (completing s)"
    using begin_complete [OF sv2(2) assms(7), of cf checksum] by auto
  have "sum_list (map (\<lambda>l. length (?chunk l)) [0..<?n]) < sum_list (map (\<lambda>l. length (piece cs bytes l)) [0..<?n])"
    using assms(2,3) by (intro sum_list_strict_mono_one) auto
  then have short: "s_TotalSize (completing s) \<noteq> int (sum_list (map (\<lambda>l. length (?chunk l)) [0..<s_TotalChunks (completing s)]))"
    using pieces_total [OF assms(9)] assms(8) by (simp add: completing_def)
  have "status_of (process_verify ?j (u\<lparr>sv_jobs := []\<rparr>)) (j_id ?j) = Some StFailed"
    using u(4,5) sv2(2) short by (intro verify_fails [where s = "completing s" and chunk = ?chunk]) (simp_all add: completing_def ready_def)
  moreover have "server_step cf SJobStart u = Some (process_verify ?j (u\<lparr>sv_jobs := []\<rparr>))" using u(2,3) by (simp add: server_step_def)
  ultimately show ?thesis using sv1(1) sv2(1) u(1) by auto
qed

text \<open>A server that has the first chunks of the demonstration.\<close>

definition demo_server :: "nat list \<Rightarrow> server" where
  "demo_server ks = empty_server\<lparr>sv_store := [(demo_guid, demo_session)],
     sv_files := \<lparr>f_dirs = [demo_guid], f_parts = map (\<lambda>k. ((demo_guid, k), piece 2 [1, 2, 3, 4, 5] k)) ks, f_final = []\<rparr>\<rparr>"

lemma demo_server_ready: "ready demo_session (set ks) (piece 2 [1, 2, 3, 4, 5]) (demo_server ks)"
proof -
  have "map_of (map (\<lambda>k. ((demo_guid, k), piece 2 [1, 2, 3, 4, 5 :: 8 word] k)) ks) (demo_guid, k) =
      (if k \<in> set ks then Some (piece 2 [1, 2, 3, 4, 5] k) else None)" for k
    by (induction ks) auto
  moreover have "s_Id demo_session = demo_guid" "s_Status demo_session = StPending" by (simp_all add: demo_session_def new_session_def)
  ultimately show ?thesis by (simp add: ready_def demo_server_def empty_server_def GetAsync_def part_def)
qed

theorem broken_chunk_fails_upload_witness:
  "\<exists>sv1 sv2 sv3. exec_events (server_step plain_config) [SPutBegin 1 demo_guid 2 [] [] [], SPutBody 1 0 [5] (Some 0) []] (demo_server [0, 1]) = Some sv1
    \<and> UploadChunk_begin plain_options (cf_decoders plain_config) 2 demo_guid 2 [] [] [] sv1 = (ROkIdempotent, sv2)
    \<and> exec_events (server_step plain_config) [SComplete 3 demo_guid None, SJobStart] sv2 = Some sv3 \<and> status_of sv3 demo_guid = Some StFailed"
proof -
  have n: "{..<s_TotalChunks demo_session} - {2} = set [0, 1]" by (auto simp: demo_facts)
  have p: "piece 2 [1, 2, 3, 4, 5 :: 8 word] 2 = [5]" by (simp add: piece_def)
  have d: "s_Id demo_session = demo_guid" "s_TotalSize demo_session = 5" by (simp_all add: demo_session_def new_session_def demo_rq_def)
  have c: "cf_options plain_config = plain_options" by (simp add: plain_config_def)
  have r: "ready demo_session ({..<s_TotalChunks demo_session} - {2}) (piece 2 [1, 2, 3, 4, 5]) (demo_server [0, 1])"
    unfolding n by (rule demo_server_ready)
  have g: "good_chunk plain_config (s_Id demo_session) 2 (piece 2 [1, 2, 3, 4, 5] 2) (snd (demo_chunk 2))"
    unfolding d by (rule demo_facts(4))
  have "fst (demo_chunk 2) < s_ExpiresAt demo_session" "2 < s_TotalChunks demo_session" "0 < length (piece 2 [1, 2, 3, 4, 5 :: 8 word] 2)"
    by (simp_all add: demo_chunk_def demo_facts p)
  from broken_chunk_fails_upload [OF r this(2,3) g this(1), of 2 3 None] show ?thesis
    by (simp add: p demo_chunk_def d c demo_facts)
qed

text \<open>C24. A malformed checksum in the request to complete is not rejected: the session is claimed for the merge, the job stops at the
  checksum, and the session stays in the merging status with no job left. Every further request to complete is answered with a
  request to wait, until the session expires.\<close>

theorem malformed_checksum_never_finishes:
  assumes "ready s {..<s_TotalChunks s} (piece cs bytes) sv" and "tc < s_ExpiresAt s" and "NormalizeChecksum (Some checksum) = Inl e"
    and "s_TotalSize s = int (length bytes)" and "length bytes \<le> s_TotalChunks s * cs" and "sort order = [0..<s_TotalChunks s]"
  shows "\<exists>sv'. exec_events (server_step cf) (complete_events (s_Id s) tc (Some checksum) tm order) sv = Some sv'
    \<and> status_of sv' (s_Id s) = Some StCompleting \<and> sv_jobs sv' = [] \<and> sv_verified sv' = None
    \<and> fst (CompleteAsync later_time (s_Id s) c sv') = Inr CompleteBackground"
proof -
  let ?j = "\<lparr>j_id = s_Id s, j_checksum = Some checksum\<rparr>" and ?s = "completing s"
  obtain sv1 where sv1: "server_step cf (SComplete tc (s_Id s) (Some checksum)) sv = Some sv1" "sv_jobs sv1 = [?j]" "sv_verified sv1 = None"
    "sv_files sv1 = sv_files sv" "GetAsync (sv_store sv1) (s_Id s) = Some ?s"
    using begin_complete [OF assms(1,2), of cf "Some checksum"] by auto
  let ?u = "sv1\<lparr>sv_jobs := []\<rparr>"
  have v: "process_verify ?j ?u = ?u\<lparr>sv_verified := Some (?j, ?s)\<rparr>"
    using sv1 assms(1,4,5) by (intro verify_ok [where bytes = bytes and cs = cs]) (auto simp: completing_def ready_def)
  then have s2: "server_step cf SJobStart sv1 = Some (?u\<lparr>sv_verified := Some (?j, ?s)\<rparr>)" using sv1 by (simp add: server_step_def)
  have "server_step cf (SJobMerge tm order) (?u\<lparr>sv_verified := Some (?j, ?s)\<rparr>) = Some (?u\<lparr>sv_verified := None\<rparr>)"
    using assms(3,6) by (simp add: server_step_def completing_def process_merge_def)
  then show ?thesis using sv1 s2 by (simp add: complete_events_def CompleteAsync_def Let_def completing_def)
qed

theorem malformed_checksum_never_finishes_witness:
  "\<exists>sv'. exec_events (server_step plain_config) (complete_events demo_guid 1 (Some ''abc'') 2 [0, 1, 2]) (demo_server [0, 1, 2]) = Some sv'
     \<and> status_of sv' demo_guid = Some StCompleting \<and> sv_jobs sv' = []"
proof -
  have n: "{..<s_TotalChunks demo_session} = set [0, 1, 2]" by (auto simp: demo_facts)
  have d: "s_Id demo_session = demo_guid" "s_TotalSize demo_session = 5" by (simp_all add: demo_session_def new_session_def demo_rq_def)
  have e: "NormalizeChecksum (Some ''abc'') = Inl ArgumentException" by code_simp
  have o: "sort [0, 1, 2] = [0..<s_TotalChunks demo_session]" by (simp add: demo_facts numeral_3_eq_3)
  have r: "ready demo_session {..<s_TotalChunks demo_session} (piece 2 [1, 2, 3, 4, 5]) (demo_server [0, 1, 2])"
    unfolding n by (rule demo_server_ready)
  have t: "1 < s_ExpiresAt demo_session" "s_TotalSize demo_session = int (length [1, 2, 3, 4, 5 :: 8 word])"
    "length [1, 2, 3, 4, 5 :: 8 word] \<le> s_TotalChunks demo_session * 2" by (simp_all add: demo_facts d)
  show ?thesis using malformed_checksum_never_finishes [OF r t(1) e t(2,3) o, of plain_config 2] unfolding d by blast
qed

end
