(* ===== verification/Client_Server.thy ===== *)
theory Client_Server
  imports Upload_Correct Server_Upload
begin

text \<open>
  The client and the service together: a run of the scheduler of \<open>upload.js\<close> drives the service, each acknowledged
  chunk being the \<open>PUT\<close> that \<open>apiUploadChunk\<close> builds for it. The two sides meet in \<open>server_view\<close>.
\<close>

section \<open>The requests of the client as the service reads them\<close>

text \<open>What \<open>UploadChunk\<close> reads of a request of the client: three headers and the body.\<close>

definition server_view :: "request \<Rightarrow> chunk_request" where
  "server_view r = \<lparr>cr_encoding = header_string r ''Content-Encoding'', cr_crc = header_string r ''X-Chunk-CRC32'',
     cr_sha = header_string r ''X-Chunk-SHA256'', cr_body = (case rq_body r of RawBody b \<Rightarrow> b | _ \<Rightarrow> [])\<rparr>"

lemma chunk_bytes_piece: "chunk_bytes bytes k = piece CHUNK_SIZE bytes k"
  by (simp add: chunk_bytes_def piece_def subarray_def min_def)

lemma client_chunk_good:
  assumes "apiUploadChunk_request env i k blob mime = Some r" and "length blob \<le> CHUNK_SIZE"
    and "\<not> env_requireCrc32 env" and "\<not> o_RequireChunkCrc32 (cf_options cf)"
    and "o_RequireChunkSha256 (cf_options cf) \<Longrightarrow> env_requireSha256 env"
    and gunzip: "\<And>gz b c. env_gzip env = Some gz \<Longrightarrow> gz b = Some c \<Longrightarrow> d_gunzip (cf_decoders cf) c = Some b"
    and subtle: "\<And>dig d. env_subtle env = Some dig \<Longrightarrow> dig blob = Some d \<Longrightarrow> d = hash_bytes (sha256_spec blob)"
  shows "good_chunk cf i k blob (server_view r)"
proof -
  have decoded: "chunk_Wrap (cf_decoders cf) (cr_body (server_view r)) (cr_encoding (server_view r)) = Inr blob"
    using assms(1)
  proof (cases rule: upload_request_cases)
    case plain
    then show ?thesis by (simp add: server_view_def chunk_Wrap_none)
  next
    case (gzip gz c)
    then show ?thesis using gunzip by (simp add: server_view_def chunk_Wrap_gzip decode_with_def)
  qed
  have "sha256HexOfBuffer (env_subtle env) blob = Some (sha256_hex_spec blob)"
    by (rule sha_header_defined) (use assms(2) subtle in \<open>auto simp: CHUNK_SIZE_def\<close>)
  then have "cr_crc (server_view r) = []"
    "cr_sha (server_view r) = (if env_requireSha256 env then sha256_hex_spec blob else [])"
    using assms(1,3) by (auto simp: server_view_def header_string_def apiUploadChunk_request_def authHeaders_def Let_def
        split: prod.splits option.splits if_splits)
  then show ?thesis using decoded assms(4,5) hex_string_plain [OF sha256_hex_string [of blob]]
    by (auto simp: good_chunk_def hashes_match_def put_of_def) (simp_all add: blank_def)
qed

section \<open>From the file in the browser to the file on the disk\<close>

text \<open>C1. The whole upload, from the browser to the disk: when the client's scheduler, through any order of successes, failures,
  retries, pauses and timers, ends in the completing branch, then the service that was asked to initiate, received the requests
  acknowledged in that run in that order, and was asked to complete, holds a completed session whose final file has exactly the bytes
  of the client's file, with their SHA-256 as its checksum. Chunks may be sent compressed or with their SHA-256. Hypotheses: the CRC
  check is off (the two sides print it differently), failed requests did not reach the service, decompression
  inverts the browser's compression, WebCrypto computes SHA-256, the session does not expire meanwhile, no worker of an earlier failed run
  is left, and the file has at most 2^31 - 1 chunks and a name whose last part is not empty, \<open>.\<close> or \<open>..\<close> (which holds for every file a
  browser can offer).\<close>

theorem client_upload_reaches_disk:
  assumes "speed_inv sp" and "exec_events run_step es (start_run (length bytes) (s_TotalChunks s) [] sp t0 0) = Some u"
    and "u_exit u = Some ExitComplete"
    and "\<And>k. k < s_TotalChunks s \<Longrightarrow> apiUploadChunk_request env i k (chunk_bytes bytes k) mime = Some (r k) \<and> clock k < s_ExpiresAt s"
    and "\<not> env_requireCrc32 env" and "\<not> o_RequireChunkCrc32 (cf_options cf)"
    and "o_RequireChunkSha256 (cf_options cf) \<Longrightarrow> env_requireSha256 env"
    and "\<And>gz b c. env_gzip env = Some gz \<Longrightarrow> gz b = Some c \<Longrightarrow> d_gunzip (cf_decoders cf) c = Some b"
    and "\<And>dig b d. env_subtle env = Some dig \<Longrightarrow> dig b = Some d \<Longrightarrow> d = hash_bytes (sha256_spec b)"
    and "idle_for i sv" and "InitiateAsync (cf_options cf) (cf_mkdir cf) now i rq sv = (Inr (s, False), sv0)"
    and "ir_totalSize rq = int (length bytes)" and "ir_chunkSize rq = int CHUNK_SIZE"
    and "length bytes \<le> (2 ^ 31 - 1) * CHUNK_SIZE" and "openable (GetFileName (ir_fileName rq))"
    and "\<And>fs. cf_mkdir cf i fs = fs\<lparr>f_dirs := List.insert i (f_dirs fs)\<rparr>"
    and "tc < s_ExpiresAt s" and "sort order = [0..<s_TotalChunks s]" and "o_AlwaysComputeFullChecksum (cf_options cf)"
    and "checksum \<in> {None, Some (sha256_hex_spec bytes)}" and "ir_checksum rq \<in> {None, Some (sha256_hex_spec bytes)}"
  shows "\<exists>sv' t name. exec_events (server_step cf) (SInitiate now i rq
        # concat (map (\<lambda>k. put_events i k (clock k, server_view (r k))) (acked es (start_run (length bytes) (s_TotalChunks s) [] sp t0 0)))
        @ complete_events i tc checksum tm order) sv = Some sv'
    \<and> GetAsync (sv_store sv') i = Some t \<and> s_Status t = StCompleted \<and> s_FinalFileName t = Some name
    \<and> map_of (f_final (sv_files sv')) name = Some bytes \<and> s_Checksum t = Some (sha256_hex_spec bytes)"
proof -
  let ?run = "start_run (length bytes) (s_TotalChunks s) [] sp t0 0"
  note facts = exec_start [OF assms(1,2)]
  have got: "distinct (acked es ?run)" "{..<s_TotalChunks s} \<subseteq> set (acked es ?run)"
    using acked_received [OF start_run_inv [OF assms(1)] assms(2)] facts assms(3)
    by (auto simp: run_inv_def exit_inv_def)
  have "set (acked es ?run) \<subseteq> {..<s_TotalChunks s}"
    using acked_in_range [OF start_run_inv [OF assms(1)] assms(2)] by (auto simp: start_run_frame)
  with got(2) have all: "set (acked es ?run) = {..<s_TotalChunks s}" by blast
  have good: "fst (clock k, server_view (r k)) < s_ExpiresAt s
      \<and> good_chunk cf i k (piece CHUNK_SIZE bytes k) (snd (clock k, server_view (r k)))" if "k < s_TotalChunks s" for k
    using assms(4) [OF that] client_chunk_good [of env i k "chunk_bytes bytes k" mime "r k" cf] assms(5-9)
    by (simp add: chunk_bytes_piece) (simp add: piece_def)
  show ?thesis
    by (rule upload_run [where tr = "\<lambda>k. (clock k, server_view (r k))", OF assms(10-16) got(1) all good assms(17-21)])
qed

text \<open>Five bytes are one chunk of the client's size.\<close>

definition page_rq :: initiate_request where
  "page_rq = demo_rq\<lparr>ir_chunkSize := int CHUNK_SIZE\<rparr>"

definition page_session :: upload_session where
  "page_session = new_session plain_options 0 demo_guid page_rq None None"

definition page_config :: server_config where
  "page_config = plain_config\<lparr>cf_decoders := demo_decoders\<rparr>"

lemma page_initiate:
  "\<exists>sv0. InitiateAsync (cf_options page_config) (cf_mkdir page_config) 0 demo_guid page_rq empty_server = (Inr (page_session, False), sv0)"
proof -
  have "valid_request plain_options (ir_fileName demo_rq) (ir_totalSize demo_rq) (ir_chunkSize demo_rq)" by code_simp
  then have "valid_request plain_options (ir_fileName page_rq) (ir_totalSize page_rq) (ir_chunkSize page_rq)"
    by (simp add: valid_request_def page_rq_def demo_rq_def plain_options_def CHUNK_SIZE_def)
  moreover have "EnforceQuota plain_options 0 (ir_totalSize demo_rq) (ir_clientIp demo_rq) (sv_store empty_server)" by code_simp
  then have "EnforceQuota plain_options 0 (ir_totalSize page_rq) (ir_clientIp page_rq) (sv_store empty_server)" by (simp add: page_rq_def)
  moreover have "find_duplicate plain_options None None (ir_totalSize demo_rq) empty_server = None" by code_simp
  then have "find_duplicate plain_options None None (ir_totalSize page_rq) empty_server = None" by (simp add: page_rq_def)
  ultimately show ?thesis
    by (simp add: InitiateAsync_def NormalizeChecksum_def Fingerprint_Normalize_def page_rq_def demo_rq_def blank_def page_session_def
        page_config_def plain_config_def Let_def)
qed

lemma page_session_facts: "s_TotalChunks page_session = 1" "s_ExpiresAt page_session = 86400"
proof -
  have "\<lceil>5 / (33554432 :: rat)\<rceil> = 1" by (simp add: ceiling_eq_iff)
  then show "s_TotalChunks page_session = 1" by (simp add: page_session_def new_session_def page_rq_def demo_rq_def CHUNK_SIZE_def to_int32_def)
  show "s_ExpiresAt page_session = 86400" by (simp add: page_session_def new_session_def plain_options_def)
qed

abbreviation one_chunk_start :: run where
  "one_chunk_start \<equiv> start_run (length [1, 2, 3, 4, 5 :: byte]) 1 [] (initial_speed (Some 4)) 0 0"

lemma one_chunk_run:
  "\<exists>u. exec_events run_step [ChunkOk 0 0, Settled 0, Tick] one_chunk_start = Some u \<and> u_exit u = Some ExitComplete"
  by (simp add: run_eval)

lemma one_chunk_request:
  "apiUploadChunk_request demo_env demo_guid k blob ''text/plain'' \<noteq> None"
  by (simp add: apiUploadChunk_request_def demo_env_def case_prod_beta Let_def)

theorem client_upload_reaches_disk_witness:
  "\<exists>r sv' t name. exec_events (server_step page_config) (SInitiate 0 demo_guid page_rq
        # concat (map (\<lambda>k. put_events demo_guid k (1, server_view (r k))) (acked [ChunkOk 0 0, Settled 0, Tick] one_chunk_start))
        @ complete_events demo_guid 2 None 3 [0]) empty_server = Some sv'
    \<and> GetAsync (sv_store sv') demo_guid = Some t \<and> s_Status t = StCompleted \<and> s_FinalFileName t = Some name
    \<and> map_of (f_final (sv_files sv')) name = Some [1, 2, 3, 4, 5] \<and> s_Checksum t = Some (sha256_hex_spec [1, 2, 3, 4, 5])"
proof -
  obtain u where u: "exec_events run_step [ChunkOk 0 0, Settled 0, Tick] one_chunk_start = Some u" "u_exit u = Some ExitComplete"
    using one_chunk_run by blast
  obtain sv0 where sv0: "InitiateAsync (cf_options page_config) (cf_mkdir page_config) 0 demo_guid page_rq empty_server
      = (Inr (page_session, False), sv0)" using page_initiate by blast
  define r where "r k = the (apiUploadChunk_request demo_env demo_guid k (chunk_bytes [1, 2, 3, 4, 5] k) ''text/plain'')" for k
  have r: "apiUploadChunk_request demo_env demo_guid k (chunk_bytes [1, 2, 3, 4, 5] k) ''text/plain'' = Some (r k)" for k
    unfolding r_def by (rule option.collapse [symmetric], rule one_chunk_request)
  have opts: "\<not> o_RequireChunkCrc32 (cf_options page_config)" "\<not> o_RequireChunkSha256 (cf_options page_config)"
    "o_AlwaysComputeFullChecksum (cf_options page_config)" "\<And>fs. cf_mkdir page_config demo_guid fs = fs\<lparr>f_dirs := List.insert demo_guid (f_dirs fs)\<rparr>"
    by (simp_all add: page_config_def plain_config_def plain_options_def)
  have gz: "d_gunzip (cf_decoders page_config) c = Some b" if "env_gzip demo_env = Some gz" "gz b = Some c" for gz b c
    using that by (auto simp: demo_env_def page_config_def demo_decoders_def split: if_splits)
  have run: "exec_events run_step [ChunkOk 0 0, Settled 0, Tick]
      (start_run (length [1, 2, 3, 4, 5 :: byte]) (s_TotalChunks page_session) [] (initial_speed (Some 4)) 0 0) = Some u"
    using u(1) by (simp only: page_session_facts)
  have reqs: "apiUploadChunk_request demo_env demo_guid k (chunk_bytes [1, 2, 3, 4, 5] k) ''text/plain'' = Some (r k)
      \<and> 1 < s_ExpiresAt page_session" for k using r by (simp add: page_session_facts)
  have env: "\<not> env_requireCrc32 demo_env" "env_subtle demo_env = None" by (simp_all add: demo_env_def)
  have rq: "ir_totalSize page_rq = int (length [1, 2, 3, 4, 5 :: byte])" "ir_chunkSize page_rq = int CHUNK_SIZE" "ir_checksum page_rq = None"
    by (simp_all add: page_rq_def demo_rq_def)
  have fits: "length [1, 2, 3, 4, 5 :: byte] \<le> (2 ^ 31 - 1) * CHUNK_SIZE" by (simp add: CHUNK_SIZE_def)
  have name: "openable (GetFileName (ir_fileName page_rq))" by (simp add: page_rq_def demo_open)
  have rest: "2 < s_ExpiresAt page_session" "sort [0] = [0..<s_TotalChunks page_session]" by (simp_all add: page_session_facts)
  have sha: "env_requireSha256 demo_env" if "o_RequireChunkSha256 (cf_options page_config)" using that opts(2) by blast
  have subtle: "d = hash_bytes (sha256_spec b)" if "env_subtle demo_env = Some dig" "dig b = Some d" for dig b d using that env(2) by simp
  have sums: "None \<in> {None, Some (sha256_hex_spec [1, 2, 3, 4, 5])}"
    "ir_checksum page_rq \<in> {None, Some (sha256_hex_spec [1, 2, 3, 4, 5])}" using rq(3) by simp_all
  note stored = client_upload_reaches_disk [where env = demo_env and r = r and clock = "\<lambda>k. 1" and tm = 3,
      OF speed_inv_initial run u(2) reqs env(1) opts(1) _ _ _ demo_facts(1) sv0 rq(1,2) fits name opts(4) rest opts(3) sums, unfolded page_session_facts(1)]
  show ?thesis by (intro exI [of _ r], rule stored) (use sha gz subtle in blast)+
qed

end
