(* ===== verification/Validator_Base.thy ===== *)
theory Validator_Base
  imports JS_Regex
begin

text \<open>
  What the validation methods under \<open>src/WebApp/wwwroot/lib/jquery-validation\<close> share: their results, the
  numbers and strings of JavaScript they compute with, and check digits. Strings are sequences of code
  units below 256 with case conversion on ASCII letters; numbers are integers or \<open>NaN\<close> (\<open>None\<close>).
\<close>

section \<open>Results\<close>

text \<open>A method returns true or false (or a truthy or falsy value), the string \<open>dependency-mismatch\<close> or
  \<open>pending\<close>, or throws.\<close>

datatype vresult = VTrue | VFalse | VMismatch | VPending | VThrow

definition vbool :: "bool \<Rightarrow> vresult" where
  "vbool b = (if b then VTrue else VFalse)"

text \<open>\<open>this.optional(element) || b\<close>.\<close>

definition optional_or :: "bool \<Rightarrow> bool \<Rightarrow> vresult" where
  "optional_or opt b = (if opt then VMismatch else vbool b)"

definition accepts :: "vresult \<Rightarrow> bool" where
  "accepts r \<longleftrightarrow> r = VTrue \<or> r = VMismatch"

lemma accepts_simps [simp]:
  "accepts VTrue" "accepts VMismatch" "\<not> accepts VFalse" "\<not> accepts VThrow" "\<not> accepts VPending"
  "accepts (vbool b) \<longleftrightarrow> b" "accepts (optional_or opt b) \<longleftrightarrow> opt \<or> b"
  by (simp_all add: accepts_def vbool_def optional_or_def)

lemma vbool_simps [simp]: "vbool True = VTrue" "vbool False = VFalse" "vbool b = VTrue \<longleftrightarrow> b" "vbool b = VFalse \<longleftrightarrow> \<not> b"
  by (simp_all add: vbool_def)

section \<open>Numbers\<close>

type_synonym jsnum = "int option"

definition num2 :: "(int \<Rightarrow> int \<Rightarrow> int) \<Rightarrow> jsnum \<Rightarrow> jsnum \<Rightarrow> jsnum" where
  "num2 f a b = (case (a, b) of (Some x, Some y) \<Rightarrow> Some (f x y) | _ \<Rightarrow> None)"

abbreviation nadd :: "jsnum \<Rightarrow> jsnum \<Rightarrow> jsnum" where "nadd \<equiv> num2 (+)"
abbreviation nmul :: "jsnum \<Rightarrow> jsnum \<Rightarrow> jsnum" where "nmul \<equiv> num2 (*)"

text \<open>\<open>a % m\<close> for a positive constant \<open>m\<close>: the sign is the dividend's.\<close>

definition nmod :: "jsnum \<Rightarrow> int \<Rightarrow> jsnum" where
  "nmod a m = map_option (\<lambda>x. if x < 0 then - ((- x) mod m) else x mod m) a"

text \<open>\<open>a === b\<close>, \<open>a < b\<close>: false when \<open>NaN\<close> is involved.\<close>

definition neq :: "jsnum \<Rightarrow> jsnum \<Rightarrow> bool" where
  "neq a b \<longleftrightarrow> (case (a, b) of (Some x, Some y) \<Rightarrow> x = y | _ \<Rightarrow> False)"

definition nless :: "jsnum \<Rightarrow> jsnum \<Rightarrow> bool" where
  "nless a b \<longleftrightarrow> (case (a, b) of (Some x, Some y) \<Rightarrow> x < y | _ \<Rightarrow> False)"

lemma num2_simps [simp]: "num2 f (Some x) (Some y) = Some (f x y)" "num2 f None b = None" "num2 f a None = None"
  by (simp_all add: num2_def split: option.split)

lemma neq_simps [simp]: "neq (Some x) (Some y) \<longleftrightarrow> x = y" "\<not> neq None b" "\<not> neq a None"
  by (simp_all add: neq_def split: option.split)

lemma nless_simps [simp]: "nless (Some x) (Some y) \<longleftrightarrow> x < y" "\<not> nless None b" "\<not> nless a None"
  by (simp_all add: nless_def split: option.split)

lemma nmod_simps [simp]: "nmod None m = None" "0 \<le> x \<Longrightarrow> nmod (Some x) m = Some (x mod m)"
  by (simp_all add: nmod_def)

definition digit_value :: "char \<Rightarrow> int" where
  "digit_value c = int (of_char c) - 48"

text \<open>\<open>parseInt(c, 10)\<close> and \<open>Number(c)\<close> of a one-character string: white space is 0 for the latter only.\<close>

definition parse_char :: "char \<Rightarrow> jsnum" where
  "parse_char c = (if is_dig c then Some (digit_value c) else None)"

definition char_num :: "char \<Rightarrow> jsnum" where
  "char_num c = (if is_dig c then Some (digit_value c) else if is_space c then Some 0 else None)"

text \<open>\<open>s.charAt(i)\<close>, used as a number; out of range it is the empty string, which is 0.\<close>

definition num_at :: "string \<Rightarrow> nat \<Rightarrow> jsnum" where
  "num_at s i = (if i < length s then char_num (s ! i) else Some 0)"

definition parse_at :: "string \<Rightarrow> nat \<Rightarrow> jsnum" where
  "parse_at s i = (if i < length s then parse_char (s ! i) else None)"

definition digits_value :: "string \<Rightarrow> int" where
  "digits_value s = foldl (\<lambda>n c. 10 * n + digit_value c) 0 s"

text \<open>\<open>parseInt(s, 10)\<close> of a string without sign: the longest prefix of digits after white space.\<close>

definition parseInt10 :: "string \<Rightarrow> jsnum" where
  "parseInt10 s =
     (let ds = takeWhile is_dig (dropWhile is_space s) in if ds = [] then None else Some (digits_value ds))"

text \<open>\<open>Number(s)\<close> of a string of digits with an optional minus sign; \<open>NaN\<close> for other strings (fractions,
  exponents and hexadecimal literals do not occur).\<close>

definition to_number :: "string \<Rightarrow> jsnum" where
  "to_number s =
     (case s of
        [] \<Rightarrow> Some 0
      | c # t \<Rightarrow> if list_all is_dig s then Some (digits_value s)
                 else if c = CHR ''-'' \<and> t \<noteq> [] \<and> list_all is_dig t then Some (- digits_value t) else None)"

definition num_str :: "jsnum \<Rightarrow> string" where
  "num_str a = (case a of None \<Rightarrow> ''NaN''
     | Some x \<Rightarrow> if x < 0 then CHR ''-'' # js_String (nat (- x)) else js_String (nat x))"

lemma digit_value_bounds: "is_dig c \<Longrightarrow> 0 \<le> digit_value c \<and> digit_value c \<le> 9"
  by (simp add: is_dig_def in_range_def digit_value_def)

lemma digit_value_inj: "digit_value c = digit_value d \<Longrightarrow> c = d"
  by (simp add: digit_value_def)

lemma char_num_dig [simp]: "is_dig c \<Longrightarrow> char_num c = Some (digit_value c)"
  and parse_char_dig [simp]: "is_dig c \<Longrightarrow> parse_char c = Some (digit_value c)"
  by (simp_all add: char_num_def parse_char_def)

section \<open>Strings\<close>

text \<open>\<open>value.replace(/[...]/g, "")\<close> for a class of characters, and \<open>substring\<close> with its clamping.\<close>

definition remove_chars :: "(char \<Rightarrow> bool) \<Rightarrow> string \<Rightarrow> string" where
  "remove_chars P s = filter (\<lambda>c. \<not> P c) s"

definition substring :: "string \<Rightarrow> nat \<Rightarrow> nat \<Rightarrow> string" where
  "substring s a b = subarray s (min a b) (min (max a b) (length s))"

definition only_digits :: "string \<Rightarrow> string" where
  "only_digits s = remove_chars (\<lambda>c. \<not> is_dig c) s"

text \<open>The class of special characters that the Brazilian methods remove.\<close>

definition br_special :: "char \<Rightarrow> bool" where
  "br_special c \<longleftrightarrow> c \<in> set (''~!@#$%^&*()_+=`{}[]-|:;<>,./? '' @ [CHR 0x5C, CHR 0x27])"

lemma only_digits_dig: "list_all is_dig (only_digits s)"
  by (simp add: only_digits_def remove_chars_def list_all_iff)

section \<open>Weighted check sums\<close>

text \<open>Many numbers are guarded by a sum of digits times weights that must be 0 modulo some \<open>m\<close>. When every weight is
  coprime to the modulus, and differences of digits are smaller than it in the sense of the last law, any single
  wrong digit changes the sum.\<close>

definition weighted_sum :: "int list \<Rightarrow> int list \<Rightarrow> int" where
  "weighted_sum ws ds = (\<Sum>(w, d)\<leftarrow>zip ws ds. w * d)"

lemma weighted_sum_update:
  assumes "i < length ds" "length ws = length ds"
  shows "weighted_sum ws (ds[i := d]) = weighted_sum ws ds + ws ! i * (d - ds ! i)"
  using assms
proof (induction ws ds arbitrary: i rule: list_induct2')
  case (4 w ws e ds)
  then show ?case
    by (cases i) (auto simp: weighted_sum_def algebra_simps)
qed (auto simp: weighted_sum_def)

locale check_digits =
  fixes ws :: "int list" and m :: int
  assumes modulus: "9 < m"
    and weights: "\<forall>w\<in>set ws. coprime w m"
begin

definition passes :: "int list \<Rightarrow> bool" where
  "passes ds \<longleftrightarrow> weighted_sum ws ds mod m = 0"

lemma single_digit_error:
  assumes len: "length ds = length ws" and i: "i < length ds"
    and digits: "0 \<le> ds ! i" "ds ! i \<le> 9" "0 \<le> d" "d \<le> 9" "d \<noteq> ds ! i"
    and ok: "passes ds"
  shows "\<not> passes (ds[i := d])"
proof
  assume "passes (ds[i := d])"
  then have "m dvd weighted_sum ws ds + ws ! i * (d - ds ! i)" "m dvd weighted_sum ws ds"
    using len i ok by (simp_all add: passes_def weighted_sum_update mod_0_imp_dvd)
  then have "m dvd ws ! i * (d - ds ! i)" by (metis dvd_add_right_iff)
  moreover have "coprime (ws ! i) m" using weights i len nth_mem [of i ws] by simp
  ultimately have "m dvd d - ds ! i" by (simp add: coprime_commute coprime_dvd_mult_right_iff)
  then have "m \<le> \<bar>d - ds ! i\<bar>" using digits(5) modulus dvd_imp_le_int [of "d - ds ! i" m] by simp
  with modulus digits show False by linarith
qed

end

end
