(* ===== verification/Validators_Checksum.thy ===== *)
theory Validators_Checksum
  imports Validator_Base
begin

text \<open>
  The methods of \<open>additional-methods.js\<close> that compute check digits: routing numbers, bank accounts, tax and
  person numbers, credit cards, IBANs and vehicle numbers. Each definition follows the source, with \<open>NaN\<close> where
  a character is not a digit; \<open>opt\<close> is \<open>this.optional(element)\<close>.
\<close>

section \<open>The methods\<close>

definition abaRoutingNumber :: "string \<Rightarrow> vresult" where
  "abaRoutingNumber value =
     (if length value \<noteq> 9 then VFalse
      else
        let checksum = foldl (\<lambda>acc i. nadd acc
              (nadd (nadd (nmul (parse_at value i) (Some 3)) (nmul (parse_at value (i + 1)) (Some 7)))
                 (parse_at value (i + 2)))) (Some 0) [0, 3, 6]
        in vbool (\<not> neq checksum (Some 0) \<and> neq (nmod checksum 10) (Some 0)))"

definition giroaccountNL :: "bool \<Rightarrow> string \<Rightarrow> vresult" where
  "giroaccountNL opt value = optional_or opt (rmatch (RBetween 1 7 RDigit) value)"

text \<open>The pattern is \<open>^[0-9]{9}|([0-9]{2} ){3}[0-9]{3}$\<close>: each alternative has one anchor.\<close>

definition bankaccountNL_format :: "string \<Rightarrow> bool" where
  "bankaccountNL_format value \<longleftrightarrow>
     rmatch_prefix (RRep 9 RDigit) value
     \<or> rmatch_suffix (RSeq (RRep 3 (RSeq (RRep 2 RDigit) (RChr (CHR '' '')))) (RRep 3 RDigit)) value"

definition eleven_sum :: "string \<Rightarrow> jsnum" where
  "eleven_sum account =
     foldl (\<lambda>acc pos. nadd acc (nmul (Some (int (length account - pos))) (num_at account pos)))
       (Some 0) [0..<length account]"

definition bankaccountNL :: "bool \<Rightarrow> string \<Rightarrow> vresult" where
  "bankaccountNL opt value =
     (if opt then VTrue
      else if \<not> bankaccountNL_format value then VFalse
      else vbool (neq (nmod (eleven_sum (remove_chars (\<lambda>c. c = CHR '' '') value)) 11) (Some 0)))"

definition bankorgiroaccountNL :: "bool \<Rightarrow> string \<Rightarrow> vresult" where
  "bankorgiroaccountNL opt value =
     (if opt then VMismatch
      else if accepts (bankaccountNL opt value) then bankaccountNL opt value
      else giroaccountNL opt value)"

definition cif_format :: "string \<Rightarrow> bool" where
  "cif_format value =
     rmatch (RSeqs [RSet ''abcdefghjklmnpqrsuvw'', RRep 7 RDigit, RCls (\<lambda>c. is_dig c \<or> in_range (CHR ''a'') (CHR ''j'') c)])
       (toLowerCase value)"

definition cif_sum :: "string \<Rightarrow> int" where
  "cif_sum number =
     foldl (\<lambda>acc i.
       let n = digit_value (number ! i)
       in if i mod 2 = 0 then acc + (let m = n * 2 in if m < 10 then m else m - 9) else acc + n)
     0 [0..<length number]"

definition cifES :: "bool \<Rightarrow> string \<Rightarrow> vresult" where
  "cifES opt value =
     (if opt then VTrue
      else if length value \<noteq> 9 \<or> \<not> cif_format value then VFalse
      else
        let letter = value ! 0; number = substring value 1 8; control = value ! 8;
            d = 10 - cif_sum number mod 10;
            d' = (if d > 9 then 0 else d);
            control_digit = js_String (nat d');
            control_letter = [''JABCDEFGHI'' ! nat d']
        in if letter \<in> set ''ABEH'' then vbool ([control] = control_digit)
           else if letter \<in> set ''KPQS'' then vbool ([control] = control_letter)
           else vbool ([control] = control_digit \<or> [control] = control_letter))"

definition cnh_sum :: "string \<Rightarrow> (nat \<Rightarrow> int) \<Rightarrow> jsnum" where
  "cnh_sum value j = foldl (\<lambda>acc i. nadd acc (nmul (num_at value i) (Some (j i)))) (Some 0) [0..<9]"

definition cnhBR :: "string \<Rightarrow> vresult" where
  "cnhBR v =
     (let value = remove_chars br_special v
      in if length value \<noteq> 11 then VFalse
         else if replicate 11 (value ! 0) = value then VFalse
         else
           let first = nmod (cnh_sum value (\<lambda>i. 9 - int i)) 11;
               (firstCN, dsc) = (if nless (Some 9) first then (Some 0, 2) else (first, 0));
               second = nmod (cnh_sum value (\<lambda>i. int i + 1)) 11;
               secondCN = (if nless (Some 9) second then Some 0 else nadd second (Some (- dsc)))
           in vbool (num_str firstCN @ num_str secondCN = drop 9 value))"

text \<open>One loop of \<open>cnpjBR\<close>: the weight \<open>pos\<close> runs down from \<open>tamanho - 7\<close> to 2 and starts again at 9.\<close>

definition cnpj_soma :: "string \<Rightarrow> int" where
  "cnpj_soma numeros =
     fst (foldl (\<lambda>(soma, pos) c.
       (soma + digit_value c * pos, if pos - 1 < 2 then 9 else pos - 1))
     (0, int (length numeros) - 7) numeros)"

definition cnpj_resultado :: "string \<Rightarrow> int" where
  "cnpj_resultado numeros =
     (let soma = cnpj_soma numeros in if soma mod 11 < 2 then 0 else 11 - soma mod 11)"

definition cnpjBR :: "bool \<Rightarrow> string \<Rightarrow> vresult" where
  "cnpjBR opt v =
     (if opt then VTrue
      else
        let value = only_digits v
        in if length value \<noteq> 14 then VFalse
           else if value \<in> set (map (replicate 14) ''0123456789'') then VFalse
           else if cnpj_resultado (take 12 value) \<noteq> digit_value (value ! 12) then VFalse
           else if cnpj_resultado (take 13 value) \<noteq> digit_value (value ! 13) then VFalse
           else VTrue)"

definition cpf_sum :: "string \<Rightarrow> nat \<Rightarrow> jsnum" where
  "cpf_sum value n =
     foldl (\<lambda>acc i. nadd acc (nmul (parse_at value i) (Some (int (n + 1 - i))))) (Some 0) [0..<n]"

definition cpf_checkResult :: "jsnum \<Rightarrow> jsnum \<Rightarrow> bool" where
  "cpf_checkResult s cn \<longleftrightarrow>
     (let result = nmod (nmul s (Some 10)) 11;
          result' = (if neq result (Some 10) \<or> neq result (Some 11) then Some 0 else result)
      in neq result' cn)"

definition cpfBR :: "bool \<Rightarrow> string \<Rightarrow> vresult" where
  "cpfBR opt v =
     (if opt then VTrue
      else
        let value = remove_chars br_special v
        in if length value \<noteq> 11 then VFalse
           else if value \<in> set (map (replicate 11) ''0123456789'') then VFalse
           else if cpf_checkResult (cpf_sum value 9) (parse_at value 9)
           then vbool (cpf_checkResult (cpf_sum value 10) (parse_at value 10))
           else VFalse)"

text \<open>The loop of \<open>creditcard\<close> runs from the last digit; \<open>bEven\<close> is false there.\<close>

fun luhn_loop :: "string \<Rightarrow> int \<Rightarrow> bool \<Rightarrow> int" where
  "luhn_loop [] nCheck bEven = nCheck"
| "luhn_loop (c # cs) nCheck bEven =
     (let n = digit_value c;
          nDigit = (if bEven then (if n * 2 > 9 then n * 2 - 9 else n * 2) else n)
      in luhn_loop cs (nCheck + nDigit) (\<not> bEven))"

definition creditcard :: "bool \<Rightarrow> string \<Rightarrow> vresult" where
  "creditcard opt v =
     (if opt then VMismatch
      else if list_ex (\<lambda>c. \<not> (is_dig c \<or> c = CHR '' '' \<or> c = CHR ''-'')) v then VFalse
      else
        let value = only_digits v
        in if length value < 13 \<or> length value > 19 then VFalse
           else vbool (luhn_loop (rev value) 0 False mod 10 = 0))"

record card_types =
  ct_mastercard :: bool
  ct_visa :: bool
  ct_amex :: bool
  ct_dinersclub :: bool
  ct_enroute :: bool
  ct_discover :: bool
  ct_jcb :: bool
  ct_unknown :: bool
  ct_all :: bool

definition card_mask :: "card_types \<Rightarrow> 16 word" where
  "card_mask p =
     (if ct_all p then 0x00FF
      else (if ct_mastercard p then 0x0001 else 0) OR (if ct_visa p then 0x0002 else 0)
        OR (if ct_amex p then 0x0004 else 0) OR (if ct_dinersclub p then 0x0008 else 0)
        OR (if ct_enroute p then 0x0010 else 0) OR (if ct_discover p then 0x0020 else 0)
        OR (if ct_jcb p then 0x0040 else 0) OR (if ct_unknown p then 0x0080 else 0))"

definition creditcardtypes :: "card_types \<Rightarrow> string \<Rightarrow> vresult" where
  "creditcardtypes param v =
     (if list_ex (\<lambda>c. \<not> (is_dig c \<or> c = CHR ''-'')) v then VFalse
      else
        let value = only_digits v; n = length value; types = card_mask param;
            starts = (\<lambda>r. rmatch_prefix r value)
        in if bit types 0 \<and> (starts (RSeq (RChr (CHR ''5'')) (RSet ''12345'')) \<or> starts (RSeq (RChr (CHR ''2'')) (RSet ''234567'')))
           then vbool (n = 16)
           else if bit types 1 \<and> starts (RChr (CHR ''4'')) then vbool (n = 16)
           else if bit types 2 \<and> starts (RSeq (RChr (CHR ''3'')) (RSet ''47'')) then vbool (n = 15)
           else if bit types 3 \<and> starts (RSeq (RChr (CHR ''3''))
             (RAlt (RSeq (RChr (CHR ''0'')) (RSet ''012345'')) (RSet ''68''))) then vbool (n = 14)
           else if bit types 4 \<and> starts (RSeq (RChr (CHR ''2'')) (RAlt (RStr ''014'') (RStr ''149''))) then vbool (n = 15)
           else if bit types 5 \<and> starts (RStr ''6011'') then vbool (n = 16)
           else if bit types 6 \<and> starts (RChr (CHR ''3'')) then vbool (n = 16)
           else if bit types 6 \<and> starts (RAlt (RStr ''2131'') (RStr ''1800'')) then vbool (n = 15)
           else vbool (bit types 7))"

section \<open>IBAN\<close>

text \<open>The country patterns are sequences of \<open>\d{n}\<close>, \<open>[A-Z]{n}\<close> and \<open>[\dA-Z]{n}\<close>.\<close>

datatype bban = Dig nat | Let nat | Aln nat

fun bban_regex :: "bban \<Rightarrow> regex" where
  "bban_regex (Dig n) = RRep n RDigit"
| "bban_regex (Let n) = RRep n (RCls is_upper)"
| "bban_regex (Aln n) = RRep n (RCls (\<lambda>c. is_dig c \<or> is_upper c))"

definition bbancountrypatterns :: "(string \<times> bban list) list" where
  "bbancountrypatterns = [
     (''AL'', [Dig 8, Aln 16]), (''AD'', [Dig 8, Aln 12]), (''AT'', [Dig 16]), (''AZ'', [Aln 4, Dig 20]),
     (''BE'', [Dig 12]), (''BH'', [Let 4, Aln 14]), (''BA'', [Dig 16]), (''BR'', [Dig 23, Let 1, Aln 1]),
     (''BG'', [Let 4, Dig 6, Aln 8]), (''CR'', [Dig 17]), (''HR'', [Dig 17]), (''CY'', [Dig 8, Aln 16]),
     (''CZ'', [Dig 20]), (''DK'', [Dig 14]), (''DO'', [Let 4, Dig 20]), (''EE'', [Dig 16]),
     (''FO'', [Dig 14]), (''FI'', [Dig 14]), (''FR'', [Dig 10, Aln 11, Dig 2]), (''GE'', [Aln 2, Dig 16]),
     (''DE'', [Dig 18]), (''GI'', [Let 4, Aln 15]), (''GR'', [Dig 7, Aln 16]), (''GL'', [Dig 14]),
     (''GT'', [Aln 4, Aln 20]), (''HU'', [Dig 24]), (''IS'', [Dig 22]), (''IE'', [Aln 4, Dig 14]),
     (''IL'', [Dig 19]), (''IT'', [Let 1, Dig 10, Aln 12]), (''KZ'', [Dig 3, Aln 13]), (''KW'', [Let 4, Aln 22]),
     (''LV'', [Let 4, Aln 13]), (''LB'', [Dig 4, Aln 20]), (''LI'', [Dig 5, Aln 12]), (''LT'', [Dig 16]),
     (''LU'', [Dig 3, Aln 13]), (''MK'', [Dig 3, Aln 10, Dig 2]), (''MT'', [Let 4, Dig 5, Aln 18]), (''MR'', [Dig 23]),
     (''MU'', [Let 4, Dig 19, Let 3]), (''MC'', [Dig 10, Aln 11, Dig 2]), (''MD'', [Aln 2, Dig 18]), (''ME'', [Dig 18]),
     (''NL'', [Let 4, Dig 10]), (''NO'', [Dig 11]), (''PK'', [Aln 4, Dig 16]), (''PS'', [Aln 4, Dig 21]),
     (''PL'', [Dig 24]), (''PT'', [Dig 21]), (''RO'', [Let 4, Aln 16]), (''SM'', [Let 1, Dig 10, Aln 12]),
     (''SA'', [Dig 2, Aln 18]), (''RS'', [Dig 18]), (''SK'', [Dig 20]), (''SI'', [Dig 15]),
     (''ES'', [Dig 20]), (''SE'', [Dig 20]), (''CH'', [Dig 5, Aln 12]), (''TN'', [Dig 20]),
     (''TR'', [Dig 5, Aln 17]), (''AE'', [Dig 3, Dig 16]), (''GB'', [Let 4, Dig 14]), (''VG'', [Aln 4, Dig 16])]"

definition iban_format :: "string \<Rightarrow> bool" where
  "iban_format iban =
     (case map_of bbancountrypatterns (take 2 iban) of
        None \<Rightarrow> True
      | Some bs \<Rightarrow> rmatch (RSeqs ([RRep 2 (RCls is_upper), RRep 2 RDigit] @ map bban_regex bs)) iban)"

text \<open>\<open>"0123456789ABCDEFGHIJKLMNOPQRSTUVWXYZ".indexOf(charAt)\<close>.\<close>

definition iban_index :: "char \<Rightarrow> int" where
  "iban_index c = (if is_dig c then digit_value c else if is_upper c then int (of_char c) - 55 else -1)"

fun iban_digits :: "bool \<Rightarrow> string \<Rightarrow> string" where
  "iban_digits leadingZeroes [] = []"
| "iban_digits leadingZeroes (c # cs) =
     (let lz = leadingZeroes \<and> c = CHR ''0''
      in (if lz then [] else num_str (Some (iban_index c))) @ iban_digits lz cs)"

text \<open>\<open>cRest\<close> is the empty string before the first round and a number afterwards.\<close>

definition iban_step :: "jsnum option \<Rightarrow> char \<Rightarrow> jsnum option" where
  "iban_step cRest cChar =
     (let cOperator = (case cRest of None \<Rightarrow> [] | Some r \<Rightarrow> num_str r) @ [cChar]
      in Some (nmod (to_number cOperator) 97))"

definition iban_method :: "bool \<Rightarrow> string \<Rightarrow> vresult" where
  "iban_method opt value =
     (if opt then VTrue
      else
        let iban = toUpperCase (remove_chars (\<lambda>c. c = CHR '' '') value)
        in if length iban < 5 then VFalse
           else if \<not> iban_format iban then VFalse
           else case foldl iban_step None (iban_digits True (drop 4 iban @ take 4 iban)) of
                  None \<Rightarrow> VFalse
                | Some r \<Rightarrow> vbool (neq r (Some 1)))"

section \<open>Spanish, Polish, Brazilian and US numbers\<close>

definition nie_letters :: string where
  "nie_letters = ''TRWAGMYFPDXBNJZSQVHLCKET''"

text \<open>\<open>s.charAt(n)\<close> for a number: \<open>NaN\<close> is position 0.\<close>

definition charAt_num :: "string \<Rightarrow> jsnum \<Rightarrow> string" where
  "charAt_num s n =
     (let i = (case n of None \<Rightarrow> 0 | Some x \<Rightarrow> x)
      in if 0 \<le> i \<and> nat i < length s then [s ! nat i] else [])"

definition nieES :: "bool \<Rightarrow> string \<Rightarrow> vresult" where
  "nieES opt v =
     (if opt then VTrue
      else
        let value = toUpperCase v; letter = drop (length v - 1) value
        in if length value > 10 \<or> length value < 9
              \<or> \<not> rmatch (RSeqs [RSet ''MXYZ'', RBetween 7 8 RDigit, RSet nie_letters]) value
           then VFalse
           else
             let value' = (case value of
                   c # cs \<Rightarrow> (if c = CHR ''X'' then CHR ''0'' else if c = CHR ''Y'' then CHR ''1''
                              else if c = CHR ''Z'' then CHR ''2'' else c) # cs
                 | [] \<Rightarrow> []);
                 number = (if length value' = 9 then take 8 value' else take 9 value')
             in vbool (charAt_num nie_letters (nmod (parseInt10 number) 23) = letter))"

definition nif_letters :: string where
  "nif_letters = ''TRWAGMYFPDXBNJZSQVHLCKE''"

definition nif_standard :: "string \<Rightarrow> bool" where
  "nif_standard value = rmatch (RSeq (RRep 8 RDigit) (RCls is_upper)) value"

definition nif_format :: "string \<Rightarrow> bool" where
  "nif_format value \<longleftrightarrow>
     rmatch (RSeqs [RCls is_upper, RRep 7 RDigit, RCls (\<lambda>c. is_upper c \<or> is_dig c)]) value
     \<or> rmatch (RSeq (RChr (CHR ''T'')) (RRep 8 (RCls (\<lambda>c. is_upper c \<or> is_dig c)))) value
     \<or> nif_standard value"

definition nifES :: "bool \<Rightarrow> string \<Rightarrow> vresult" where
  "nifES opt v =
     (if opt then VTrue
      else
        let value = toUpperCase v
        in if \<not> nif_format value then VFalse
           else if nif_standard value
           then vbool (charAt_num nif_letters (nmod (to_number (substring value 8 0)) 23) = [value ! 8])
           else if hd value \<in> set ''KLM''
           then vbool ([value ! 8] = charAt_num nif_letters (nmod (to_number (substring value 8 1)) 23))
           else VFalse)"

definition nip_sum :: "string \<Rightarrow> int" where
  "nip_sum value = weighted_sum [6, 5, 7, 2, 3, 4, 5, 6, 7] (map digit_value (take 9 value))"

definition nipPL :: "string \<Rightarrow> vresult" where
  "nipPL v =
     (let value = only_digits v
      in if length value \<noteq> 10 then VFalse
         else
           let int2 = nip_sum value mod 11;
               intControlNr = (if int2 = 10 then 0 else int2)
           in vbool (intControlNr = digit_value (value ! 9)))"

fun nis_loop :: "nat list \<Rightarrow> jsnum \<Rightarrow> jsnum \<Rightarrow> jsnum" where
  "nis_loop [] number s = s"
| "nis_loop (count # cs) number s =
     (let multiplier = (if count = 10 then 2 else if count = 11 then 3 else int count)
      in nis_loop cs (map_option (\<lambda>n. n div 10) number) (nadd s (nmul (nmod number 10) (Some multiplier))))"

definition nisBR :: "string \<Rightarrow> vresult" where
  "nisBR v =
     (let value = remove_chars br_special v
      in if length value \<noteq> 11 then VFalse
         else
           let cn = parse_at value 10;
               dv = nmod (nis_loop [2..<12] (parseInt10 (take 10 value)) (Some 0)) 11;
               dv' = (if nless (Some 1) dv then map_option (\<lambda>d. 11 - d) dv else Some 0)
           in vbool (neq cn dv'))"

definition vin_letters :: string where
  "vin_letters = ''ABCDEFGHJKLMNPRSTUVWXYZ''"

definition vin_values :: "int list" where
  "vin_values = [1, 2, 3, 4, 5, 6, 7, 8, 1, 2, 3, 4, 5, 7, 9, 2, 3, 4, 5, 6, 7, 8, 9]"

definition vin_weights :: "int list" where
  "vin_weights = [8, 7, 6, 5, 4, 3, 2, 10, 0, 9, 8, 7, 6, 5, 4, 3, 2]"

text \<open>A letter that is not in the table has the value \<open>undefined\<close>, which makes the sum \<open>NaN\<close>.\<close>

definition vin_number :: "char \<Rightarrow> jsnum" where
  "vin_number c = (if char_num c = None then map_of (zip vin_letters vin_values) (upper_char c) else parse_char c)"

definition vinUS :: "string \<Rightarrow> vresult" where
  "vinUS v =
     (if length v \<noteq> 17 then VFalse
      else
        let rs = foldl (\<lambda>acc (c, f). nadd acc (nmul (vin_number c) (Some f))) (Some 0) (zip v vin_weights);
            cdv = (if upper_char (v ! 8) = CHR ''X'' then Some 10 else vin_number (v ! 8))
        in vbool (neq (nmod rs 11) cdv))"

end
