(* ===== verification/Validators_Format.thy ===== *)
theory Validators_Format
  imports Validator_Base
begin

text \<open>
  The methods of \<open>additional-methods.js\<close> that test a format, compare dates and words, or limit files. Patterns with
  the flag \<open>i\<close> are given in lower case and matched against the lower-case value. \<open>opt\<close> is \<open>this.optional(element)\<close>.
\<close>

section \<open>Words\<close>

text \<open>\<open>stripHtml\<close>: a tag is \<open><\<close>, one character that is no line end, characters other than angle brackets, \<open>>\<close>.\<close>

definition tag_rest :: "string \<Rightarrow> string option" where
  "tag_rest s =
     (case s of
        c # t \<Rightarrow>
          if (of_char c :: nat) \<in> {10, 13} then None
          else (case dropWhile (\<lambda>d. d \<noteq> CHR ''<'' \<and> d \<noteq> CHR ''>'') t of
                  d # r \<Rightarrow> if d = CHR ''>'' then Some r else None
                | [] \<Rightarrow> None)
      | [] \<Rightarrow> None)"

lemma tag_rest_length: "tag_rest s = Some r \<Longrightarrow> length r < length s"
proof -
  have "length (dropWhile P t) \<le> length t" for P :: "char \<Rightarrow> bool" and t
    by (rule length_dropWhile_le)
  then show "tag_rest s = Some r \<Longrightarrow> length r < length s"
    by (auto simp: tag_rest_def split: list.splits if_splits)
      (metis Suc_le_eq length_Cons length_dropWhile_le less_SucI)
qed

function strip_tags :: "string \<Rightarrow> string" where
  "strip_tags [] = []"
| "strip_tags (c # s) =
     (case (if c = CHR ''<'' then tag_rest s else None) of
        Some r \<Rightarrow> CHR '' '' # strip_tags r
      | None \<Rightarrow> c # strip_tags s)"
  by pat_completeness auto
termination
  by (relation "measure length") (auto split: if_splits dest: tag_rest_length)

text \<open>\<open>replace(/&nbsp;|&#160;/gi, " ")\<close>.\<close>

function strip_entities :: "string \<Rightarrow> string" where
  "strip_entities [] = []"
| "strip_entities (c # s) =
     (if take 6 (toLowerCase (c # s)) \<in> {''&nbsp;'', ''&#160;''} then CHR '' '' # strip_entities (drop 5 s)
      else c # strip_entities s)"
  by pat_completeness auto
termination
  by (relation "measure length") auto

definition is_punctuation :: "char \<Rightarrow> bool" where
  "is_punctuation c \<longleftrightarrow> c \<in> set (''.(),;:!?%#$_+=/-'' @ [CHR 0x27, CHR 0x22])"

definition stripHtml :: "string \<Rightarrow> string" where
  "stripHtml value = remove_chars is_punctuation (strip_entities (strip_tags value))"

text \<open>\<open>match(/\b\w+\b/g)\<close>: the maximal runs of word characters; without any the result is \<open>null\<close>, and reading
  its length throws.\<close>

fun word_count :: "bool \<Rightarrow> string \<Rightarrow> nat" where
  "word_count inside [] = 0"
| "word_count inside (c # s) =
     (if is_word c then (if inside then 0 else 1) + word_count True s else word_count False s)"

definition words_method :: "(nat \<Rightarrow> bool) \<Rightarrow> bool \<Rightarrow> string \<Rightarrow> vresult" where
  "words_method P opt value =
     (if opt then VMismatch
      else let n = word_count False (stripHtml value) in if n = 0 then VThrow else vbool (P n))"

definition maxWords :: "bool \<Rightarrow> string \<Rightarrow> nat \<Rightarrow> vresult" where
  "maxWords opt value params = words_method (\<lambda>n. n \<le> params) opt value"

definition minWords :: "bool \<Rightarrow> string \<Rightarrow> nat \<Rightarrow> vresult" where
  "minWords opt value params = words_method (\<lambda>n. n \<ge> params) opt value"

definition rangeWords :: "bool \<Rightarrow> string \<Rightarrow> nat \<times> nat \<Rightarrow> vresult" where
  "rangeWords opt value params = words_method (\<lambda>n. n \<ge> fst params \<and> n \<le> snd params) opt value"

section \<open>Files\<close>

record file_entry =
  fe_type :: string
  fe_size :: nat

text \<open>A form element as these methods see it: its \<open>type\<close> attribute and its \<open>files\<close>, if the browser has them.\<close>

record file_element =
  el_type :: "string option"
  el_files :: "file_entry list option"

text \<open>\<open>s.split(c)\<close> for a one-character separator.\<close>

definition split_on :: "char \<Rightarrow> string \<Rightarrow> string list" where
  "split_on x s = foldr (\<lambda>c acc. if c = x then [] # acc else (case acc of w # ws \<Rightarrow> (c # w) # ws | [] \<Rightarrow> [[c]])) s [[]]"

text \<open>The pattern \<open>accept\<close> builds from one type of its list: everything is escaped but the star; after a slash
  the star becomes \<open>.*\<close>, after another character it repeats that character, and with nothing to repeat the
  \<open>RegExp\<close> constructor throws (\<open>None\<close>).\<close>

fun accept_regex :: "string \<Rightarrow> regex option" where
  "accept_regex [] = Some REps"
| "accept_regex [c] = (if c = CHR ''*'' then None else Some (RChr c))"
| "accept_regex (c # d # s) =
     (if c = CHR ''*'' then None
      else if d = CHR ''*''
      then map_option (RSeq (if c = CHR ''/'' then RSeq (RChr c) (RStar RDot) else RStar (RChr c))) (accept_regex s)
      else map_option (RSeq (RChr c)) (accept_regex (d # s)))"

definition accept_method :: "bool \<Rightarrow> file_element \<Rightarrow> string option \<Rightarrow> vresult" where
  "accept_method opt el param =
     (let typeParam = (case param of Some p \<Rightarrow> remove_chars is_space p | None \<Rightarrow> ''image/*'');
          rs = map (\<lambda>t. accept_regex (toLowerCase t)) (split_on (CHR '','') typeParam)
      in if opt then VMismatch
         else if el_type el = Some ''file'' then
           (case el_files el of
              Some (f # fs) \<Rightarrow>
                if None \<in> set rs then VThrow
                else vbool (list_all (\<lambda>g. rmatch_suffix (RAlts (map the rs)) (toLowerCase (fe_type g))) (f # fs))
            | _ \<Rightarrow> VTrue)
         else VTrue)"

definition maxfiles :: "bool \<Rightarrow> file_element \<Rightarrow> nat \<Rightarrow> vresult" where
  "maxfiles opt el param =
     (if opt then VTrue
      else if el_type el = Some ''file'' then
        (case el_files el of Some fs \<Rightarrow> vbool (\<not> param < length fs) | None \<Rightarrow> VTrue)
      else VTrue)"

definition maxsize :: "bool \<Rightarrow> file_element \<Rightarrow> nat \<Rightarrow> vresult" where
  "maxsize opt el param =
     (if opt then VTrue
      else if el_type el = Some ''file'' then
        (case el_files el of Some fs \<Rightarrow> vbool (\<not> list_ex (\<lambda>f. param < fe_size f) fs) | None \<Rightarrow> VTrue)
      else VTrue)"

text \<open>The loop returns as soon as the running total is over the limit.\<close>

fun total_within :: "nat \<Rightarrow> nat \<Rightarrow> file_entry list \<Rightarrow> bool" where
  "total_within param totalSize [] = True"
| "total_within param totalSize (f # fs) =
     (let t = totalSize + fe_size f in if param < t then False else total_within param t fs)"

definition maxsizetotal :: "bool \<Rightarrow> file_element \<Rightarrow> nat \<Rightarrow> vresult" where
  "maxsizetotal opt el param =
     (if opt then VTrue
      else if el_type el = Some ''file'' then
        (case el_files el of Some fs \<Rightarrow> vbool (total_within param 0 fs) | None \<Rightarrow> VTrue)
      else VTrue)"

section \<open>Dates and times\<close>

text \<open>\<open>Date.UTC\<close> and the \<open>getUTC\<close> functions: days since 1970-01-01 in the Gregorian calendar, with months and days out
  of range carried over, and years 0 to 99 taken as 1900 to 1999 (ECMA-262, \<open>MakeDay\<close> and \<open>Date.UTC\<close>).\<close>

definition leap :: "int \<Rightarrow> bool" where
  "leap y \<longleftrightarrow> (y mod 4 = 0 \<and> y mod 100 \<noteq> 0) \<or> y mod 400 = 0"

definition days_in_month :: "int \<Rightarrow> int \<Rightarrow> int" where
  "days_in_month y m =
     (if m = 2 then (if leap y then 29 else 28) else if m \<in> {4, 6, 9, 11} then 30 else 31)"

text \<open>The day \<open>d\<close> of month \<open>m\<close> (1 to 12) of year \<open>y\<close>, where \<open>d\<close> may run over the end of the month: carried into the following
  months one at a time. Two-digit input makes at most four carries.\<close>

fun carry_day :: "nat \<Rightarrow> int \<Rightarrow> int \<Rightarrow> int \<Rightarrow> int \<times> int \<times> int" where
  "carry_day 0 y m d = (y, m, d)"
| "carry_day (Suc k) y m d =
     (if d > days_in_month y m
      then (if m = 12 then carry_day k (y + 1) 1 (d - 31) else carry_day k y (m + 1) (d - days_in_month y m))
      else (y, m, d))"

definition utc_date :: "int \<Rightarrow> int \<Rightarrow> int \<Rightarrow> int \<times> int \<times> int" where
  "utc_date year month day =
     (let yr = (if 0 \<le> year \<and> year \<le> 99 then 1900 + year else year);
          y = yr + month div 12; m = month mod 12 + 1
      in if day < 1
         then (if m = 1 then (y - 1, 12, 31 + day) else (y, m - 1, days_in_month y (m - 1) + day))
         else carry_day 4 y m day)"

definition dateITA_pattern :: regex where
  "dateITA_pattern = RSeqs [RBetween 1 2 RDigit, RChr (CHR ''/''), RBetween 1 2 RDigit, RChr (CHR ''/''), RRep 4 RDigit]"

definition dateITA_check :: "int \<Rightarrow> int \<Rightarrow> int \<Rightarrow> bool" where
  "dateITA_check gg mm aaaa \<longleftrightarrow>
     (case utc_date aaaa (mm - 1) gg of (y, m, d) \<Rightarrow> y = aaaa \<and> m - 1 = mm - 1 \<and> d = gg)"

definition dateITA :: "bool \<Rightarrow> string \<Rightarrow> vresult" where
  "dateITA opt value =
     optional_or opt
       (if rmatch dateITA_pattern value then
          (case map digits_value (split_on (CHR ''/'') value) of
             [gg, mm, aaaa] \<Rightarrow> dateITA_check gg mm aaaa
           | _ \<Rightarrow> False)
        else False)"

abbreviation (input) sl :: regex where "sl \<equiv> RChr (CHR ''/'')"

definition opt0_19 :: regex where
  "opt0_19 = RSeq (ROpt (RChr (CHR ''0''))) (RRange (CHR ''1'') (CHR ''9''))"

definition dateFA :: "bool \<Rightarrow> string \<Rightarrow> vresult" where
  "dateFA opt value = optional_or opt (rmatch
     (RSeqs [RRange (CHR ''1'') (CHR ''4''), RRep 3 RDigit, sl,
        RAlt
          (RSeqs [ROpt (RChr (CHR ''0'')), RRange (CHR ''1'') (CHR ''6''), sl,
             RAlts [RSeq (RChr (CHR ''3'')) (RRange (CHR ''0'') (CHR ''1'')), RSeq (RRange (CHR ''1'') (CHR ''2'')) RDigit, opt0_19]])
          (RSeqs [RAlt (RSeq (RChr (CHR ''1'')) (RRange (CHR ''0'') (CHR ''2'')))
                    (RSeq (ROpt (RChr (CHR ''0''))) (RRange (CHR ''7'') (CHR ''9''))), sl,
             RAlts [RStr ''30'', RSeq (RRange (CHR ''1'') (CHR ''2'')) RDigit, opt0_19]])]) value)"

definition dateNL :: "bool \<Rightarrow> string \<Rightarrow> vresult" where
  "dateNL opt value = optional_or opt (rmatch
     (RSeqs [RAlts [opt0_19, RSeq (RSet ''12'') RDigit, RSeq (RChr (CHR ''3'')) (RSet ''01'')], RSet ''./-'',
        RAlt opt0_19 (RSeq (RChr (CHR ''1'')) (RSet ''012'')), RSet ''./-'',
        ROpt (RSeq (RSet ''12'') RDigit), RDigit, RDigit]) value)"

definition colon_minutes :: regex where
  "colon_minutes = RSeqs [RChr (CHR '':''), RRange (CHR ''0'') (CHR ''5''), RDigit]"

definition time_method :: "bool \<Rightarrow> string \<Rightarrow> vresult" where
  "time_method opt value = optional_or opt (rmatch
     (RSeq (RAlts [RSeq (RSet ''01'') RDigit, RSeq (RChr (CHR ''2'')) (RRange (CHR ''0'') (CHR ''3'')), RDigit])
        (RBetween 1 2 colon_minutes)) value)"

definition time12h :: "bool \<Rightarrow> string \<Rightarrow> vresult" where
  "time12h opt value = optional_or opt (rmatch
     (RSeqs [RAlt opt0_19 (RSeq (RChr (CHR ''1'')) (RSet ''012'')), RBetween 1 2 colon_minutes,
        ROpt (RChr (CHR '' '')), RSet ''ap'', RChr (CHR ''m'')]) (toLowerCase value))"

section \<open>Codes, phone numbers and addresses\<close>

abbreviation (input) dash :: regex where "dash \<equiv> RChr (CHR ''-'')"
abbreviation (input) plus :: regex where "plus \<equiv> RChr (CHR ''+'')"
abbreviation (input) dot :: regex where "dot \<equiv> RChr (CHR ''.'')"
abbreviation (input) zero :: regex where "zero \<equiv> RChr (CHR ''0'')"

definition alphanumeric :: "bool \<Rightarrow> string \<Rightarrow> vresult" where
  "alphanumeric opt value = optional_or opt (rmatch (RPlus (RCls is_word)) value)"

definition bic :: "bool \<Rightarrow> string \<Rightarrow> vresult" where
  "bic opt value = optional_or opt (rmatch
     (RSeqs [RRep 6 (RCls is_upper), RCls (\<lambda>c. is_upper c \<or> in_range (CHR ''2'') (CHR ''9'') c),
        RCls (\<lambda>c. in_range (CHR ''A'') (CHR ''N'') c \<or> in_range (CHR ''P'') (CHR ''Z'') c \<or> in_range (CHR ''1'') (CHR ''9'') c),
        ROpt (RAlt (RStr ''XXX'')
          (RSeq (RCls (\<lambda>c. in_range (CHR ''A'') (CHR ''W'') c \<or> in_range (CHR ''Y'') (CHR ''Z'') c \<or> is_dig c))
             (RRep 2 (RCls (\<lambda>c. is_upper c \<or> is_dig c)))))])
     (toUpperCase value))"

definition integer_method :: "bool \<Rightarrow> string \<Rightarrow> vresult" where
  "integer_method opt value = optional_or opt (rmatch (RSeq (ROpt dash) (RPlus RDigit)) value)"

definition octet :: regex where
  "octet = RAlts [RSeq (RStr ''25'') (RRange (CHR ''0'') (CHR ''5'')),
     RSeqs [RChr (CHR ''2''), RRange (CHR ''0'') (CHR ''4''), RDigit], RSeqs [ROpt (RSet ''01''), RDigit, ROpt RDigit]]"

definition ipv4 :: "bool \<Rightarrow> string \<Rightarrow> vresult" where
  "ipv4 opt value = optional_or opt (rmatch (RSeqs [octet, dot, octet, dot, octet, dot, octet]) value)"

text \<open>In the pattern of \<open>ipv6\<close> every \<open>\b\<close> stands between a digit and a colon, a dot or an end of the value, where
  it always holds.\<close>

definition hex4 :: regex where
  "hex4 = RBetween 1 4 (RCls (\<lambda>c. is_dig c \<or> in_range (CHR ''a'') (CHR ''f'') c))"

definition hex4c :: regex where
  "hex4c = RSeq hex4 (RChr (CHR '':''))"

definition dec_octet :: regex where
  "dec_octet = RAlts [RSeq (RStr ''25'') (RRange (CHR ''0'') (CHR ''5'')), RSeq (RChr (CHR ''1'')) (RRep 2 RDigit),
     RSeqs [RChr (CHR ''2''), RRange (CHR ''0'') (CHR ''4''), RDigit], RBetween 1 2 RDigit]"

definition dotted :: regex where
  "dotted = RSeq (RRep 3 (RSeq dec_octet dot)) dec_octet"

definition ipv6_pattern :: regex where
  "ipv6_pattern = (let col = RChr (CHR '':''); cc = RStr ''::'' in RAlts
     [RSeq (RRep 7 hex4c) hex4,
      RSeqs [RRep 6 hex4c, col, hex4],
      RSeqs [RRep 5 hex4c, col, ROpt hex4c, hex4],
      RSeqs [RRep 4 hex4c, col, RUpto 2 hex4c, hex4],
      RSeqs [RRep 3 hex4c, col, RUpto 3 hex4c, hex4],
      RSeqs [RRep 2 hex4c, col, RUpto 4 hex4c, hex4],
      RSeq (RRep 6 hex4c) dotted,
      RSeqs [RUpto 5 hex4c, col, dotted],
      RSeqs [cc, RUpto 5 hex4c, dotted],
      RSeqs [hex4, cc, RUpto 5 hex4c, hex4],
      RSeqs [cc, RUpto 6 hex4c, hex4],
      RSeq (RBetween 1 7 hex4c) col])"

definition ipv6 :: "bool \<Rightarrow> string \<Rightarrow> vresult" where
  "ipv6 opt value = optional_or opt (rmatch ipv6_pattern (toLowerCase value))"

definition lettersonly :: "bool \<Rightarrow> string \<Rightarrow> vresult" where
  "lettersonly opt value = optional_or opt (rmatch (RPlus (RCls is_lower)) (toLowerCase value))"

definition letterswithbasicpunc :: "bool \<Rightarrow> string \<Rightarrow> vresult" where
  "letterswithbasicpunc opt value = optional_or opt
     (rmatch (RPlus (RCls (\<lambda>c. is_lower c \<or> c \<in> set (''-.,()'' @ [CHR 0x27, CHR 0x22]) \<or> is_space c))) (toLowerCase value))"

text \<open>\<open>(\s|\s?\-\s?)?\<close> and the prefix shared by \<open>mobileNL\<close> and \<open>phoneNL\<close>.\<close>

definition nl_sep :: regex where
  "nl_sep = ROpt (RAlt RSpace (RSeqs [ROpt RSpace, dash, ROpt RSpace]))"

definition nl_prefix :: regex where
  "nl_prefix = RAlt
     (RSeqs [RAlt plus (RSeq (RStr ''00'') nl_sep), RStr ''31'', nl_sep,
        ROpt (RSeq (RStr ''(0)'') (ROpt (RAlt dash RSpace)))]) zero"

definition mobileNL :: "bool \<Rightarrow> string \<Rightarrow> vresult" where
  "mobileNL opt value = optional_or opt
     (rmatch (RSeqs [nl_prefix, RChr (CHR ''6''), RRep 8 (RSeq nl_sep RDigit)]) value)"

definition phoneNL :: "bool \<Rightarrow> string \<Rightarrow> vresult" where
  "phoneNL opt value = optional_or opt
     (rmatch (RSeqs [nl_prefix, RRange (CHR ''1'') (CHR ''9''), RRep 8 (RSeq nl_sep RDigit)]) value)"

text \<open>\<open>replace(/\(|\)|\s+|-/g, "")\<close>.\<close>

definition strip_phone :: "string \<Rightarrow> string" where
  "strip_phone s = remove_chars (\<lambda>c. c \<in> set ''()-'' \<or> is_space c) s"

definition mobileRU :: "bool \<Rightarrow> string \<Rightarrow> vresult" where
  "mobileRU opt phone_number =
     (let n = strip_phone phone_number
      in optional_or opt (length n > 9 \<and>
           rmatch (RSeq (RPlus (RAlts [RStr ''+7'', RStr ''7'', RStr ''8''])) (RRep 10 RDigit)) n))"

definition uk_prefix :: regex where
  "uk_prefix = RSeqs [RAlt (RSeq (RStr ''00'') (ROpt RSpace)) plus, RStr ''44'', ROpt RSpace]"

definition mobileUK :: "bool \<Rightarrow> string \<Rightarrow> vresult" where
  "mobileUK opt phone_number =
     (let n = strip_phone phone_number
      in optional_or opt (length n > 9 \<and>
           rmatch (RSeqs [RAlt uk_prefix zero, RChr (CHR ''7''), RAlt (RSeq (RSet ''1345789'') (RRep 2 RDigit)) (RStr ''624''),
             ROpt RSpace, RRep 3 RDigit, ROpt RSpace, RRep 3 RDigit]) n))"

definition phonesUK :: "bool \<Rightarrow> string \<Rightarrow> vresult" where
  "phonesUK opt phone_number =
     (let n = strip_phone phone_number
      in optional_or opt (length n > 9 \<and>
           rmatch (RSeq (RAlt uk_prefix zero)
             (RAlts [RSeq (RChr (CHR ''1'')) (RBetween 8 9 RDigit), RSeq (RSet ''23'') (RRep 9 RDigit),
                RSeq (RChr (CHR ''7'')) (RAlt (RSeq (RSet ''1345789'') (RRep 8 RDigit)) (RSeq (RStr ''624'') (RRep 6 RDigit)))])) n))"

definition phoneUK :: "bool \<Rightarrow> string \<Rightarrow> vresult" where
  "phoneUK opt phone_number =
     (let n = strip_phone phone_number; cl = ROpt (RChr (CHR '')'')); sp = ROpt RSpace
      in optional_or opt (length n > 9 \<and>
           rmatch (RSeq (RAlt uk_prefix (RSeq (ROpt (RChr (CHR ''(''))) zero))
             (RAlts [RSeqs [RRep 2 RDigit, cl, sp, RRep 4 RDigit, sp, RRep 4 RDigit],
                RSeqs [RRep 3 RDigit, cl, sp, RRep 3 RDigit, sp, RBetween 3 4 RDigit],
                RSeqs [RRep 4 RDigit, cl, sp, RAlt (RRep 5 RDigit) (RSeqs [RRep 3 RDigit, sp, RRep 3 RDigit])],
                RSeqs [RRep 5 RDigit, cl, sp, RBetween 4 5 RDigit]])) n))"

definition us_area :: regex where
  "us_area = RSeq (RRange (CHR ''2'') (CHR ''9''))
     (RAlt (RSeq (RCls (\<lambda>c. c = CHR ''0'' \<or> in_range (CHR ''2'') (CHR ''9'') c)) RDigit)
        (RSeq (RChr (CHR ''1'')) (RCls (\<lambda>c. c = CHR ''0'' \<or> in_range (CHR ''2'') (CHR ''9'') c))))"

definition phoneUS :: "bool \<Rightarrow> string \<Rightarrow> vresult" where
  "phoneUS opt phone_number =
     (let n = remove_chars is_space phone_number
      in optional_or opt (length n > 9 \<and>
           rmatch (RSeqs [ROpt (RSeqs [ROpt plus, RChr (CHR ''1''), ROpt dash]),
             RAlt (RSeqs [RChr (CHR ''(''), us_area, RChr (CHR '')'')]) us_area, ROpt dash,
             RRange (CHR ''2'') (CHR ''9''), RRep 2 RDigit, ROpt dash, RRep 4 RDigit]) n))"

definition phonePL :: "bool \<Rightarrow> string \<Rightarrow> vresult" where
  "phonePL opt phone_number =
     (let n = remove_chars is_space phone_number
      in optional_or opt (rmatch (RSeqs
        [ROpt (RAlt (RSeq (ROpt (RAlt plus (RStr ''00''))) (RStr ''48'')) (RSeqs [RChr (CHR ''(''), ROpt plus, RStr ''48)''])),
         RAlts [RSeq (RChr (CHR ''1'')) (RRange (CHR ''2'') (CHR ''8'')), RSeq (RChr (CHR ''2'')) (RSet ''234569''),
           RSeq (RChr (CHR ''3'')) (RSet ''2349''), RSeq (RChr (CHR ''4'')) (RSet ''1234568''), RSeq (RChr (CHR ''5'')) RDigit,
           RSeq (RChr (CHR ''6'')) (RSet ''012356789''), RSeq (RSet ''78'') (RRange (CHR ''1'') (CHR ''9'')),
           RSeq (RChr (CHR ''9'')) (RSet ''145'')],
         RRep 7 RDigit]) n))"

text \<open>The four alternatives of \<open>netmask\<close>: only the first is anchored, and only at the start.\<close>

definition mask_octet :: "string list \<Rightarrow> regex" where
  "mask_octet others = RAlts (map RStr ([''254'', ''252'', ''248'', ''240'', ''224'', ''192'', ''128''] @ others))"

definition netmask :: "bool \<Rightarrow> string \<Rightarrow> vresult" where
  "netmask opt value = optional_or opt
     (rmatch_prefix (RSeq (mask_octet []) (RStr ''.0.0.0'')) value
      \<or> rmatch_sub (RSeqs [RStr ''255.'', mask_octet [''0''], RStr ''.0.0'']) value
      \<or> rmatch_sub (RSeqs [RStr ''255.255.'', mask_octet [''0''], RStr ''.0'']) value
      \<or> rmatch_sub (RSeq (RStr ''255.255.255.'') (mask_octet [''0''])) value)"

definition nowhitespace :: "bool \<Rightarrow> string \<Rightarrow> vresult" where
  "nowhitespace opt value = optional_or opt (rmatch (RPlus (RCls (\<lambda>c. \<not> is_space c))) value)"

definition postalcodeBR :: "bool \<Rightarrow> string \<Rightarrow> vresult" where
  "postalcodeBR opt cep_value = optional_or opt
     (rmatch (RSeqs [RRep 2 RDigit, RDot, RRep 3 RDigit, dash, RRep 3 RDigit]) cep_value
      \<or> rmatch (RSeqs [RRep 5 RDigit, ROpt dash, RRep 3 RDigit]) cep_value)"

definition postalCodeCA :: "bool \<Rightarrow> string \<Rightarrow> vresult" where
  "postalCodeCA opt value = optional_or opt
     (rmatch (RSeqs [RSet ''abceghjklmnprstvxy'', RDigit, RSet ''abceghjklmnprstvwxyz'', RStar (RChr (CHR '' '')), RDigit,
        RSet ''abceghjklmnprstvwxyz'', RDigit]) (toLowerCase value))"

definition postalcodeIT :: "bool \<Rightarrow> string \<Rightarrow> vresult" where
  "postalcodeIT opt value = optional_or opt (rmatch (RRep 5 RDigit) value)"

definition postalcodeNL :: "bool \<Rightarrow> string \<Rightarrow> vresult" where
  "postalcodeNL opt value = optional_or opt
     (rmatch (RSeqs [RRange (CHR ''1'') (CHR ''9''), RRep 3 RDigit, ROpt RSpace, RRep 2 (RCls (\<lambda>c. is_lower c \<or> is_upper c))]) value)"

definition uk_first :: regex where
  "uk_first = RCls (\<lambda>c. in_range (CHR ''a'') (CHR ''p'') c \<or> in_range (CHR ''r'') (CHR ''u'') c \<or> c \<in> set ''wyz'')"

definition uk_second :: regex where
  "uk_second = RCls (\<lambda>c. in_range (CHR ''a'') (CHR ''h'') c \<or> in_range (CHR ''k'') (CHR ''y'') c)"

definition postcodeUK :: "bool \<Rightarrow> string \<Rightarrow> vresult" where
  "postcodeUK opt value = optional_or opt (rmatch
     (RAlt
       (RSeqs [RAlts [RSeq uk_first RDigit, RSeqs [uk_first, RDigit, RDigit], RSeqs [uk_first, uk_second, RDigit],
            RSeqs [uk_first, uk_second, RDigit, RDigit], RSeqs [uk_first, RDigit, RSet ''abcdefghjkstuw''],
            RSeqs [uk_first, uk_second, RDigit, RSet ''abehmnprvwxy'']],
          ROpt RSpace, RDigit,
          RRep 2 (RCls (\<lambda>c. c \<in> set ''abjln'' \<or> in_range (CHR ''d'') (CHR ''h'') c
            \<or> in_range (CHR ''p'') (CHR ''u'') c \<or> in_range (CHR ''w'') (CHR ''z'') c))])
       (RSeqs [RStr ''gir'', ROpt RSpace, RStr ''0aa''])) (toLowerCase value))"

text \<open>States by first letter and allowed second letters.\<close>

definition state_regex :: "(char \<times> string) list \<Rightarrow> regex" where
  "state_regex table = RAlts (map (\<lambda>(c, ds). RSeq (RChr c) (RSet ds)) table)"

definition states :: "bool \<Rightarrow> bool \<Rightarrow> (char \<times> string) list" where
  "states territories military =
     [(CHR ''A'', (if territories \<and> military then ''AEKLPRSZ'' else if territories then ''KLRSZ''
                   else if military then ''AEKLPRZ'' else ''KLRZ'')),
      (CHR ''C'', ''AOT''), (CHR ''D'', ''CE''), (CHR ''F'', ''L''), (CHR ''G'', if territories then ''AU'' else ''A''),
      (CHR ''H'', ''I''), (CHR ''I'', ''ADLN''), (CHR ''K'', ''SY''), (CHR ''L'', ''A''),
      (CHR ''M'', if territories then ''ADEINOPST'' else ''ADEINOST''), (CHR ''N'', ''CDEHJMVY''), (CHR ''O'', ''HKR''),
      (CHR ''P'', if territories then ''AR'' else ''A''), (CHR ''R'', ''I''), (CHR ''S'', ''CD''), (CHR ''T'', ''NX''),
      (CHR ''U'', ''T''), (CHR ''V'', if territories then ''AIT'' else ''AT''), (CHR ''W'', ''AIVY'')]"

record state_options =
  so_caseSensitive :: "bool option"
  so_includeTerritories :: "bool option"
  so_includeMilitary :: "bool option"

definition stateUS :: "bool \<Rightarrow> string \<Rightarrow> state_options option \<Rightarrow> vresult" where
  "stateUS opt value options =
     (let get = (\<lambda>f. case options of None \<Rightarrow> False | Some o1 \<Rightarrow> (case f o1 of None \<Rightarrow> False | Some b \<Rightarrow> b));
          regex = state_regex (states (get so_includeTerritories) (get so_includeMilitary))
      in optional_or opt (rmatch regex (if get so_caseSensitive then value else toUpperCase value)))"

definition zipcodeUS :: "bool \<Rightarrow> string \<Rightarrow> vresult" where
  "zipcodeUS opt value = optional_or opt (rmatch (RSeq (RRep 5 RDigit) (ROpt (RSeq dash (RRep 4 RDigit)))) value)"

text \<open>The braces after the first \<open>\d\<close> are escaped in the source, so they are literal.\<close>

definition ziprange :: "bool \<Rightarrow> string \<Rightarrow> vresult" where
  "ziprange opt value = optional_or opt
     (rmatch (RSeqs [RStr ''90'', RRange (CHR ''2'') (CHR ''5''), RDigit, RStr ''{2}'', dash, RRep 4 RDigit]) value)"

section \<open>Patterns given as parameters\<close>

text \<open>\<open>currency\<close>: the symbols are members of a character class; \<open>soft\<close> is the second entry of the parameter, true when
  the parameter is a string.\<close>

definition currency :: "bool \<Rightarrow> string \<Rightarrow> string \<Rightarrow> bool \<Rightarrow> vresult" where
  "currency opt value param soft =
     (let symbol = RSet (remove_chars (\<lambda>c. c = CHR '','') param);
          cents = ROpt (RSeq dot (RUpto 2 RDigit)); nz = RRange (CHR ''1'') (CHR ''9'')
      in optional_or opt (rmatch (RSeq (if soft then symbol else ROpt symbol)
           (RAlts [RSeqs [nz, RUpto 2 RDigit, RStar (RSeq (RChr (CHR '','')) (RRep 3 RDigit)), cents],
              RSeqs [nz, RStar RDigit, cents], RSeq zero cents, ROpt (RSeq dot (RBetween 1 2 RDigit))])) value))"

text \<open>\<open>extension\<close> and \<open>pattern\<close> take a pattern of the page's author; here it is given as its alternatives.\<close>

definition extension_method :: "bool \<Rightarrow> string \<Rightarrow> regex list option \<Rightarrow> vresult" where
  "extension_method opt value param =
     (let alts = (case param of Some rs \<Rightarrow> rs
                  | None \<Rightarrow> [RStr ''png'', RSeqs [RStr ''jp'', ROpt (RChr (CHR ''e'')), RStr ''g''], RStr ''gif''])
      in optional_or opt (rmatch_suffix (RSeq dot (RAlts alts)) (toLowerCase value)))"

datatype pattern_param = PatternSource regex | PatternTest "string \<Rightarrow> bool"

definition pattern_method :: "bool \<Rightarrow> string \<Rightarrow> pattern_param \<Rightarrow> vresult" where
  "pattern_method opt value param =
     (if opt then VTrue
      else vbool (case param of PatternSource r \<Rightarrow> rmatch r value | PatternTest t \<Rightarrow> t value))"

section \<open>Comparisons with other fields\<close>

text \<open>\<open>a < b\<close> of two strings, by code units.\<close>

fun str_less :: "string \<Rightarrow> string \<Rightarrow> bool" where
  "str_less [] t = (t \<noteq> [])"
| "str_less (c # s) [] = False"
| "str_less (c # s) (d # t) = ((of_char c :: nat) < of_char d \<or> (c = d \<and> str_less s t))"

text \<open>A target field: its value and the marker classes that say which comparisons have bound its \<open>blur\<close> event.\<close>

record target_field =
  tf_value :: string
  tf_classes :: "string set"

definition bind_blur :: "bool \<Rightarrow> string \<Rightarrow> target_field \<Rightarrow> target_field" where
  "bind_blur onfocusout cls target =
     (if onfocusout \<and> cls \<notin> tf_classes target then target\<lparr>tf_classes := insert cls (tf_classes target)\<rparr> else target)"

definition greaterThan :: "bool \<Rightarrow> string \<Rightarrow> target_field \<Rightarrow> vresult \<times> target_field" where
  "greaterThan onfocusout value target =
     (vbool (str_less (tf_value target) value), bind_blur onfocusout ''validate-greaterThan-blur'' target)"

definition greaterThanEqual :: "bool \<Rightarrow> string \<Rightarrow> target_field \<Rightarrow> vresult \<times> target_field" where
  "greaterThanEqual onfocusout value target =
     (vbool (\<not> str_less value (tf_value target)), bind_blur onfocusout ''validate-greaterThanEqual-blur'' target)"

definition lessThan :: "bool \<Rightarrow> string \<Rightarrow> target_field \<Rightarrow> vresult \<times> target_field" where
  "lessThan onfocusout value target =
     (vbool (str_less value (tf_value target)), bind_blur onfocusout ''validate-lessThan-blur'' target)"

definition lessThanEqual :: "bool \<Rightarrow> string \<Rightarrow> target_field \<Rightarrow> vresult \<times> target_field" where
  "lessThanEqual onfocusout value target =
     (vbool (\<not> str_less (tf_value target) value), bind_blur onfocusout ''validate-lessThanEqual-blur'' target)"

text \<open>\<open>equalTo\<close> is the method of \<open>jquery.validate.js\<close>.\<close>

definition equalTo :: "bool \<Rightarrow> string \<Rightarrow> target_field \<Rightarrow> vresult \<times> target_field" where
  "equalTo onfocusout value target =
     (vbool (value = tf_value target), bind_blur onfocusout ''validate-equalTo-blur'' target)"

definition notEqualTo :: "bool \<Rightarrow> bool \<Rightarrow> string \<Rightarrow> target_field \<Rightarrow> vresult \<times> target_field" where
  "notEqualTo opt onfocusout value target =
     (if opt then (VMismatch, target)
      else case equalTo onfocusout value target of (r, target') \<Rightarrow> (vbool (\<not> accepts r), target'))"

text \<open>The group methods: the values of the group's fields, whether this element is already being validated by the group,
  and the positions of the fields to validate again.\<close>

definition filled_count :: "string list \<Rightarrow> nat" where
  "filled_count values = length (filter (\<lambda>v. v \<noteq> []) values)"

definition require_from_group :: "string list \<Rightarrow> bool \<Rightarrow> nat \<Rightarrow> vresult \<times> nat list" where
  "require_from_group values being_validated n =
     (vbool (n \<le> filled_count values), if being_validated then [] else [0..<length values])"

definition skip_or_fill_minimum :: "string list \<Rightarrow> bool \<Rightarrow> nat \<Rightarrow> vresult \<times> nat list" where
  "skip_or_fill_minimum values being_validated n =
     (vbool (filled_count values = 0 \<or> n \<le> filled_count values),
      if being_validated then [] else [0..<length values])"

section \<open>URLs\<close>

text \<open>The pattern shared by \<open>url\<close> of \<open>jquery.validate.js\<close> and \<open>url2\<close>, whose host may have no top-level domain. The rest
  after the host is part of what the lookaheads see.\<close>

definition url_user :: regex where
  "url_user = RAlt (RCls (\<lambda>c. c \<notin> set (''][?/<~#`!@$^&*()+=}|:;,>{ '' @ [CHR 0x22, CHR 0x27])))
     (RSeq (RChr (CHR ''%'')) (RRep 2 (RCls (\<lambda>c. is_dig c \<or> in_range (CHR ''a'') (CHR ''f'') c))))"

definition url_alnum :: "char \<Rightarrow> bool" where
  "url_alnum c \<longleftrightarrow> is_lower c \<or> is_dig c \<or> (0xA1 \<le> (of_char c :: nat))"

definition url_label :: regex where
  "url_label = RSeq
     (ROpt (RSeq (RCls url_alnum) (RUpto 62 (RCls (\<lambda>c. url_alnum c \<or> c = CHR ''_'' \<or> c = CHR ''-'')))))
     (RCls url_alnum)"

definition url_ip :: regex where
  "url_ip = RSeqs
     [RAlts [RSeq (RRange (CHR ''1'') (CHR ''9'')) (ROpt RDigit), RSeqs [RChr (CHR ''1''), RDigit, RDigit],
        RSeqs [RChr (CHR ''2''), RSet ''01'', RDigit], RSeq (RStr ''22'') (RRange (CHR ''0'') (CHR ''3''))],
      RRep 2 (RSeq dot (RAlts [RSeq (ROpt (RChr (CHR ''1''))) (RBetween 1 2 RDigit),
        RSeqs [RChr (CHR ''2''), RRange (CHR ''0'') (CHR ''4''), RDigit], RSeq (RStr ''25'') (RRange (CHR ''0'') (CHR ''5''))])),
      dot, RAlts [RSeq (RRange (CHR ''1'') (CHR ''9'')) (ROpt RDigit), RSeqs [RChr (CHR ''1''), RDigit, RDigit],
        RSeqs [RChr (CHR ''2''), RRange (CHR ''0'') (CHR ''4''), RDigit], RSeq (RStr ''25'') (RRange (CHR ''0'') (CHR ''4''))]]"

definition url_tail :: regex where
  "url_tail = RSeq (ROpt (RSeq (RChr (CHR '':'')) (RBetween 2 5 RDigit)))
     (ROpt (RSeq (RSet ''/?#'') (RStar (RCls (\<lambda>c. \<not> is_space c)))))"

definition private_ip :: "regex list" where
  "private_ip =
     (let part = RSeq dot (RBetween 1 3 RDigit) in
      [RSeq (RAlt (RStr ''10'') (RStr ''127'')) (RRep 3 part),
       RSeq (RAlt (RStr ''169.254'') (RStr ''192.168'')) (RRep 2 part),
       RSeqs [RStr ''172.'', RAlts [RSeq (RChr (CHR ''1'')) (RRange (CHR ''6'') (CHR ''9'')), RSeq (RChr (CHR ''2'')) RDigit,
          RSeq (RChr (CHR ''3'')) (RRange (CHR ''0'') (CHR ''1''))], RRep 2 part]])"

definition url_pattern :: "regex list \<Rightarrow> regex" where
  "url_pattern more_hosts =
     (let names = [RSeqs [RPlus (RSeq url_label dot), RRep 2 (RCls (\<lambda>c. is_lower c \<or> 0xA1 \<le> (of_char c :: nat))),
            RStar (RCls (\<lambda>c. is_lower c \<or> 0xA1 \<le> (of_char c :: nat))), ROpt dot]];
          ip = foldr RNotAhead private_ip (RSeq url_ip url_tail)
      in RSeqs
        [ROpt (RSeq (RAlt (RSeq (RStr ''http'') (ROpt (RChr (CHR ''s'')))) (RStr ''ftp'')) (RChr (CHR '':''))), RStr ''//'',
         ROpt (RSeqs [RPlus url_user, ROpt (RSeq (RChr (CHR '':'')) (RStar url_user)), RChr (CHR ''@'')]),
         RAlts (ip # map (\<lambda>h. RSeq h url_tail) (names @ more_hosts))])"

definition url_method :: "bool \<Rightarrow> string \<Rightarrow> vresult" where
  "url_method opt value = optional_or opt (rmatch (url_pattern []) (toLowerCase value))"

definition url2 :: "bool \<Rightarrow> string \<Rightarrow> vresult" where
  "url2 opt value = optional_or opt (rmatch (url_pattern
     [url_label, RSeqs [RCls url_alnum, RUpto 62 (RCls (\<lambda>c. url_alnum c \<or> c = CHR ''_'' \<or> c = CHR ''-'')), dot]])
     (toLowerCase value))"

end
