(* ===== verification/Validators_Correct.thy ===== *)
theory Validators_Correct
  imports Validators_Checksum Validators_Format
begin

text \<open>
  What the validation methods of \<open>additional-methods.js\<close> decide: check digits catch every single wrong digit, the
  digit-by-digit IBAN loop computes a remainder modulo 97, \<open>dateITA\<close> follows the calendar; and the inputs on
  which some methods do not do what their messages say.
\<close>

section \<open>Credit cards\<close>

definition luhn_digit :: "bool \<Rightarrow> int \<Rightarrow> int" where
  "luhn_digit bEven n = (if bEven then (if n * 2 > 9 then n * 2 - 9 else n * 2) else n)"

lemma luhn_digit_inj:
  "0 \<le> a \<Longrightarrow> a \<le> 9 \<Longrightarrow> 0 \<le> b \<Longrightarrow> b \<le> 9 \<Longrightarrow> luhn_digit e a mod 10 = luhn_digit e b mod 10 \<Longrightarrow> a = b"
  unfolding luhn_digit_def by (auto split: if_splits) presburger+

lemma luhn_loop_Cons: "luhn_loop (c # cs) n e = luhn_loop cs (n + luhn_digit e (digit_value c)) (\<not> e)"
  by (simp add: Let_def luhn_digit_def)

lemma luhn_loop_acc: "luhn_loop cs n e = n + luhn_loop cs 0 e"
proof (induction cs arbitrary: n e)
  case (Cons c cs)
  let ?d = "luhn_digit e (digit_value c)"
  have "luhn_loop cs (n + ?d) (\<not> e) = n + ?d + luhn_loop cs 0 (\<not> e)" by (rule Cons)
  moreover have "luhn_loop cs (0 + ?d) (\<not> e) = 0 + ?d + luhn_loop cs 0 (\<not> e)" by (rule Cons)
  ultimately show ?case unfolding luhn_loop_Cons by linarith
qed simp

lemma luhn_loop_append:
  "luhn_loop (xs @ ys) n e = luhn_loop ys (luhn_loop xs n e) (e \<noteq> odd (length xs))"
proof (induction xs arbitrary: n e)
  case (Cons c xs)
  have parity: "((\<not> e) \<noteq> odd (length xs)) = (e \<noteq> odd (length (c # xs)))" by auto
  show ?case unfolding append_Cons luhn_loop_Cons Cons parity ..
qed simp

lemma add_mod_cancel: "(a + x + b) mod m = (a + y + b) mod m \<longleftrightarrow> x mod m = y mod (m::int)"
  by (simp add: mod_eq_dvd_iff)

lemma luhn_loop_digit:
  "luhn_loop (xs @ c # ys) 0 e =
     luhn_loop xs 0 e + luhn_digit (e \<noteq> odd (length xs)) (digit_value c) + luhn_loop ys 0 (e = odd (length xs))"
proof -
  have "luhn_loop (xs @ c # ys) 0 e = luhn_loop (c # ys) (luhn_loop xs 0 e) (e \<noteq> odd (length xs))"
    by (rule luhn_loop_append)
  also have "\<dots> = luhn_loop ys (luhn_loop xs 0 e + luhn_digit (e \<noteq> odd (length xs)) (digit_value c)) (e = odd (length xs))"
    by (simp add: luhn_loop_Cons del: luhn_loop.simps)
  also have "\<dots> = luhn_loop xs 0 e + luhn_digit (e \<noteq> odd (length xs)) (digit_value c) + luhn_loop ys 0 (e = odd (length xs))"
    by (rule luhn_loop_acc)
  finally show ?thesis .
qed

lemma only_digits_split: "is_dig c \<Longrightarrow> only_digits (p @ c # q) = only_digits p @ c # only_digits q"
  by (simp add: only_digits_def remove_chars_def)

text \<open>C30. Any single wrong digit in a credit card number is caught: if \<open>creditcard\<close> accepts a number (with or
  without spaces and dashes), it rejects the number with one digit replaced by another.\<close>

theorem creditcard_detects_wrong_digit:
  assumes "creditcard False (p @ [c] @ q) = VTrue" and "is_dig c" and "is_dig d" and "c \<noteq> d"
  shows "creditcard False (p @ [d] @ q) = VFalse"
proof -
  let ?xs = "rev (only_digits q)" and ?ys = "rev (only_digits p)"
  let ?e = "odd (length ?xs)"
  have eq: "luhn_loop (rev (only_digits (p @ [x] @ q))) 0 False =
      luhn_loop ?xs 0 False + luhn_digit ?e (digit_value x) + luhn_loop ?ys 0 (\<not> ?e)" if "is_dig x" for x
    using luhn_loop_digit [of ?xs x ?ys False] that by (simp add: only_digits_split)
  have "luhn_digit ?e (digit_value c) mod 10 \<noteq> luhn_digit ?e (digit_value d) mod 10"
    using luhn_digit_inj [of "digit_value c" "digit_value d" ?e] digit_value_bounds [OF assms(2)]
      digit_value_bounds [OF assms(3)] digit_value_inj [of c d] assms(4) by blast
  then have "luhn_loop (rev (only_digits (p @ [c] @ q))) 0 False mod 10 \<noteq>
      luhn_loop (rev (only_digits (p @ [d] @ q))) 0 False mod 10"
    unfolding eq [OF assms(2)] eq [OF assms(3)] add_mod_cancel .
  moreover have "luhn_loop (rev (only_digits (p @ [c] @ q))) 0 False mod 10 = 0"
    using assms(1) by (auto simp: creditcard_def Let_def split: if_splits)
  moreover have "length (only_digits (p @ [d] @ q)) = length (only_digits (p @ [c] @ q))"
    using assms(2,3) by (simp add: only_digits_split)
  ultimately show ?thesis by (auto simp: creditcard_def Let_def split: if_splits)
qed

theorem creditcard_detects_wrong_digit_witness:
  "creditcard False ''4111 1111 1111 1111'' = VTrue \<and> creditcard False ''4111 1112 1111 1111'' = VFalse"
proof -
  have ok: "creditcard False (''4111 111'' @ ''1'' @ '' 1111 1111'') = VTrue" by code_simp
  have "is_dig (CHR ''1'')" "is_dig (CHR ''2'')" by code_simp+
  from creditcard_detects_wrong_digit [OF ok this] ok show ?thesis by simp
qed

section \<open>Routing numbers\<close>

lemma abaRoutingNumber_digits:
  assumes "length v = 9" "list_all is_dig v"
  shows "abaRoutingNumber v =
    vbool (weighted_sum [3, 7, 1, 3, 7, 1, 3, 7, 1] (map digit_value v) \<noteq> 0
      \<and> weighted_sum [3, 7, 1, 3, 7, 1, 3, 7, 1] (map digit_value v) mod 10 = 0)"
proof -
  obtain a b c d e f g h i where v: "v = [a, b, c, d, e, f, g, h, i]"
    using assms(1) by (auto simp: numeral_eq_Suc length_Suc_conv)
  have ds: "is_dig a" "is_dig b" "is_dig c" "is_dig d" "is_dig e" "is_dig f" "is_dig g" "is_dig h" "is_dig i"
    using assms(2) by (simp_all add: v)
  note nonneg = ds [THEN digit_value_bounds, THEN conjunct1]
  show ?thesis using ds nonneg
    by (simp add: v abaRoutingNumber_def parse_at_def weighted_sum_def Let_def algebra_simps)
qed

interpretation aba: check_digits "[3, 7, 1, 3, 7, 1, 3, 7, 1]" 10
  by unfold_locales (simp_all add: coprime_iff_gcd_eq_1 gcd_non_0_int)

text \<open>Any single wrong digit in a routing number is caught.\<close>

lemma abaRoutingNumber_detects_wrong_digit:
  assumes "abaRoutingNumber v = VTrue" and "list_all is_dig v" and "i < 9" and "is_dig d" and "d \<noteq> v ! i"
  shows "abaRoutingNumber (v[i := d]) = VFalse"
proof -
  have len: "length v = 9" using assms(1) by (auto simp: abaRoutingNumber_def split: if_splits)
  let ?ds = "map digit_value v"
  have di: "is_dig (v ! i)" using assms(2,3) len by (simp add: list_all_length)
  have "\<not> aba.passes (?ds[i := digit_value d])"
  proof (rule aba.single_digit_error)
    show "aba.passes ?ds" using assms(1,2) len by (simp add: abaRoutingNumber_digits aba.passes_def)
    show "0 \<le> ?ds ! i" "?ds ! i \<le> 9" using di len assms(3) digit_value_bounds by auto
    show "0 \<le> digit_value d" "digit_value d \<le> 9" using assms(4) digit_value_bounds by auto
    show "digit_value d \<noteq> ?ds ! i" using assms(3,5) len digit_value_inj by fastforce
  qed (use len assms(3) in simp_all)
  moreover have "list_all is_dig (v[i := d])"
    using assms(2,4) by (auto simp: list_all_iff dest: set_update_subset_insert [THEN subsetD])
  ultimately show ?thesis
    using len by (simp add: abaRoutingNumber_digits aba.passes_def map_update)
qed

section \<open>IBAN\<close>

lemma digits_value_append: "digits_value (xs @ ys) = digits_value xs * 10 ^ length ys + digits_value ys"
  by (induction ys rule: rev_induct) (simp_all add: digits_value_def algebra_simps)

lemma digits_value_snoc [simp]: "digits_value (xs @ [c]) = 10 * digits_value xs + digit_value c"
  by (simp add: digits_value_def)

lemma digits_value_Nil [simp]: "digits_value [] = 0"
  by (simp add: digits_value_def)

lemma digit_char_dig: "n < 10 \<Longrightarrow> is_dig (digit_char n) \<and> digit_value (digit_char n) = int n"
proof -
  assume "n < 10"
  then have "n \<in> {0, 1, 2, 3, 4, 5, 6, 7, 8, 9}" by auto
  then show ?thesis by (auto simp: digit_char_def is_dig_def in_range_def digit_value_def)
qed

lemma js_String_value: "list_all is_dig (js_String n) \<and> digits_value (js_String n) = int n"
  unfolding js_String_def
proof (induction "10 :: nat" n rule: to_radix.induct)
  case (1 n)
  show ?case
  proof (cases "n < 10")
    case True
    then show ?thesis using digit_char_dig [of n] by (simp add: to_radix.simps digits_value_def)
  next
    case False
    moreover have "10 * int (n div 10) + int (n mod 10) = int n" by presburger
    ultimately show ?thesis using 1 digit_char_dig [of "n mod 10"]
      by (simp add: to_radix.simps [of 10 n])
  qed
qed

lemma js_String_small: "n < 10 \<Longrightarrow> js_String n = [digit_char n]"
  "10 \<le> n \<Longrightarrow> n < 100 \<Longrightarrow> js_String n = [digit_char (n div 10), digit_char (n mod 10)]"
  by (simp_all add: js_String_def to_radix.simps)

definition is_alnum :: "char \<Rightarrow> bool" where
  "is_alnum c \<longleftrightarrow> is_dig c \<or> is_upper c"

text \<open>The number an IBAN stands for: letters count from ten and take two decimal places.\<close>

definition iban_number :: "string \<Rightarrow> int" where
  "iban_number s = foldl (\<lambda>n c. (if is_dig c then 10 else 100) * n + iban_index c) 0 s"

lemma iban_index_str:
  assumes "is_alnum c"
  shows "list_all is_dig (num_str (Some (iban_index c)))"
    and "digits_value (num_str (Some (iban_index c))) = iban_index c"
    and "length (num_str (Some (iban_index c))) = (if is_dig c then 1 else 2)"
    and "0 \<le> iban_index c"
proof -
  have bounds: "0 \<le> iban_index c \<and> iban_index c < 100 \<and> (is_dig c \<longleftrightarrow> iban_index c < 10)"
    using assms by (auto simp: is_alnum_def iban_index_def is_dig_def is_upper_def in_range_def digit_value_def)
  then show "0 \<le> iban_index c" by simp
  show "length (num_str (Some (iban_index c))) = (if is_dig c then 1 else 2)"
    using bounds by (auto simp: num_str_def js_String_small)
  show "list_all is_dig (num_str (Some (iban_index c)))" "digits_value (num_str (Some (iban_index c))) = iban_index c"
    using bounds js_String_value by (auto simp: num_str_def)
qed

lemma iban_digits_dig: "list_all is_alnum s \<Longrightarrow> list_all is_dig (iban_digits lz s)"
  by (induction lz s rule: iban_digits.induct) (auto simp: Let_def iban_index_str(1))

lemma iban_digits_value:
  "list_all is_alnum s \<Longrightarrow> (lz \<longrightarrow> n = 0) \<Longrightarrow>
   foldl (\<lambda>n c. 10 * n + digit_value c) n (iban_digits lz s) = foldl (\<lambda>n c. (if is_dig c then 10 else 100) * n + iban_index c) n s"
proof (induction s arbitrary: lz n)
  case (Cons c s)
  let ?f = "\<lambda>n c. 10 * n + digit_value c"
  have fold: "foldl ?f n xs = n * 10 ^ length xs + digits_value xs" for n xs
    by (induction xs rule: rev_induct) (simp_all add: algebra_simps)
  have c: "is_alnum c" "list_all is_alnum s" using Cons.prems by simp_all
  show ?case
  proof (cases "lz \<and> c = CHR ''0''")
    case True
    then have "iban_index c = 0" "is_dig c" by (simp_all add: iban_index_def is_dig_def in_range_def digit_value_def)
    then show ?thesis using True Cons by simp
  next
    case False
    have "foldl ?f n (num_str (Some (iban_index c))) = (if is_dig c then 10 else 100) * n + iban_index c"
      unfolding fold using iban_index_str [OF c(1)] by simp
    then show ?thesis using Cons.IH [OF c(2), of False] unfolding iban_digits.simps Let_def foldl_append
      by (simp add: False)
  qed
qed simp

lemma iban_step_digit:
  assumes "is_dig c" "0 \<le> r"
  shows "iban_step (Some (Some r)) c = Some (Some ((10 * r + digit_value c) mod 97))"
proof -
  obtain a as where s: "js_String (nat r) @ [c] = a # as" by (cases "js_String (nat r) @ [c]") auto
  have "list_all is_dig (a # as)" "digits_value (a # as) = 10 * r + digit_value c"
    using js_String_value [of "nat r"] assms by (simp_all flip: s)
  moreover have "0 \<le> 10 * r + digit_value c" using assms digit_value_bounds by fastforce
  ultimately show ?thesis using assms(2) by (simp add: iban_step_def num_str_def s to_number_def Let_def)
qed

lemma iban_steps:
  "list_all is_dig ds \<Longrightarrow> ds \<noteq> [] \<Longrightarrow> foldl iban_step None ds = Some (Some (digits_value ds mod 97))"
proof (induction ds rule: rev_induct)
  case (snoc c ds)
  show ?case
  proof (cases "ds = []")
    case True
    then show ?thesis using snoc.prems digit_value_bounds [of c]
      by (simp add: iban_step_def to_number_def digits_value_def)
  next
    case False
    then have "foldl iban_step None ds = Some (Some (digits_value ds mod 97))" using snoc by simp
    moreover have "(10 * (x mod 97) + d) mod 97 = (10 * x + d) mod 97" for x d :: int
      by (metis mod_add_left_eq mod_mult_right_eq)
    ultimately show ?thesis using snoc.prems iban_step_digit [of c "digits_value ds mod 97"] by simp
  qed
qed simp

text \<open>C19. \<open>iban\<close> computes the remainder one digit at a time on strings of at most three digits; on an account
  number of letters and digits this decides that the number it stands for, with the first four characters moved to
  the end, is 1 modulo 97.\<close>

theorem iban_method_mod_97:
  assumes "list_all is_alnum iban" and "iban = toUpperCase (remove_chars (\<lambda>c. c = CHR '' '') value)"
  shows "iban_method False value =
    vbool (5 \<le> length iban \<and> iban_format iban \<and> iban_number (drop 4 iban @ take 4 iban) mod 97 = 1)"
proof -
  let ?ds = "iban_digits True (drop 4 iban @ take 4 iban)"
  have an: "list_all is_alnum (drop 4 iban @ take 4 iban)"
    using assms(1) by (auto simp: list_all_iff dest: in_set_takeD in_set_dropD)
  then have ds: "list_all is_dig ?ds" "digits_value ?ds = iban_number (drop 4 iban @ take 4 iban)"
    using iban_digits_dig iban_digits_value [OF an, of True 0] by (simp_all add: iban_number_def digits_value_def)
  have "foldl iban_step None ?ds =
      (if ?ds = [] then None else Some (Some (iban_number (drop 4 iban @ take 4 iban) mod 97)))"
    using iban_steps [OF ds(1)] ds(2) by simp
  moreover have "?ds = [] \<Longrightarrow> iban_number (drop 4 iban @ take 4 iban) = 0"
    using ds(2) by (metis digits_value_Nil)
  ultimately show ?thesis using assms(2)
    by (auto simp: iban_method_def Let_def vbool_def)
qed

theorem iban_method_mod_97_witness:
  "iban_method False ''GB82 WEST 1234 5698 7654 32'' = VTrue"
proof -
  let ?iban = "''GB82WEST12345698765432''"
  have an: "list_all is_alnum ?iban" by code_simp
  have eq: "?iban = toUpperCase (remove_chars (\<lambda>c. c = CHR '' '') ''GB82 WEST 1234 5698 7654 32'')" by code_simp
  have "5 \<le> length ?iban" "iban_format ?iban" "iban_number (drop 4 ?iban @ take 4 ?iban) mod 97 = 1" by code_simp+
  with iban_method_mod_97 [OF an eq] show ?thesis by simp
qed

section \<open>Dates\<close>

lemma days_in_month_pos: "1 \<le> days_in_month y m"
  by (simp add: days_in_month_def)

lemma carry_day_month:
  "1 \<le> m \<Longrightarrow> m \<le> 12 \<Longrightarrow> carry_day k y m d = (y', m', d') \<Longrightarrow>
   12 * y + m \<le> 12 * y' + m' \<and> 1 \<le> m' \<and> m' \<le> 12 \<and> (k \<noteq> 0 \<and> days_in_month y m < d \<longrightarrow> 12 * y + m < 12 * y' + m')"
proof (induction k y m d rule: carry_day.induct)
  case (2 k y m d)
  show ?case
  proof (cases "d > days_in_month y m")
    case True
    then show ?thesis using 2 by (cases "m = 12") fastforce+
  qed (use 2 in auto)
qed auto

lemma dateITA_check_iff:
  assumes "0 \<le> gg" "gg \<le> 99" "0 \<le> mm" "mm \<le> 99" "0 \<le> aaaa"
  shows "dateITA_check gg mm aaaa \<longleftrightarrow>
    100 \<le> aaaa \<and> 1 \<le> mm \<and> mm \<le> 12 \<and> 1 \<le> gg \<and> gg \<le> days_in_month aaaa mm"
proof -
  define yr y m where "yr = (if aaaa \<le> 99 then 1900 + aaaa else aaaa)"
    and "y = yr + (mm - 1) div 12" and "m = (mm - 1) mod 12 + 1"
  obtain y' m' d' where c: "carry_day 4 y m gg = (y', m', d')" by (cases "carry_day 4 y m gg") auto
  have m: "1 \<le> m" "m \<le> 12" by (simp_all add: m_def)
  have ym: "12 * y + m = 12 * yr + mm" unfolding y_def m_def by presburger
  have u: "utc_date aaaa (mm - 1) gg =
      (if gg < 1 then (if m = 1 then (y - 1, 12, 31 + gg) else (y, m - 1, days_in_month y (m - 1) + gg))
       else (y', m', d'))"
    using assms(5) by (simp add: utc_date_def yr_def y_def m_def c [unfolded y_def m_def yr_def] Let_def)
  note carry = carry_day_month [OF m c]
  show ?thesis
  proof (cases "gg < 1")
    case True
    then show ?thesis using assms days_in_month_pos [of y "m - 1"] unfolding dateITA_check_def u by auto
  next
    case False
    have noc: "gg \<le> days_in_month y m \<Longrightarrow> y' = y \<and> m' = m \<and> d' = gg" using c by (simp add: numeral_eq_Suc)
    show ?thesis
    proof (cases "gg \<le> days_in_month y m")
      case True
      with noc have "dateITA_check gg mm aaaa \<longleftrightarrow> y = aaaa \<and> m = mm"
        using False unfolding dateITA_check_def u by auto
      moreover have "y = aaaa \<and> m = mm \<longleftrightarrow> 100 \<le> aaaa \<and> 1 \<le> mm \<and> mm \<le> 12"
        using ym m assms yr_def by (auto split: if_splits) presburger
      ultimately show ?thesis using True False by auto
    next
      case over: False
      then have "12 * yr + mm < 12 * y' + m'" using carry ym by simp
      then have "\<not> dateITA_check gg mm aaaa"
        using False assms(5) unfolding dateITA_check_def u by (auto simp: yr_def split: if_splits)
      moreover have "100 \<le> aaaa \<Longrightarrow> 1 \<le> mm \<Longrightarrow> mm \<le> 12 \<Longrightarrow> y = aaaa \<and> m = mm"
        using ym m by (auto simp: yr_def) presburger
      ultimately show ?thesis using over by auto
    qed
  qed
qed

lemma split_on_none: "x \<notin> set s \<Longrightarrow> split_on x s = [s]"
  by (induction s) (auto simp: split_on_def)

lemma split_on_sep: "x \<notin> set s \<Longrightarrow> split_on x (s @ x # t) = s # split_on x t"
  by (induction s) (auto simp: split_on_def)

lemma digits_value_upper:
  "list_all is_dig s \<Longrightarrow> 0 \<le> digits_value s \<and> digits_value s < 10 ^ length s"
proof (induction s rule: rev_induct)
  case (snoc c s)
  then show ?case using digit_value_bounds [of c] by (auto simp: digits_value_def)
qed (simp add: digits_value_def)

lemma slash_not_dig: "list_all is_dig s \<Longrightarrow> CHR ''/'' \<notin> set s"
  by (auto simp: list_all_iff is_dig_def in_range_def)

text \<open>\<open>dateITA\<close> accepts a date of one or two digits for day and month and four for the year exactly when
  the calendar has that day, except that no year before 100 is accepted: \<open>Date.UTC\<close> takes those years as
  1900 to 1999.\<close>

theorem dateITA_calendar:
  assumes "list_all is_dig (gg @ mm @ aaaa)"
    and "length gg \<in> {1, 2}" and "length mm \<in> {1, 2}" and "length aaaa = 4"
  shows "dateITA False (gg @ ''/'' @ mm @ ''/'' @ aaaa) =
    vbool (100 \<le> digits_value aaaa \<and> digits_value mm \<in> {1..12}
      \<and> digits_value gg \<in> {1..days_in_month (digits_value aaaa) (digits_value mm)})"
proof -
  let ?v = "gg @ ''/'' @ mm @ ''/'' @ aaaa"
  have digs: "list_all is_dig gg" "list_all is_dig mm" "list_all is_dig aaaa" using assms(1) by simp_all
  have between: "gg \<in> lang (RBetween 1 2 RDigit)" "mm \<in> lang (RBetween 1 2 RDigit)" "aaaa \<in> lang (RRep 4 RDigit)"
    using assms(2-4) digs unfolding RDigit_def by (auto simp: lang_RBetween_cls lang_RRep_cls simp del: RRep.simps)
  have "?v \<in> lang dateITA_pattern"
    unfolding dateITA_pattern_def RSeqs.simps lang.simps lang_RChr mem_Collect_eq
    using between by (intro exI conjI) (rule refl | assumption | simp)+
  then have "rmatch dateITA_pattern ?v" by (simp only: rmatch_lang)
  moreover have "split_on (CHR ''/'') ?v = [gg, mm, aaaa]"
    using digs [THEN slash_not_dig] by (simp add: split_on_sep split_on_none)
  moreover have "0 \<le> digits_value gg" "digits_value gg \<le> 99" "0 \<le> digits_value mm" "digits_value mm \<le> 99" "0 \<le> digits_value aaaa"
    using digs [THEN digits_value_upper] assms(2,3) by auto
  ultimately show ?thesis
    by (simp add: dateITA_def optional_or_def dateITA_check_iff conj_ac)
qed

theorem dateITA_calendar_witness: "dateITA False ''29/2/2024'' = VTrue"
proof -
  have "list_all is_dig (''29'' @ ''2'' @ ''2024'')" by code_simp
  moreover have "digits_value ''2024'' = 2024" "digits_value ''2'' = 2" "digits_value ''29'' = 29" by code_simp+
  moreover have "days_in_month 2024 2 = 29" by code_simp
  ultimately show ?thesis using dateITA_calendar [of "''29''" "''2''" "''2024''"] by simp
qed

section \<open>Unexpected inputs\<close>

lemma upper_dig: "is_dig c \<Longrightarrow> upper_char c = c"
  by (simp add: is_dig_def in_range_def upper_char_def)

lemma map_upper_digits: "list_all is_dig s \<Longrightarrow> map upper_char s = s"
  by (simp add: list_all_iff upper_dig map_idI)

text \<open>A foreigner number that starts with \<open>M\<close> has no check: its number is \<open>NaN\<close>, and \<open>charAt(NaN)\<close> is the first letter.\<close>

lemma nieES_M_unchecked:
  assumes "list_all is_dig ds" and "length ds = 7"
  shows "nieES False (''M'' @ ds @ ''T'') = VTrue"
proof -
  have up: "toUpperCase (''M'' @ ds @ ''T'') = ''M'' @ ds @ ''T''"
    using assms(1) by (simp add: toUpperCase_def map_upper_digits upper_char_def in_range_def)
  have "''M'' @ ds @ ''T'' \<in> lang (RSeqs [RSet ''MXYZ'', RBetween 7 8 RDigit, RSet nie_letters])"
    using assms unfolding RSeqs.simps lang.simps(4) RSet_def RDigit_def mem_Collect_eq
    by (intro exI [of _ "''M''"] exI [of _ "ds @ ''T''"] exI [of _ ds] exI [of _ "''T''"] conjI refl)
      (auto simp: lang_RBetween_cls nie_letters_def)
  then have "rmatch (RSeqs [RSet ''MXYZ'', RBetween 7 8 RDigit, RSet nie_letters]) (''M'' @ ds @ ''T'')"
    by (simp only: rmatch_lang)
  moreover have "parseInt10 (CHR ''M'' # ds) = None"
    by (simp add: parseInt10_def is_dig_def in_range_def is_space_def)
  ultimately show ?thesis using assms(2) up
    by (simp add: nieES_def Let_def charAt_num_def nie_letters_def)
qed

lemma nis_loop_NaN: "cs \<noteq> [] \<Longrightarrow> nis_loop cs None s = None"
proof (induction cs arbitrary: s)
  case (Cons c cs)
  then show ?case by (cases cs) (simp_all add: Let_def)
qed simp

text \<open>\<open>nisBR\<close> accepts ten letters before a 0: the sum is \<open>NaN\<close> and the digit falls back to 0.\<close>

lemma nisBR_letters_accepted:
  assumes "list_all is_lower w" and "length w = 10"
  shows "nisBR (w @ ''0'') = VTrue"
proof -
  have keep: "is_lower c \<Longrightarrow> \<not> br_special c \<and> \<not> is_space c \<and> \<not> is_dig c" for c
    by (auto simp: is_lower_def in_range_def br_special_def is_space_def is_dig_def)
  have "remove_chars br_special (w @ ''0'') = w @ ''0''"
    using assms(1) keep by (simp add: remove_chars_def list_all_iff br_special_def)
  moreover have "parseInt10 w = None"
    using assms keep by (cases w) (auto simp: parseInt10_def)
  moreover have "nis_loop [2..<12] None (Some 0) = None" by (rule nis_loop_NaN) simp
  ultimately show ?thesis using assms(2)
    by (simp add: nisBR_def parse_at_def nth_append parse_char_def is_dig_def in_range_def digit_value_def)
qed

text \<open>\<open>ziprange\<close> escapes the braces of a repetition, so that it wants the characters \<open>{2}\<close>: no ZIP code passes.\<close>

lemma ziprange_rejects_zip_codes:
  assumes "list_all (\<lambda>c. is_dig c \<or> c = CHR ''-'') value"
  shows "ziprange False value = VFalse"
proof -
  have "CHR ''{'' \<in> set s" if "s \<in> lang (RSeqs [RStr ''90'', RRange (CHR ''2'') (CHR ''5''), RDigit, RStr ''{2}'', dash, RRep 4 RDigit])" for s
    using that unfolding RSeqs.simps lang.simps(4) lang_RStr by auto
  moreover have "CHR ''{'' \<notin> set value" using assms by (auto simp: list_all_iff is_dig_def in_range_def)
  ultimately show ?thesis by (auto simp: ziprange_def optional_or_def rmatch_lang simp del: RSeqs.simps)
qed

lemma word_count_none: "word_count b s = 0 \<longleftrightarrow> (if b then True else \<not> list_ex is_word s) \<and> (b \<longrightarrow> \<not> list_ex is_word (dropWhile is_word s))"
  by (induction b s rule: word_count.induct) auto

text \<open>A value without a word makes the word counters throw.\<close>

lemma maxWords_throws_iff:
  "maxWords False value n = VThrow \<longleftrightarrow> \<not> list_ex is_word (stripHtml value)"
  using word_count_none [of False "stripHtml value"]
  by (simp add: maxWords_def words_method_def Let_def vbool_def)

text \<open>The alternatives of these patterns are anchored on one side only.\<close>

lemma bankaccountNL_ten_digits: "bankaccountNL False ''1234567881'' = VTrue"
  by code_simp

lemma netmask_not_anchored: "netmask False ''999255.255.255.0xyz'' = VTrue"
  by code_simp

end
