(* ===== verification/JQuery_Base.thy ===== *)
theory JQuery_Base
  imports Validator_Base Complex_Main
begin

text \<open>
  JavaScript values and objects as the vendored libraries use them, and the parts of \<open>jquery.js\<close> the validation
  plugin rests on: \<open>jQuery.extend\<close>, \<open>jQuery.param\<close>, the class methods and \<open>camelCase\<close>. Objects are association lists in
  insertion order (property names are not integers and not names of \<open>Object.prototype\<close>); a function is a number that
  an environment interprets, an element of a form is its index; a number is a rational or \<open>NaN\<close> (\<open>None\<close>).
\<close>

section \<open>Objects\<close>

type_synonym 'v obj = "(string \<times> 'v) list"

abbreviation obj_keys :: "'v obj \<Rightarrow> string list" where "obj_keys \<equiv> map fst"

definition obj_get :: "'v obj \<Rightarrow> string \<Rightarrow> 'v option" where
  "obj_get ob k = map_of ob k"

fun obj_set :: "string \<Rightarrow> 'v \<Rightarrow> 'v obj \<Rightarrow> 'v obj" where
  "obj_set k v [] = [(k, v)]"
| "obj_set k v ((l, w) # ob) = (if l = k then (k, v) # ob else (l, w) # obj_set k v ob)"

definition obj_del :: "string \<Rightarrow> 'v obj \<Rightarrow> 'v obj" where
  "obj_del k ob = filter (\<lambda>p. fst p \<noteq> k) ob"

lemma obj_get_set: "obj_get (obj_set k v ob) l = (if l = k then Some v else obj_get ob l)"
  by (induction ob) (auto simp: obj_get_def)

lemma obj_get_del: "obj_get (obj_del k ob) l = (if l = k then None else obj_get ob l)"
  by (induction ob) (auto simp: obj_get_def obj_del_def)

lemma keys_obj_set: "obj_keys (obj_set k v ob) = (if k \<in> set (obj_keys ob) then obj_keys ob else obj_keys ob @ [k])"
  by (induction k v ob rule: obj_set.induct) simp_all

lemma set_keys_obj_set: "set (obj_keys (obj_set k v ob)) = insert k (set (obj_keys ob))"
  unfolding keys_obj_set by auto

lemma distinct_obj_set: "distinct (obj_keys ob) \<Longrightarrow> distinct (obj_keys (obj_set k v ob))"
  unfolding keys_obj_set by auto

lemma set_keys_obj_del: "set (obj_keys (obj_del k ob)) = set (obj_keys ob) - {k}"
  by (auto simp: obj_del_def)

lemma distinct_obj_del: "distinct (obj_keys ob) \<Longrightarrow> distinct (obj_keys (obj_del k ob))"
  by (induction ob) (auto simp: obj_del_def)

lemma obj_get_None: "obj_get ob k = None \<longleftrightarrow> k \<notin> set (obj_keys ob)"
  by (simp add: obj_get_def map_of_eq_None_iff)

lemmas obj_laws = obj_get_set obj_get_del set_keys_obj_set distinct_obj_set set_keys_obj_del distinct_obj_del

section \<open>Values\<close>

datatype pval =
    PUndef
  | PNull
  | PBool bool
  | PNum "rat option"
  | PStr string
  | PArr "pval list"
  | PObj "(string \<times> pval) list"
  | PFun nat
  | PElem nat

definition ptruthy :: "pval \<Rightarrow> bool" where
  "ptruthy v =
     (case v of PUndef \<Rightarrow> False | PNull \<Rightarrow> False | PBool b \<Rightarrow> b | PNum q \<Rightarrow> q \<noteq> None \<and> q \<noteq> Some 0
      | PStr s \<Rightarrow> s \<noteq> [] | _ \<Rightarrow> True)"

definition is_null :: "pval \<Rightarrow> bool" where
  "is_null v \<longleftrightarrow> v = PUndef \<or> v = PNull"

definition pget :: "pval obj \<Rightarrow> string \<Rightarrow> pval" where
  "pget ob k = (case obj_get ob k of Some v \<Rightarrow> v | None \<Rightarrow> PUndef)"

text \<open>\<open>Number(s)\<close> of a decimal literal with optional sign, fraction and exponent; \<open>NaN\<close> for other strings (hexadecimal
  literals and \<open>Infinity\<close> are outside the model).\<close>

definition js_trim :: "string \<Rightarrow> string" where
  "js_trim s = rev (dropWhile is_space (rev (dropWhile is_space s)))"

definition sign_split :: "string \<Rightarrow> int \<times> string" where
  "sign_split s =
     (case s of c # t \<Rightarrow> if c = CHR ''-'' then (-1, t) else if c = CHR ''+'' then (1, t) else (1, s) | [] \<Rightarrow> (1, s))"

definition exponent :: "string \<Rightarrow> int option" where
  "exponent s =
     (case s of
        [] \<Rightarrow> Some 0
      | c # t \<Rightarrow>
          (case sign_split t of (sg, ds) \<Rightarrow>
             if c \<in> {CHR ''e'', CHR ''E''} \<and> ds \<noteq> [] \<and> list_all is_dig ds then Some (sg * digits_value ds) else None))"

definition parse_decimal :: "string \<Rightarrow> rat option" where
  "parse_decimal s =
     (case sign_split s of (sg, t) \<Rightarrow>
       let a = takeWhile is_dig t; u = dropWhile is_dig t;
           (b, w) = (case u of c # u' \<Rightarrow> if c = CHR ''.'' then (takeWhile is_dig u', dropWhile is_dig u') else ([], u) | [] \<Rightarrow> ([], []))
       in if a = [] \<and> b = [] then None
          else map_option (\<lambda>e. of_int (sg * digits_value (a @ b)) / 10 ^ length b
                 * (if 0 \<le> e then 10 ^ nat e else 1 / 10 ^ nat (- e))) (exponent w))"

definition str_num :: "string \<Rightarrow> rat option" where
  "str_num s = (let t = js_trim s in if t = [] then Some 0 else parse_decimal t)"

text \<open>\<open>String(n)\<close>: the integer part and the decimals of the fraction (numbers below \<open>10\<^sup>2\<^sup>1\<close> with at most twenty
  decimals).\<close>

fun frac_digits :: "nat \<Rightarrow> rat \<Rightarrow> string" where
  "frac_digits 0 r = []"
| "frac_digits (Suc n) r =
     (if r = 0 then [] else let d = \<lfloor>10 * r\<rfloor> in digit_char (nat d) # frac_digits n (10 * r - of_int d))"

definition rat_string :: "rat \<Rightarrow> string" where
  "rat_string q =
     (let a = \<bar>q\<bar>; n = \<lfloor>a\<rfloor>; f = frac_digits 20 (a - of_int n)
      in (if q < 0 then ''-'' else []) @ js_String (nat n) @ (if f = [] then [] else CHR ''.'' # f))"

fun join :: "string \<Rightarrow> string list \<Rightarrow> string" where
  "join sep [] = []"
| "join sep [s] = s"
| "join sep (s # t # ss) = s @ sep @ join sep (t # ss)"

text \<open>\<open>s.split(/[...]/)\<close> for a class of single characters.\<close>

fun split_by :: "(char \<Rightarrow> bool) \<Rightarrow> string \<Rightarrow> string list" where
  "split_by P [] = [[]]"
| "split_by P (c # s) =
     (if P c then [] # split_by P s
      else (case split_by P s of w # ws \<Rightarrow> (c # w) # ws | [] \<Rightarrow> [[c]]))"

lemma split_by_none: "list_all (\<lambda>c. \<not> P c) s \<Longrightarrow> split_by P s = [s]"
  by (induction s) auto

lemma split_by_sep: "list_all (\<lambda>c. \<not> P c) s \<Longrightarrow> P x \<Longrightarrow> split_by P (s @ x # t) = s # split_by P t"
  by (induction s) auto

lemma split_by_join:
  "ts \<noteq> [] \<Longrightarrow> \<forall>t\<in>set ts. list_all (\<lambda>c. \<not> P c) t \<Longrightarrow> P x \<Longrightarrow> split_by P (join [x] ts) = ts"
  by (induction "[x]" ts rule: join.induct) (auto simp: split_by_none split_by_sep)

text \<open>\<open>String(v)\<close>; the text of a function or an element is not used by the code.\<close>

fun pstring :: "pval \<Rightarrow> string" where
  "pstring PUndef = ''undefined''"
| "pstring PNull = ''null''"
| "pstring (PBool b) = (if b then ''true'' else ''false'')"
| "pstring (PNum q) = (case q of None \<Rightarrow> ''NaN'' | Some r \<Rightarrow> rat_string r)"
| "pstring (PStr s) = s"
| "pstring (PArr xs) = join '','' (map (\<lambda>x. if x = PUndef \<or> x = PNull then [] else pstring x) xs)"
| "pstring (PObj ob) = ''[object Object]''"
| "pstring (PFun f) = ''function''"
| "pstring (PElem n) = ''[object HTMLElement]''"

text \<open>\<open>Number(v)\<close>.\<close>

definition pnum :: "pval \<Rightarrow> rat option" where
  "pnum v =
     (case v of PUndef \<Rightarrow> None | PNull \<Rightarrow> Some 0 | PBool b \<Rightarrow> Some (if b then 1 else 0) | PNum q \<Rightarrow> q
      | PStr s \<Rightarrow> str_num s | PArr xs \<Rightarrow> str_num (pstring v) | PObj ob \<Rightarrow> None | PFun f \<Rightarrow> None | PElem n \<Rightarrow> None)"

text \<open>\<open>a <= b\<close>: strings are compared as strings when both sides are (arrays become strings first), else as numbers.\<close>

definition to_primitive :: "pval \<Rightarrow> pval" where
  "to_primitive v = (case v of PArr xs \<Rightarrow> PStr (pstring v) | PObj ob \<Rightarrow> PStr (pstring v) | PElem n \<Rightarrow> PStr (pstring v) | _ \<Rightarrow> v)"

fun str_le :: "string \<Rightarrow> string \<Rightarrow> bool" where
  "str_le [] t = True"
| "str_le (c # s) [] = False"
| "str_le (c # s) (d # t) = (if c = d then str_le s t else (of_char c :: nat) < of_char d)"

definition js_le :: "pval \<Rightarrow> pval \<Rightarrow> bool" where
  "js_le a b =
     (case (to_primitive a, to_primitive b) of
        (PStr s, PStr t) \<Rightarrow> str_le s t
      | (x, y) \<Rightarrow> (case (pnum x, pnum y) of (Some p, Some q) \<Rightarrow> p \<le> q | _ \<Rightarrow> False))"

section \<open>jQuery.extend\<close>

text \<open>The shallow form copies every property but undefined ones and \<open>__proto__\<close>. The guard against a property that is the
  target itself has no counterpart, since objects are values here.\<close>

definition extend_one :: "pval obj \<Rightarrow> pval obj \<Rightarrow> pval obj" where
  "extend_one target options =
     foldl (\<lambda>t (name, copy). if name = ''__proto__'' \<or> copy = PUndef then t else obj_set name copy t) target options"

definition jq_extend :: "pval obj \<Rightarrow> pval obj list \<Rightarrow> pval obj" where
  "jq_extend target sources = foldl extend_one target sources"

text \<open>The deep form clones nested objects and arrays, merging them with what the target has under the name.\<close>

function extend_deep :: "pval obj \<Rightarrow> pval obj \<Rightarrow> pval obj"
  and extend_elems :: "pval list \<Rightarrow> pval list \<Rightarrow> pval list"
  and extend_value :: "pval \<Rightarrow> pval \<Rightarrow> pval" where
  "extend_deep target [] = target"
| "extend_deep target ((name, copy) # options) =
     extend_deep
       (if name = ''__proto__'' \<or> copy = PUndef then target
        else obj_set name (extend_value (pget target name) copy) target) options"
| "extend_elems target [] = target"
| "extend_elems target (copy # options) =
     (case target of
        [] \<Rightarrow> extend_value PUndef copy # extend_elems [] options
      | src # rest \<Rightarrow> (if copy = PUndef then src else extend_value src copy) # extend_elems rest options)"
| "extend_value src (PArr xs) = PArr (extend_elems (case src of PArr ys \<Rightarrow> ys | _ \<Rightarrow> []) xs)"
| "extend_value src (PObj ob) = PObj (extend_deep (case src of PObj p \<Rightarrow> p | _ \<Rightarrow> []) ob)"
| "extend_value src PUndef = PUndef"
| "extend_value src PNull = PNull"
| "extend_value src (PBool b) = PBool b"
| "extend_value src (PNum q) = PNum q"
| "extend_value src (PStr s) = PStr s"
| "extend_value src (PFun f) = PFun f"
| "extend_value src (PElem n) = PElem n"
  by pat_completeness auto
termination
  by (relation "measure (\<lambda>x. case x of Inl (t, ob) \<Rightarrow> size_list (size_prod (\<lambda>x. 0) size) ob
        | Inr (Inl (t, xs)) \<Rightarrow> size_list size xs | Inr (Inr (s, v)) \<Rightarrow> size v)") auto

lemma extend_one_get:
  assumes "distinct (obj_keys options)" "name \<noteq> ''__proto__''"
  shows "obj_get (extend_one target options) name =
    (case obj_get options name of Some copy \<Rightarrow> if copy = PUndef then obj_get target name else Some copy
     | None \<Rightarrow> obj_get target name)"
  using assms(1)
proof (induction options arbitrary: target)
  case (Cons p options)
  have none: "obj_get options (fst p) = None" using Cons.prems by (simp add: obj_get_None)
  show ?case using Cons none assms(2)
    by (cases p) (auto simp: extend_one_def obj_get_def obj_get_set [unfolded obj_get_def] split: option.splits)
qed (simp add: extend_one_def obj_get_def)

lemma extend_one_distinct: "distinct (obj_keys target) \<Longrightarrow> distinct (obj_keys (extend_one target options))"
  by (induction options arbitrary: target) (auto simp: extend_one_def distinct_obj_set split: prod.splits)

lemma jq_extend_distinct: "distinct (obj_keys target) \<Longrightarrow> distinct (obj_keys (jq_extend target sources))"
  by (induction sources arbitrary: target) (auto simp: jq_extend_def extend_one_distinct)

end
