(* ===== verification/JQuery_Classes.thy ===== *)
theory JQuery_Classes
  imports JQuery_Base
begin

text \<open>
  The class methods of \<open>jquery.js\<close>, which search and edit the class attribute as a string padded with spaces, and that
  they implement a list of class names without repetition of what was added.
\<close>

section \<open>Tokens\<close>

definition html_white :: "char \<Rightarrow> bool" where
  "html_white c \<longleftrightarrow> (of_char c :: nat) \<in> {0x20, 9, 13, 10, 12}"

text \<open>\<open>value.match(rnothtmlwhite) || []\<close>.\<close>

function tokens :: "string \<Rightarrow> string list" where
  "tokens [] = []"
| "tokens (c # s) =
     (if html_white c then tokens s
      else (c # takeWhile (\<lambda>d. \<not> html_white d) s) # tokens (dropWhile (\<lambda>d. \<not> html_white d) s))"
  by pat_completeness auto
termination
  by (relation "measure length") (auto simp: le_imp_less_Suc length_dropWhile_le)

definition stripAndCollapse :: "string \<Rightarrow> string" where
  "stripAndCollapse value = join '' '' (tokens value)"

text \<open>The argument of the class methods: a string or an array of names, anything else being no names. A class
  attribute that is missing reads as the empty string.\<close>

datatype class_arg = ClassString string | ClassList "string list" | ClassOther

fun classesToArray :: "class_arg \<Rightarrow> string list" where
  "classesToArray (ClassList xs) = xs"
| "classesToArray (ClassString s) = tokens s"
| "classesToArray ClassOther = []"

definition getClass :: "string option \<Rightarrow> string" where
  "getClass attr = (case attr of Some s \<Rightarrow> s | None \<Rightarrow> [])"

section \<open>Search and replace in strings\<close>

fun has_prefix :: "string \<Rightarrow> string \<Rightarrow> bool" where
  "has_prefix [] s = True"
| "has_prefix (p # ps) [] = False"
| "has_prefix (p # ps) (c # s) = (p = c \<and> has_prefix ps s)"

fun contains :: "string \<Rightarrow> string \<Rightarrow> bool" where
  "contains p [] = (p = [])"
| "contains p (c # s) = (has_prefix p (c # s) \<or> contains p s)"

fun replace_first :: "string \<Rightarrow> string \<Rightarrow> string \<Rightarrow> string" where
  "replace_first p r [] = (if p = [] then r else [])"
| "replace_first p r (c # s) =
     (if has_prefix p (c # s) then r @ drop (length p) (c # s) else c # replace_first p r s)"

lemma has_prefix_iff: "has_prefix p s \<longleftrightarrow> (\<exists>q. s = p @ q)"
  by (induction p s rule: has_prefix.induct) auto

lemma contains_iff: "contains p s \<longleftrightarrow> (\<exists>a b. s = a @ p @ b)"
proof (induction p s rule: contains.induct)
  case (2 p c s)
  show ?case
  proof
    assume "contains p (c # s)"
    then show "\<exists>a b. c # s = a @ p @ b"
      using 2 has_prefix_iff [of p "c # s"] by (metis append_Cons append_Nil contains.simps(2))
  next
    assume "\<exists>a b. c # s = a @ p @ b"
    then obtain a b where ab: "c # s = a @ p @ b" by blast
    show "contains p (c # s)"
    proof (cases a)
      case Nil
      then have "has_prefix p (c # s)" using ab by (auto simp: has_prefix_iff)
      then show ?thesis by simp
    next
      case (Cons d a')
      then show ?thesis using 2 ab by auto
    qed
  qed
qed auto

lemma replace_first_split:
  "contains p s \<Longrightarrow> \<exists>a b. s = a @ p @ b \<and> replace_first p r s = a @ r @ b"
proof (induction p r s rule: replace_first.induct)
  case (2 p r c s)
  show ?case
  proof (cases "has_prefix p (c # s)")
    case True
    then obtain q where q: "c # s = p @ q" by (auto simp: has_prefix_iff)
    have "replace_first p r (c # s) = r @ drop (length p) (c # s)" using True by (simp only: replace_first.simps if_True)
    then have "replace_first p r (c # s) = r @ q" by (simp only: q) simp
    then show ?thesis using q by (intro exI [of _ "[]"] exI [of _ q]) simp
  next
    case False
    with 2 obtain a b where "s = a @ p @ b" "replace_first p r s = a @ r @ b" by auto
    then show ?thesis using False by (intro exI [of _ "c # a"] exI [of _ b]) simp
  qed
qed simp

section \<open>The class methods\<close>

definition pad :: "string \<Rightarrow> string" where
  "pad c = '' '' @ c @ '' ''"

definition hasClass :: "string option \<Rightarrow> string \<Rightarrow> bool" where
  "hasClass attr selector \<longleftrightarrow> contains (pad selector) (pad (stripAndCollapse (getClass attr)))"

text \<open>The attribute is only written when its text changes; \<open>None\<close> stays \<open>None\<close> then.\<close>

definition set_class :: "string option \<Rightarrow> string \<Rightarrow> string option" where
  "set_class attr finalValue = (if getClass attr \<noteq> finalValue then Some finalValue else attr)"

definition addClass :: "string option \<Rightarrow> class_arg \<Rightarrow> string option" where
  "addClass attr value =
     (let classNames = classesToArray value
      in if classNames = [] then attr
         else
           let cur = foldl (\<lambda>cur className. if \<not> contains (pad className) cur then cur @ className @ '' '' else cur)
                 (pad (stripAndCollapse (getClass attr))) classNames
           in set_class attr (stripAndCollapse cur))"

lemma replace_first_shorter: "contains (pad c) s \<Longrightarrow> length (replace_first (pad c) '' '' s) < length s"
  using replace_first_split [of "pad c" s "'' ''"] by (auto simp: pad_def)

function remove_all :: "string \<Rightarrow> string \<Rightarrow> string" where
  "remove_all className cur =
     (if contains (pad className) cur then remove_all className (replace_first (pad className) '' '' cur) else cur)"
  by pat_completeness auto
termination
  by (relation "measure (length \<circ> snd)") (auto simp: replace_first_shorter)

declare remove_all.simps [simp del]

text \<open>\<open>None\<close> is the call without an argument.\<close>

definition removeClass :: "string option \<Rightarrow> class_arg option \<Rightarrow> string option" where
  "removeClass attr arg =
     (case arg of
        None \<Rightarrow> Some []
      | Some value \<Rightarrow>
          let classNames = classesToArray value
          in if classNames = [] then attr
             else
               let cur = foldl (\<lambda>cur className. remove_all className cur) (pad (stripAndCollapse (getClass attr))) classNames
               in set_class attr (stripAndCollapse cur))"

text \<open>\<open>toggleClass\<close> with names: each is removed when present and added otherwise, or added or removed as \<open>stateVal\<close> says.\<close>

definition toggleClass :: "string option \<Rightarrow> class_arg \<Rightarrow> bool option \<Rightarrow> string option" where
  "toggleClass attr value stateVal =
     (case stateVal of
        Some b \<Rightarrow> if b then addClass attr value else removeClass attr (Some value)
      | None \<Rightarrow>
          foldl (\<lambda>a className.
            if hasClass a className then removeClass a (Some (ClassString className)) else addClass a (ClassString className))
          attr (classesToArray value))"

section \<open>The methods on tokens\<close>

definition token :: "string \<Rightarrow> bool" where
  "token c \<longleftrightarrow> c \<noteq> [] \<and> list_all (\<lambda>d. \<not> html_white d) c"

abbreviation class_names :: "string option \<Rightarrow> string list" where
  "class_names attr \<equiv> tokens (getClass attr)"

lemma tokens_token: "c \<in> set (tokens s) \<Longrightarrow> token c"
proof (induction s rule: tokens.induct)
  case (2 d s)
  have "token (d # takeWhile (\<lambda>d. \<not> html_white d) s)" if "\<not> html_white d"
    using that by (auto simp: token_def list_all_iff dest: set_takeWhileD)
  then show ?case using 2 by (cases "html_white d") auto
qed simp

lemma no_white:
  "(\<forall>d\<in>set s. \<not> html_white d) \<Longrightarrow> takeWhile (\<lambda>d. \<not> html_white d) s = s \<and> dropWhile (\<lambda>d. \<not> html_white d) s = []"
  by (simp add: takeWhile_eq_all_conv dropWhile_eq_Nil_conv)

lemma tokens_white: "html_white w \<Longrightarrow> tokens (p @ w # q) = tokens p @ tokens q"
proof (induction p rule: tokens.induct)
  case (2 c s)
  show ?case
  proof (cases "html_white c \<or> (\<exists>d\<in>set s. html_white d)")
    case True
    then show ?thesis using 2
      by (auto simp: takeWhile_append dropWhile_append)
  next
    case False
    then have "takeWhile (\<lambda>d. \<not> html_white d) (s @ w # q) = s" "dropWhile (\<lambda>d. \<not> html_white d) (s @ w # q) = w # q"
      using 2(3) by (simp_all add: takeWhile_append dropWhile_append)
    moreover have "takeWhile (\<lambda>d. \<not> html_white d) s = s" "dropWhile (\<lambda>d. \<not> html_white d) s = []"
      using False no_white by auto
    ultimately show ?thesis using False 2(3) by (simp only: append_Cons tokens.simps) simp
  qed
qed simp

lemma tokens_single: "token c \<Longrightarrow> tokens c = [c]"
proof (cases c)
  case (Cons d s)
  assume "token c"
  then have c: "\<not> html_white d" "\<forall>d\<in>set s. \<not> html_white d" using Cons by (simp_all add: token_def list_all_iff)
  show ?thesis unfolding Cons tokens.simps no_white [OF c(2), THEN conjunct1] no_white [OF c(2), THEN conjunct2]
    using c(1) by simp
qed (simp add: token_def)

lemma white_space [simp]: "html_white (CHR '' '')"
  by (simp add: html_white_def)

lemma tokens_join: "list_all token ts \<Longrightarrow> tokens (join '' '' ts) = ts"
  by (induction "'' ''" ts rule: join.induct) (auto simp: tokens_single tokens_white)

lemma tokens_stripAndCollapse [simp]: "tokens (stripAndCollapse s) = tokens s"
  unfolding stripAndCollapse_def by (rule tokens_join) (simp add: list_all_iff tokens_token)

lemma tokens_pad [simp]: "tokens (pad s) = tokens s"
  using tokens_white [of "CHR '' ''" "[]" "s @ '' ''"] tokens_white [of "CHR '' ''" s "[]"] by (simp add: pad_def)

lemma tokens_split_at:
  "c \<in> set (tokens s) \<Longrightarrow> \<exists>p q. s = p @ c @ q \<and> (p = [] \<or> html_white (last p)) \<and> (q = [] \<or> html_white (hd q))"
proof (induction s rule: tokens.induct)
  case (2 d s)
  show ?case
  proof (cases "html_white d")
    case True
    with 2 obtain p q where "s = p @ c @ q" "p = [] \<or> html_white (last p)" "q = [] \<or> html_white (hd q)" by auto
    then show ?thesis using True by (intro exI [of _ "d # p"] exI [of _ q]) auto
  next
    case False
    let ?t = "takeWhile (\<lambda>d. \<not> html_white d) s" and ?r = "dropWhile (\<lambda>d. \<not> html_white d) s"
    have r: "?r = [] \<or> html_white (hd ?r)" using hd_dropWhile [of "\<lambda>d. \<not> html_white d" s] by blast
    show ?thesis
    proof (cases "c = d # ?t")
      case True
      then show ?thesis using r by (intro exI [of _ "[]"] exI [of _ ?r]) simp
    next
      case other: False
      then have "c \<in> set (tokens ?r)" using 2(3) False by simp
      then obtain p q where pq: "?r = p @ c @ q" "p = [] \<or> html_white (last p)" "q = [] \<or> html_white (hd q)"
        using 2(2) False by blast
      have "token c" by (rule tokens_token) fact
      with pq(1) r have "p \<noteq> []" by (cases c) (auto simp: token_def)
      moreover have "d # s = (d # ?t @ p) @ c @ q"
        using pq(1) takeWhile_dropWhile_id [of "\<lambda>d. \<not> html_white d" s] by simp
      ultimately show ?thesis using pq by (intro exI [of _ "d # ?t @ p"] exI [of _ q]) simp
    qed
  qed
qed simp

text \<open>A string in which every white-space character is a space, with a space at either end.\<close>

definition spaced :: "string \<Rightarrow> bool" where
  "spaced s \<longleftrightarrow> (\<forall>c\<in>set s. html_white c \<longrightarrow> c = CHR '' '') \<and> s \<noteq> [] \<and> hd s = CHR '' '' \<and> last s = CHR '' ''"

lemma set_join: "set (join sep ts) \<subseteq> (\<Union>t\<in>set ts. set t) \<union> set sep"
  by (induction sep ts rule: join.induct) auto

lemma spaced_pad: "spaced (pad (stripAndCollapse s))"
proof -
  have "c = CHR '' ''" if "c \<in> set (stripAndCollapse s)" "html_white c" for c
    using that set_join [of "'' ''" "tokens s"] tokens_token [of _ s]
    by (auto simp: stripAndCollapse_def token_def list_all_iff)
  then show ?thesis by (auto simp: spaced_def pad_def)
qed

lemma contains_token:
  assumes "spaced s" "token c"
  shows "contains (pad c) s \<longleftrightarrow> c \<in> set (tokens s)"
proof
  assume "contains (pad c) s"
  then obtain a b where "s = a @ CHR '' '' # c @ CHR '' '' # b" by (auto simp: contains_iff pad_def)
  then show "c \<in> set (tokens s)" using assms(2) by (simp add: tokens_white tokens_single)
next
  assume "c \<in> set (tokens s)"
  then obtain p q where s: "s = p @ c @ q" and p: "p = [] \<or> html_white (last p)" and q: "q = [] \<or> html_white (hd q)"
    using tokens_split_at by blast
  have nw: "\<not> html_white (hd c)" "\<not> html_white (last c)" "c \<noteq> []" using assms(2) by (auto simp: token_def list_all_iff)
  have ends: "hd s = CHR '' ''" "last s = CHR '' ''" using assms(1) by (auto simp: spaced_def)
  have "p \<noteq> []"
  proof
    assume "p = []"
    then have "hd s = hd c" using s nw(3) by simp
    with ends nw(1) show False by simp
  qed
  moreover have "q \<noteq> []"
  proof
    assume "q = []"
    then have "last s = last c" using s nw(3) by simp
    with ends nw(2) show False by simp
  qed
  ultimately obtain p' w where pw: "p = p' @ [w]" "html_white w" using p by (cases p rule: rev_cases) auto
  moreover obtain x q' where xq: "q = x # q'" "html_white x" using q \<open>q \<noteq> []\<close> by (cases q) auto
  ultimately have "w = CHR '' ''" "x = CHR '' ''" using assms(1) s by (auto simp: spaced_def)
  then show "contains (pad c) s" unfolding contains_iff s pw xq pad_def by (intro exI [of _ p'] exI [of _ q']) simp
qed

text \<open>Appending and removing a token keep the string spaced.\<close>

lemma spaced_append: "spaced s \<Longrightarrow> token c \<Longrightarrow> spaced (s @ c @ '' '')"
  by (auto simp: spaced_def token_def list_all_iff)

lemma spaced_split: "spaced (a @ pad c @ b) \<Longrightarrow> spaced (a @ '' '' @ b)"
  by (cases "a = []"; cases "b = []") (auto simp: spaced_def pad_def)

lemma tokens_append_class: "spaced s \<Longrightarrow> token c \<Longrightarrow> tokens (s @ c @ '' '') = tokens s @ [c]"
proof -
  assume "spaced s" and c: "token c"
  then have "s = butlast s @ '' ''" unfolding spaced_def by (metis append_butlast_last_id)
  then obtain t where t: "s = t @ '' ''" by blast
  have "tokens (s @ c @ '' '') = tokens t @ tokens c" using t c by (simp add: tokens_white)
  moreover have "tokens s = tokens t" by (simp add: t tokens_white)
  ultimately show ?thesis using c by (simp add: tokens_single)
qed

lemma remove_all_tokens:
  "spaced cur \<Longrightarrow> token c \<Longrightarrow>
   spaced (remove_all c cur) \<and> tokens (remove_all c cur) = filter (\<lambda>t. t \<noteq> c) (tokens cur)"
proof (induction c cur rule: remove_all.induct)
  case (1 c cur)
  show ?case
  proof (cases "contains (pad c) cur")
    case True
    obtain a b where ab: "cur = a @ pad c @ b" "replace_first (pad c) '' '' cur = a @ '' '' @ b"
      using replace_first_split [OF True] by blast
    have "spaced (a @ '' '' @ b)" using 1(2) ab(1) spaced_split by blast
    moreover have "filter (\<lambda>t. t \<noteq> c) (tokens (a @ '' '' @ b)) = filter (\<lambda>t. t \<noteq> c) (tokens cur)"
      using 1(3) by (simp add: ab(1) pad_def tokens_white tokens_single)
    ultimately show ?thesis using 1(1) [OF True] 1(3) True ab(2) by (simp add: remove_all.simps [of c cur])
  next
    case False
    then have "c \<notin> set (tokens cur)" using 1 contains_token by blast
    then have "filter (\<lambda>t. t \<noteq> c) (tokens cur) = tokens cur" by (auto simp: filter_id_conv)
    then show ?thesis using False 1(2) by (simp add: remove_all.simps [of c cur])
  qed
qed

definition add_name :: "string list \<Rightarrow> string \<Rightarrow> string list" where
  "add_name ts c = (if c \<in> set ts then ts else ts @ [c])"

lemma set_class_names [simp]: "class_names (set_class attr (stripAndCollapse s)) = tokens s"
  by (auto simp: set_class_def getClass_def)

lemma add_loop:
  "list_all token cs \<Longrightarrow> spaced cur \<Longrightarrow>
   tokens (foldl (\<lambda>cur c. if \<not> contains (pad c) cur then cur @ c @ '' '' else cur) cur cs) = foldl add_name (tokens cur) cs"
  by (induction cs arbitrary: cur)
    (auto simp: add_name_def contains_token spaced_append [simplified] tokens_append_class [simplified])

lemma remove_loop:
  "list_all token cs \<Longrightarrow> spaced cur \<Longrightarrow>
   tokens (foldl (\<lambda>cur c. remove_all c cur) cur cs) = filter (\<lambda>t. t \<notin> set cs) (tokens cur)"
  by (induction cs arbitrary: cur) (auto simp: remove_all_tokens conj_commute)

lemma classes_token: "list_all token (tokens s)"
  by (simp add: list_all_iff tokens_token)

lemma class_names_addClass: "class_names (addClass attr (ClassString s)) = foldl add_name (class_names attr) (tokens s)"
  by (simp add: addClass_def Let_def add_loop classes_token spaced_pad)

lemma class_names_removeClass:
  "class_names (removeClass attr (Some (ClassString s))) = filter (\<lambda>t. t \<notin> set (tokens s)) (class_names attr)"
  by (simp add: removeClass_def Let_def remove_loop classes_token spaced_pad)

lemma hasClass_iff: "token c \<Longrightarrow> hasClass attr c \<longleftrightarrow> c \<in> set (class_names attr)"
  by (simp add: hasClass_def contains_token spaced_pad)

section \<open>Exchanging two classes\<close>

text \<open>What clients rely on: single names are added, removed and found. Marking and unmarking an element exchange two
  names.\<close>

locale class_set =
  fixes names :: "'e \<Rightarrow> string list" and add :: "'e \<Rightarrow> string \<Rightarrow> 'e" and remove :: "'e \<Rightarrow> string \<Rightarrow> 'e"
  assumes add: "token c \<Longrightarrow> names (add e c) = add_name (names e) c"
    and remove: "token c \<Longrightarrow> names (remove e c) = filter (\<lambda>t. t \<noteq> c) (names e)"
begin

lemma exchange:
  assumes "token c" "token d" "c \<noteq> d"
  shows "c \<in> set (names (remove (add e c) d))" "d \<notin> set (names (remove (add e c) d))"
  using assms by (auto simp: add remove add_name_def)

lemma exchange_other:
  assumes "token c" "token d" "t \<noteq> c" "t \<noteq> d"
  shows "t \<in> set (names (remove (add e c) d)) \<longleftrightarrow> t \<in> set (names e)"
  using assms by (auto simp: add remove add_name_def)

lemma exchange_twice:
  assumes "token c" "token d" "c \<noteq> d"
  shows "names (remove (add (remove (add e c) d) c) d) = names (remove (add e c) d)"
  using assms by (auto simp: add remove add_name_def)

end

interpretation cls: class_set class_names "\<lambda>attr c. addClass attr (ClassString c)" "\<lambda>attr c. removeClass attr (Some (ClassString c))"
  by unfold_locales (simp_all add: class_names_addClass class_names_removeClass tokens_single)

text \<open>C27. The class methods search and edit one string, yet they act on the list of names in it: \<open>addClass\<close> appends the
  names that are not there, in order, \<open>removeClass\<close> takes out every occurrence of its names and nothing else, and
  \<open>hasClass\<close> finds exactly the names in the list, never a part of a longer name.\<close>

theorem class_methods_on_names:
  assumes "token c"
  shows "class_names (addClass attr (ClassString s)) = foldl add_name (class_names attr) (tokens s)
    \<and> class_names (removeClass attr (Some (ClassString s))) = filter (\<lambda>t. t \<notin> set (tokens s)) (class_names attr)
    \<and> (hasClass attr c \<longleftrightarrow> c \<in> set (class_names attr))"
  using assms by (simp add: class_names_addClass class_names_removeClass hasClass_iff)

theorem class_methods_on_names_witness:
  "class_names (removeClass (Some ''btn btn-lg  btn'') (Some (ClassString ''btn''))) = [''btn-lg'']"
proof -
  have c: "token ''btn''" by code_simp
  have "filter (\<lambda>t. t \<notin> set (tokens ''btn'')) (class_names (Some ''btn btn-lg  btn'')) = [''btn-lg'']" by code_simp
  with class_methods_on_names [OF c, of "Some ''btn btn-lg  btn''" "''btn''"] show ?thesis by simp
qed

end
