(* ===== verification/JQuery_Param.thy ===== *)
theory JQuery_Param
  imports JQuery_Base
begin

text \<open>
  \<open>jQuery.param\<close>: the query string of an object, with nested arrays and objects under bracketed names, and that the
  string determines the names and values it was made of. The argument is an array of fields or an object.
\<close>

section \<open>The definitions\<close>

text \<open>\<open>encodeURIComponent\<close> on code units below 256: unreserved characters stand for themselves, others for the bytes of
  their UTF-8 encoding.\<close>

definition unreserved :: "char \<Rightarrow> bool" where
  "unreserved c \<longleftrightarrow> is_dig c \<or> is_upper c \<or> is_lower c \<or> c \<in> set (''-_.!~*()'' @ [CHR 0x27])"

definition pct_digit :: "nat \<Rightarrow> char" where
  "pct_digit n = ''0123456789ABCDEF'' ! (n mod 16)"

definition pct :: "nat \<Rightarrow> string" where
  "pct n = [CHR ''%'', pct_digit (n div 16), pct_digit (n mod 16)]"

definition encode_char :: "char \<Rightarrow> string" where
  "encode_char c =
     (let n = of_char c
      in if unreserved c then [c]
         else if n < 128 then pct n else pct (0xC0 + n div 64) @ pct (0x80 + n mod 64))"

definition encodeURIComponent :: "string \<Rightarrow> string" where
  "encodeURIComponent s = concat (map encode_char s)"

text \<open>\<open>buildParams\<close> calls \<open>add\<close> for every scalar; here it returns the list of calls. Functions among the values are
  called by \<open>call\<close>.\<close>

definition ends_with_brackets :: "string \<Rightarrow> bool" where
  "ends_with_brackets s \<longleftrightarrow> rmatch_suffix (RStr ''[]'') s"

text \<open>Elements of the page are not serialised: their case keeps the function total.\<close>

function buildParams :: "string \<Rightarrow> pval \<Rightarrow> bool \<Rightarrow> (string \<times> pval) list"
  and build_items :: "string \<Rightarrow> nat \<Rightarrow> pval list \<Rightarrow> bool \<Rightarrow> (string \<times> pval) list"
  and build_props :: "string \<Rightarrow> (string \<times> pval) list \<Rightarrow> bool \<Rightarrow> (string \<times> pval) list" where
  "buildParams prefix (PArr xs) traditional = build_items prefix 0 xs traditional"
| "buildParams prefix (PObj ob) traditional =
     (if traditional then [(prefix, PObj ob)] else build_props prefix ob traditional)"
| "buildParams prefix PUndef traditional = [(prefix, PUndef)]"
| "buildParams prefix PNull traditional = [(prefix, PNull)]"
| "buildParams prefix (PBool b) traditional = [(prefix, PBool b)]"
| "buildParams prefix (PNum q) traditional = [(prefix, PNum q)]"
| "buildParams prefix (PStr s) traditional = [(prefix, PStr s)]"
| "buildParams prefix (PFun f) traditional = [(prefix, PFun f)]"
| "buildParams prefix (PElem n) traditional = [(prefix, PElem n)]"
| "build_items prefix i [] traditional = []"
| "build_items prefix i (v # vs) traditional =
     (if traditional \<or> ends_with_brackets prefix then [(prefix, v)]
      else buildParams
        (prefix @ ''['' @ (case v of PArr _ \<Rightarrow> js_String i | PObj _ \<Rightarrow> js_String i | _ \<Rightarrow> []) @ '']'') v traditional)
     @ build_items prefix (i + 1) vs traditional"
| "build_props prefix [] traditional = []"
| "build_props prefix ((name, v) # ps) traditional =
     buildParams (prefix @ ''['' @ name @ '']'') v traditional @ build_props prefix ps traditional"
  by pat_completeness auto
termination
  by (relation "measure (\<lambda>x. case x of Inl (p, v, t) \<Rightarrow> size v
        | Inr (Inl (p, i, vs, t)) \<Rightarrow> size_list size vs
        | Inr (Inr (p, ps, t)) \<Rightarrow> size_list (size_prod (\<lambda>x. 0) size) ps)") auto

definition add_value :: "(nat \<Rightarrow> pval) \<Rightarrow> pval \<Rightarrow> string" where
  "add_value call v =
     (let value = (case v of PFun f \<Rightarrow> call f | _ \<Rightarrow> v) in if is_null value then [] else pstring value)"

definition add_pair :: "(nat \<Rightarrow> pval) \<Rightarrow> string \<times> pval \<Rightarrow> string" where
  "add_pair call p = encodeURIComponent (fst p) @ ''='' @ encodeURIComponent (add_value call (snd p))"

text \<open>The calls of \<open>add\<close> for the argument of \<open>param\<close>: an array is one of form fields with \<open>name\<close> and \<open>value\<close>.\<close>

definition param_pairs :: "pval \<Rightarrow> bool \<Rightarrow> (string \<times> pval) list" where
  "param_pairs a traditional =
     (case a of
        PArr xs \<Rightarrow> map (\<lambda>x. case x of PObj ob \<Rightarrow> (pstring (pget ob ''name''), pget ob ''value'')
                          | _ \<Rightarrow> (''undefined'', PUndef)) xs
      | PObj ob \<Rightarrow> concat (map (\<lambda>(prefix, v). buildParams prefix v traditional) ob)
      | _ \<Rightarrow> [])"

definition jq_param :: "(nat \<Rightarrow> pval) \<Rightarrow> pval \<Rightarrow> bool \<Rightarrow> string" where
  "jq_param call a traditional = (if is_null a then [] else join ''&'' (map (add_pair call) (param_pairs a traditional)))"

section \<open>Decoding\<close>

definition pct_value :: "char \<Rightarrow> nat" where
  "pct_value c = (if is_dig c then of_char c - 48 else of_char c - 55)"

text \<open>The characters a query component stands for: the inverse of the encoding.\<close>

fun decode :: "string \<Rightarrow> string" where
  "decode (p # a # b # s) =
     (if p \<noteq> CHR ''%'' then p # decode (a # b # s)
      else let n = 16 * pct_value a + pct_value b
           in if n < 128 then char_of n # decode s
              else (case s of
                      p' # a' # b' # s' \<Rightarrow> char_of (64 * (n - 0xC0) + (16 * pct_value a' + pct_value b' - 0x80)) # decode s'
                    | _ \<Rightarrow> []))"
| "decode s = s"

lemma pct_value_digit: "n < 16 \<Longrightarrow> pct_value (pct_digit n) = n"
proof -
  assume "n < 16"
  then have "n \<in> set [0..<16]" by simp
  then show ?thesis by (auto simp: upt_rec pct_value_def pct_digit_def is_dig_def in_range_def)
qed

lemma decode_plain: "c \<noteq> CHR ''%'' \<Longrightarrow> decode (c # s) = c # decode s"
  by (cases s rule: decode.cases) auto

lemma decode_pct1: "n < 128 \<Longrightarrow> decode (pct n @ s) = char_of n # decode s"
  using pct_value_digit [of "n div 16"] pct_value_digit [of "n mod 16"] by (simp add: pct_def)

lemma decode_pct2:
  "m < 4 \<Longrightarrow> k < 64 \<Longrightarrow> decode (pct (0xC0 + m) @ pct (0x80 + k) @ s) = char_of (64 * m + k) # decode s"
proof -
  assume m: "m < 4" and k: "k < 64"
  have "m = 0 \<or> m = 1 \<or> m = 2 \<or> m = 3" using m by linarith
  then have "(0xC0 + m) div 16 = 12" "(0xC0 + m) mod 16 = m" by auto
  then have "pct_value (pct_digit ((0xC0 + m) div 16)) = 12" "pct_value (pct_digit ((0xC0 + m) mod 16)) = m"
    using m pct_value_digit [of 12] pct_value_digit [of m] by simp_all
  moreover have "16 * pct_value (pct_digit ((0x80 + k) div 16)) + pct_value (pct_digit ((0x80 + k) mod 16)) = 0x80 + k"
    using k pct_value_digit [of "(0x80 + k) div 16"] pct_value_digit [of "(0x80 + k) mod 16"] by auto
  ultimately show ?thesis by (simp add: pct_def)
qed

lemma decode_char: "decode (encode_char c @ s) = c # decode s"
proof -
  have n: "of_char c < (256::nat)" by simp
  consider "unreserved c" | "\<not> unreserved c" "of_char c < (128::nat)" | "\<not> unreserved c" "\<not> of_char c < (128::nat)" by blast
  then show ?thesis
  proof cases
    case 1
    moreover have "\<not> unreserved (CHR ''%'')" by code_simp
    ultimately have "c \<noteq> CHR ''%''" by blast
    then show ?thesis using 1 by (simp add: encode_char_def decode_plain)
  next
    case 2
    then show ?thesis by (simp add: encode_char_def decode_pct1)
  next
    case 3
    have "of_char c div 64 < (4::nat)" using n by (simp only: div_less_iff_less_mult zero_less_numeral)
    then have "decode (encode_char c @ s) = char_of (64 * (of_char c div 64) + of_char c mod (64::nat)) # decode s"
      using 3 decode_pct2 [of "of_char c div 64" "of_char c mod 64" s] by (simp add: encode_char_def Let_def)
    then show ?thesis by simp
  qed
qed

lemma decode_encode: "decode (encodeURIComponent s) = s"
  by (induction s) (simp_all add: encodeURIComponent_def decode_char)

lemma encode_chars: "c \<in> set (encodeURIComponent s) \<Longrightarrow> c \<noteq> CHR ''&'' \<and> c \<noteq> CHR ''=''"
proof -
  have hex: "pct_digit n \<notin> {CHR ''&'', CHR ''=''}" for n
  proof -
    have "n mod 16 \<in> set [0..<16]" by simp
    then show ?thesis by (auto simp: upt_rec pct_digit_def)
  qed
  have "d \<noteq> CHR ''&'' \<and> d \<noteq> CHR ''=''" if "d \<in> set (encode_char c)" for c d
    using that hex by (auto simp: encode_char_def pct_def unreserved_def is_dig_def is_upper_def is_lower_def in_range_def
        Let_def split: if_splits)
  then show "c \<in> set (encodeURIComponent s) \<Longrightarrow> ?thesis" by (auto simp: encodeURIComponent_def)
qed

section \<open>The query string\<close>

text \<open>How a server reads a query string.\<close>

definition parse_pair :: "string \<Rightarrow> string \<times> string" where
  "parse_pair p = (decode (takeWhile (\<lambda>c. c \<noteq> CHR ''='') p), decode (drop 1 (dropWhile (\<lambda>c. c \<noteq> CHR ''='') p)))"

definition parse_query :: "string \<Rightarrow> (string \<times> string) list" where
  "parse_query s = (if s = [] then [] else map parse_pair (split_by (\<lambda>c. c = CHR ''&'') s))"

lemma parse_add_pair: "parse_pair (add_pair call p) = (fst p, add_value call (snd p))"
proof -
  let ?k = "encodeURIComponent (fst p)" and ?v = "encodeURIComponent (add_value call (snd p))"
  have "\<And>c. c \<in> set ?k \<Longrightarrow> c \<noteq> CHR ''=''" using encode_chars by blast
  then have "takeWhile (\<lambda>c. c \<noteq> CHR ''='') (?k @ CHR ''='' # ?v) = ?k"
    "dropWhile (\<lambda>c. c \<noteq> CHR ''='') (?k @ CHR ''='' # ?v) = CHR ''='' # ?v"
    by (simp_all add: takeWhile_append2 dropWhile_append2)
  then show ?thesis by (simp add: add_pair_def parse_pair_def decode_encode)
qed

lemma add_pair_no_amp: "list_all (\<lambda>c. c \<noteq> CHR ''&'') (add_pair call p)" "add_pair call p \<noteq> []"
  using encode_chars by (auto simp: add_pair_def list_all_iff)

lemma join_Nil: "join sep ts = [] \<longleftrightarrow> ts = [] \<or> ts = [[]] \<or> (sep = [] \<and> (\<forall>t\<in>set ts. t = []))"
  by (induction sep ts rule: join.induct) auto

text \<open>C20. \<open>jQuery.param\<close> loses nothing: reading the query string back gives every name and value that \<open>buildParams\<close> added, in
  order, whatever characters (below 256) they contain.\<close>

theorem param_round_trip:
  "parse_query (jq_param call a traditional) = map (\<lambda>p. (fst p, add_value call (snd p))) (param_pairs a traditional)"
proof (cases "is_null a \<or> param_pairs a traditional = []")
  case True
  then show ?thesis by (auto simp: jq_param_def parse_query_def is_null_def param_pairs_def)
next
  case False
  let ?ps = "map (add_pair call) (param_pairs a traditional)"
  have "split_by (\<lambda>c. c = CHR ''&'') (join ''&'' ?ps) = ?ps"
    using False add_pair_no_amp(1) by (intro split_by_join) (auto simp: list_all_iff)
  moreover have "join ''&'' ?ps \<noteq> []"
    using False add_pair_no_amp(2) by (auto simp: join_Nil)
  ultimately show ?thesis using False by (simp add: jq_param_def parse_query_def parse_add_pair o_def)
qed

end
