(* ===== verification/Validator_Rules.thy ===== *)
theory Validator_Rules
  imports JQuery_Classes JQuery_Param Validators_Format
begin

text \<open>
  The elements of a form and their validation rules, from \<open>jquery.validate.js\<close>: where rules come from (classes,
  attributes, data attributes, settings), how they are normalised, and how messages are formatted. An environment
  \<open>venv\<close> interprets the functions and selectors that a page's author puts into rules.
\<close>

section \<open>Elements, settings and the environment\<close>

text \<open>A form element as the plugin reads it: DOM properties, attributes, jQuery data, the state of the control, and
  whether it matches the selectors of \<open>elements()\<close>: \<open>e_field\<close> (an input, select, textarea, contenteditable or custom
  element), \<open>e_excluded\<close> (\<open>:submit, :reset, :image, :disabled\<close>), \<open>e_ignored\<close> (\<open>settings.ignore\<close>), \<open>e_ours\<close> (its form is
  the validator's). \<open>e_labels\<close> are the \<open>for\<close> attributes of the labels around the place where its error goes.\<close>

record felem =
  e_id :: string
  e_name :: string
  e_type :: string
  e_node :: string
  e_title :: string
  e_string :: string
  e_attrs :: "string obj"
  e_class :: "string option"
  e_data :: "pval obj"
  e_val :: pval
  e_text :: string
  e_checked :: bool
  e_badInput :: "bool option"
  e_selected :: nat
  e_field :: bool
  e_excluded :: bool
  e_ignored :: bool
  e_ours :: bool
  e_labels :: "string list"

text \<open>Functions of the page's author, by number: rule parameters and dependencies (called with the element), normalizers,
  messages, validation methods; and the selectors of rules. \<open>new Date\<close> is implementation-defined on most strings.\<close>

record venv =
  call_rule :: "nat \<Rightarrow> nat \<Rightarrow> pval"
  call_norm :: "nat \<Rightarrow> pval \<Rightarrow> pval"
  call_msg :: "nat \<Rightarrow> pval \<Rightarrow> nat \<Rightarrow> string"
  call_method :: "nat \<Rightarrow> pval \<Rightarrow> felem \<Rightarrow> pval \<Rightarrow> vresult"
  call_data :: "nat \<Rightarrow> pval"
  sel_found :: "string \<Rightarrow> bool"
  sel_target :: "string \<Rightarrow> nat list"
  date_ok :: "string \<Rightarrow> bool"

text \<open>A message is a string, a call \<open>$.validator.format(source)\<close> that waits for parameters, or a function. The messages
  of a field are one string for all methods or an object by method.\<close>

datatype msg = MStr string | MFormat string | MFun nat

datatype msgs = MsgAll string | MsgBy "(string \<times> msg option) list"

text \<open>\<open>$.validator\<close>: the methods (built in, or added with their arity and number), messages and class rules.\<close>

datatype vmethod = VBuiltin | VCustom nat nat

record vglobal =
  g_methods :: "vmethod obj"
  g_messages :: "msg option obj"
  g_classRules :: "pval obj"
  g_autoRanges :: bool

section \<open>Messages\<close>

fun replace_all_fuel :: "nat \<Rightarrow> string \<Rightarrow> string \<Rightarrow> string \<Rightarrow> string" where
  "replace_all_fuel 0 p r s = s"
| "replace_all_fuel (Suc n) p r [] = []"
| "replace_all_fuel (Suc n) p r (c # s) =
     (if has_prefix p (c # s) then r @ replace_all_fuel n p r (drop (length p) (c # s))
      else c # replace_all_fuel n p r s)"

text \<open>\<open>source.replace(new RegExp("\{i\}", "g"), ...)\<close>; the length of the string bounds the number of steps.\<close>

definition replace_all :: "string \<Rightarrow> string \<Rightarrow> string \<Rightarrow> string" where
  "replace_all p r s = replace_all_fuel (length s) p r s"

definition format_list :: "string \<Rightarrow> pval list \<Rightarrow> string" where
  "format_list source params =
     foldl (\<lambda>s (i, n). replace_all (''{'' @ js_String i @ ''}'') (pstring n) s) source (zip [0..<length params] params)"

text \<open>\<open>$.validator.format(source, params)\<close>, with further arguments \<open>rest\<close>; reading the constructor of null throws.\<close>

definition format :: "string \<Rightarrow> pval \<Rightarrow> pval list \<Rightarrow> string option" where
  "format source params rest =
     (case params of
        PUndef \<Rightarrow> Some source
      | PNull \<Rightarrow> None
      | PArr xs \<Rightarrow> Some (format_list source xs)
      | p \<Rightarrow> Some (format_list source (if rest = [] then [p] else p # rest)))"

definition default_messages :: "msg option obj" where
  "default_messages =
     [(''required'', Some (MStr ''This field is required.'')),
      (''remote'', Some (MStr ''Please fix this field.'')),
      (''email'', Some (MStr ''Please enter a valid email address.'')),
      (''url'', Some (MStr ''Please enter a valid URL.'')),
      (''date'', Some (MStr ''Please enter a valid date.'')),
      (''dateISO'', Some (MStr ''Please enter a valid date (ISO).'')),
      (''number'', Some (MStr ''Please enter a valid number.'')),
      (''digits'', Some (MStr ''Please enter only digits.'')),
      (''equalTo'', Some (MStr ''Please enter the same value again.'')),
      (''maxlength'', Some (MFormat ''Please enter no more than {0} characters.'')),
      (''minlength'', Some (MFormat ''Please enter at least {0} characters.'')),
      (''rangelength'', Some (MFormat ''Please enter a value between {0} and {1} characters long.'')),
      (''range'', Some (MFormat ''Please enter a value between {0} and {1}.'')),
      (''max'', Some (MFormat ''Please enter a value less than or equal to {0}.'')),
      (''min'', Some (MFormat ''Please enter a value greater than or equal to {0}.'')),
      (''step'', Some (MFormat ''Please enter a multiple of {0}.''))]"

section \<open>Where rules come from\<close>

text \<open>\<open>"required email"\<close> stands for an object with these properties true.\<close>

definition normalizeRule :: "pval \<Rightarrow> pval" where
  "normalizeRule data =
     (case data of PStr s \<Rightarrow> PObj (foldl (\<lambda>t m. obj_set m (PBool True) t) [] (split_by is_space s)) | _ \<Rightarrow> data)"

definition class_rule_settings :: "pval obj" where
  "class_rule_settings =
     map (\<lambda>m. (m, PObj [(m, PBool True)]))
       [''required'', ''email'', ''url'', ''date'', ''dateISO'', ''number'', ''digits'', ''creditcard'']"

definition addClassRules :: "string \<Rightarrow> pval \<Rightarrow> vglobal \<Rightarrow> vglobal" where
  "addClassRules className rules g = g\<lparr>g_classRules := obj_set className rules (g_classRules g)\<rparr>"

definition addMethod :: "string \<Rightarrow> nat \<times> nat \<Rightarrow> msg option \<Rightarrow> vglobal \<Rightarrow> vglobal" where
  "addMethod name method message g =
     (let old = (case obj_get (g_messages g) name of Some m \<Rightarrow> m | None \<Rightarrow> None);
          g' = g\<lparr>g_methods := obj_set name (VCustom (fst method) (snd method)) (g_methods g),
                 g_messages := obj_set name (if message \<noteq> None then message else old) (g_messages g)\<rparr>
      in if fst method < 3 then addClassRules name (normalizeRule (PStr name)) g' else g')"

definition obj_of :: "pval \<Rightarrow> pval obj" where
  "obj_of v = (case v of PObj ob \<Rightarrow> ob | _ \<Rightarrow> [])"

definition classRules :: "vglobal \<Rightarrow> felem \<Rightarrow> pval obj" where
  "classRules g el =
     (if getClass (e_class el) \<noteq> [] then
        foldl (\<lambda>rules c. case obj_get (g_classRules g) c of Some r \<Rightarrow> jq_extend rules [obj_of r] | None \<Rightarrow> rules)
          [] (split_by (\<lambda>c. c = CHR '' '') (getClass (e_class el)))
      else [])"

definition limit_method :: "string \<Rightarrow> bool" where
  "limit_method m \<longleftrightarrow> contains ''min'' m \<or> contains ''max'' m \<or> contains ''step'' m"

definition numeric_type :: "string option \<Rightarrow> bool" where
  "numeric_type type =
     (case type of None \<Rightarrow> True | Some t \<Rightarrow> contains ''number'' t \<or> contains ''range'' t \<or> contains ''text'' t)"

definition normalizeAttributeRule :: "pval obj \<Rightarrow> string option \<Rightarrow> string \<Rightarrow> pval \<Rightarrow> pval obj" where
  "normalizeAttributeRule rules type method value =
     (let value' = (if limit_method method \<and> numeric_type type
                    then (case pnum value of None \<Rightarrow> PUndef | Some q \<Rightarrow> PNum (Some q)) else value)
      in if ptruthy value' \<or> value' = PNum (Some 0) then obj_set method value' rules
         else if type = Some method \<and> type \<noteq> Some ''range''
         then obj_set (if type = Some ''date'' then ''dateISO'' else method) (PBool True) rules
         else rules)"

definition attr_value :: "felem \<Rightarrow> string \<Rightarrow> pval" where
  "attr_value el k = (case obj_get (e_attrs el) k of Some s \<Rightarrow> PStr s | None \<Rightarrow> PUndef)"

definition browser_maxlength :: "pval \<Rightarrow> bool" where
  "browser_maxlength v \<longleftrightarrow>
     ptruthy v \<and> (contains ''-1'' (pstring v) \<or> contains ''2147483647'' (pstring v) \<or> contains ''524288'' (pstring v))"

definition attributeRules :: "vglobal \<Rightarrow> felem \<Rightarrow> pval obj" where
  "attributeRules g el =
     (let type = obj_get (e_attrs el) ''type'';
          rules = foldl (\<lambda>rules method.
            normalizeAttributeRule rules type method
              (if method = ''required'' then PBool (obj_get (e_attrs el) ''required'' \<noteq> None) else attr_value el method))
            [] (obj_keys (g_methods g))
      in if browser_maxlength (pget rules ''maxlength'') then obj_del ''maxlength'' rules else rules)"

text \<open>\<open>prefix + method.charAt(0).toUpperCase() + method.substring(1).toLowerCase()\<close>.\<close>

definition data_key :: "string \<Rightarrow> string \<Rightarrow> string" where
  "data_key prefix method = prefix @ toUpperCase (take 1 method) @ toLowerCase (drop 1 method)"

definition dataRules :: "vglobal \<Rightarrow> felem \<Rightarrow> pval obj" where
  "dataRules g el =
     foldl (\<lambda>rules method.
       let value = pget (e_data el) (data_key ''rule'' method)
       in normalizeAttributeRule rules (obj_get (e_attrs el) ''type'') method (if value = PStr [] then PBool True else value))
     [] (obj_keys (g_methods g))"

definition staticRules :: "pval obj \<Rightarrow> felem \<Rightarrow> pval obj" where
  "staticRules settings_rules el = obj_of (normalizeRule (pget settings_rules (e_name el)))"

section \<open>Normalising rules\<close>

definition keep_rule :: "venv \<Rightarrow> nat \<Rightarrow> pval \<Rightarrow> bool" where
  "keep_rule env i depends =
     (case depends of PStr s \<Rightarrow> sel_found env s | PFun f \<Rightarrow> ptruthy (call_rule env f i) | _ \<Rightarrow> True)"

text \<open>The dependency check: false rules are dropped, rules with \<open>param\<close> or \<open>depends\<close> are replaced by their parameter or
  dropped. The first component says whether a dependency dropped a rule, which resets the element's classes; reading a
  property of null throws.\<close>

fun depend_rules :: "venv \<Rightarrow> nat \<Rightarrow> pval obj \<Rightarrow> bool \<times> pval obj option" where
  "depend_rules env i [] = (False, Some [])"
| "depend_rules env i ((prop, val) # rules) =
     (if is_null val then (False, None)
      else case depend_rules env i rules of (dropped, rest) \<Rightarrow>
        if val = PBool False then (dropped, rest)
        else (case val of
            PObj ob \<Rightarrow>
              if ptruthy (pget ob ''param'') \<or> ptruthy (pget ob ''depends'') then
                if keep_rule env i (pget ob ''depends'')
                then (dropped, map_option (Cons (prop, if pget ob ''param'' = PUndef then PBool True else pget ob ''param'')) rest)
                else (True, rest)
              else (dropped, map_option (Cons (prop, val)) rest)
          | _ \<Rightarrow> (dropped, map_option (Cons (prop, val)) rest)))"

definition eval_params :: "venv \<Rightarrow> nat \<Rightarrow> pval obj \<Rightarrow> pval obj" where
  "eval_params env i rules =
     map (\<lambda>(rule, p). (rule, case p of PFun f \<Rightarrow> if rule = ''normalizer'' then p else call_rule env f i | _ \<Rightarrow> p)) rules"

definition clean_number :: "string \<Rightarrow> pval obj \<Rightarrow> pval obj" where
  "clean_number k rules = (if ptruthy (pget rules k) then obj_set k (PNum (pnum (pget rules k))) rules else rules)"

fun split_runs :: "(char \<Rightarrow> bool) \<Rightarrow> string \<Rightarrow> string list" where
  "split_runs P [] = [[]]"
| "split_runs P (c # s) =
     (case split_runs P s of
        w # ws \<Rightarrow>
          if P c then (if w = [] \<and> s \<noteq> [] \<and> P (hd s) then w # ws else [] # w # ws)
          else (c # w) # ws
      | [] \<Rightarrow> [])"

definition nth_or :: "pval list \<Rightarrow> nat \<Rightarrow> pval" where
  "nth_or xs i = (if i < length xs then xs ! i else PUndef)"

definition clean_range :: "string \<Rightarrow> pval obj \<Rightarrow> pval obj" where
  "clean_range k rules =
     (case pget rules k of
        PArr xs \<Rightarrow> obj_set k (PArr [PNum (pnum (nth_or xs 0)), PNum (pnum (nth_or xs 1))]) rules
      | PStr s \<Rightarrow>
          if s = [] then rules
          else (let parts = map PStr (split_runs (\<lambda>c. is_space c \<or> c = CHR '','') (remove_chars (\<lambda>c. c = CHR ''['' \<or> c = CHR '']'') s))
                in obj_set k (PArr [PNum (pnum (nth_or parts 0)), PNum (pnum (nth_or parts 1))]) rules)
      | _ \<Rightarrow> rules)"

definition auto_range :: "string \<Rightarrow> string \<Rightarrow> string \<Rightarrow> pval obj \<Rightarrow> pval obj" where
  "auto_range lo hi rng rules =
     (if \<not> is_null (pget rules lo) \<and> \<not> is_null (pget rules hi)
      then obj_del hi (obj_del lo (obj_set rng (PArr [pget rules lo, pget rules hi]) rules)) else rules)"

definition normalizeRules :: "vglobal \<Rightarrow> venv \<Rightarrow> nat \<Rightarrow> pval obj \<Rightarrow> bool \<times> pval obj option" where
  "normalizeRules g env i rules =
     (case depend_rules env i rules of (dropped, r) \<Rightarrow>
       (dropped, map_option (\<lambda>rules.
          let cleaned = clean_range ''range'' (clean_range ''rangelength''
                (clean_number ''maxlength'' (clean_number ''minlength'' (eval_params env i rules))))
          in if g_autoRanges g
             then auto_range ''minlength'' ''maxlength'' ''rangelength'' (auto_range ''min'' ''max'' ''range'' cleaned)
             else cleaned) r))"

definition required_first :: "pval obj \<Rightarrow> pval obj" where
  "required_first data =
     (if ptruthy (pget data ''required'')
      then jq_extend [(''required'', pget data ''required'')] [obj_del ''required'' data] else data)"

definition remote_last :: "pval obj \<Rightarrow> pval obj" where
  "remote_last data =
     (if ptruthy (pget data ''remote'')
      then jq_extend (obj_del ''remote'' data) [[(''remote'', pget data ''remote'')]] else data)"

text \<open>\<open>$(element).rules()\<close> without a command: the rules, and whether a dependency was dropped on the way.\<close>

definition rules :: "vglobal \<Rightarrow> venv \<Rightarrow> pval obj \<Rightarrow> nat \<Rightarrow> felem \<Rightarrow> bool \<times> pval obj option" where
  "rules g env settings_rules i el =
     (case normalizeRules g env i
         (jq_extend [] [classRules g el, attributeRules g el, dataRules g el, staticRules settings_rules el]) of
        (dropped, data) \<Rightarrow> (dropped, map_option (\<lambda>d. remote_last (required_first d)) data))"

text \<open>\<open>$(element).rules("add", argument)\<close> and \<open>rules("remove", argument)\<close> on the settings.\<close>

definition to_msgs :: "pval \<Rightarrow> (string \<times> msg option) list" where
  "to_msgs v = map (\<lambda>(k, x). (k, case x of PStr s \<Rightarrow> Some (MStr s) | PFun f \<Rightarrow> Some (MFun f) | _ \<Rightarrow> Some (MStr (pstring x)))) (obj_of v)"

definition merge_msgs :: "msgs option \<Rightarrow> (string \<times> msg option) list \<Rightarrow> msgs" where
  "merge_msgs old new =
     MsgBy (foldl (\<lambda>t (k, m). obj_set k m t) (case old of Some (MsgBy ms) \<Rightarrow> ms | _ \<Rightarrow> []) new)"

definition rules_add :: "pval \<Rightarrow> felem \<Rightarrow> pval obj \<Rightarrow> msgs obj \<Rightarrow> pval obj \<times> msgs obj" where
  "rules_add argument el settings_rules messages =
     (let existing = obj_del ''messages'' (jq_extend (staticRules settings_rules el) [obj_of (normalizeRule argument)]);
          m = pget (obj_of argument) ''messages''
      in (obj_set (e_name el) (PObj existing) settings_rules,
          if ptruthy m then obj_set (e_name el) (merge_msgs (obj_get messages (e_name el)) (to_msgs m)) messages else messages))"

text \<open>Without an argument the rules of the field are deleted and returned; with one, the named rules are, from the
  object in the settings itself.\<close>

definition rules_remove :: "string option \<Rightarrow> felem \<Rightarrow> pval obj \<Rightarrow> pval obj \<times> pval obj" where
  "rules_remove argument el settings_rules =
     (let existing = staticRules settings_rules el
      in case argument of
           None \<Rightarrow> (obj_del (e_name el) settings_rules, existing)
         | Some [] \<Rightarrow> (obj_del (e_name el) settings_rules, existing)
         | Some a \<Rightarrow>
             let (filtered, left) =
                   foldl (\<lambda>(filtered, left) m. (obj_set m (pget left m) filtered, obj_del m left))
                     ([], existing) (split_by is_space a)
             in (case obj_get settings_rules (e_name el) of
                   Some (PObj _) \<Rightarrow> obj_set (e_name el) (PObj left) settings_rules
                 | _ \<Rightarrow> settings_rules, filtered))"

end
