(* ===== verification/Validator_State.thy ===== *)
theory Validator_State
  imports Validator_Rules
begin

text \<open>
  The state of a validator of \<open>jquery.validate.js\<close> and its operations below \<open>check\<close>: values of elements, messages, error
  labels and their display, and the bookkeeping of remote requests. Elements are named by their position in the form.
\<close>

section \<open>Settings and state\<close>

text \<open>Callbacks of the page's author are switches: a custom \<open>showErrors\<close>, \<open>errorPlacement\<close> or \<open>success\<close> function is
  recorded when it is called; \<open>st_submitHandler\<close> is what the handler returns, if there is one; \<open>highlight\<close> and
  \<open>unhighlight\<close> are the default functions or switched off.\<close>

datatype success = SClass string | SCall

record vsettings =
  st_errorClass :: string
  st_pendingClass :: string
  st_validClass :: string
  st_errorElement :: string
  st_focusCleanup :: bool
  st_focusInvalid :: bool
  st_onsubmit :: bool
  st_debug :: bool
  st_ignoreTitle :: bool
  st_onfocusin :: bool
  st_onfocusout :: bool
  st_onkeyup :: bool
  st_onclick :: bool
  st_highlight :: bool
  st_unhighlight :: bool
  st_showErrors :: bool
  st_normalizer :: "nat option"
  st_success :: "success option"
  st_wrapper :: bool
  st_labelContainer :: bool
  st_errorPlacement :: bool
  st_containers :: "nat list"
  st_submitHandler :: "bool option option"

text \<open>Error elements in the error context. Nodes that are shown and hidden: labels, their wrappers, and containers.\<close>

datatype place = InContainer | ByPlacement | AfterElement nat

record elabel =
  lb_tag :: string
  lb_id :: string
  lb_for :: "string option"
  lb_within :: "string list"
  lb_class :: "string option"
  lb_text :: string
  lb_wrapped :: bool
  lb_place :: place

datatype dnode = NLabel nat | NWrap nat | NContainer nat

datatype ival = IMsg string | IBool bool

record verror =
  er_message :: string
  er_element :: nat
  er_method :: "string option"

text \<open>\<open>previousValue\<close> of an element with a remote rule, and a running request: its element, its method and the message to
  restore. A request that completed or was aborted is not in the table.\<close>

record prev =
  pv_old :: "string option"
  pv_valid :: "bool option"
  pv_message :: string
  pv_original :: "msg option"

record vreq =
  rq_elem :: nat
  rq_method :: string
  rq_original :: "msg option"
  rq_value :: pval

datatype vevent = EInvalidForm | EShowErrors | ESuccess nat | EPlacement nat | ESubmitHandler | ENative "(string \<times> string) option"
  | EFocus nat

record vstate =
  v_elems :: "felem list"
  v_labels :: "elabel list"
  v_hidden :: "dnode list"
  v_rules :: "pval obj"
  v_messages :: "msgs obj"
  v_groups :: "string obj"
  v_submitted :: "string obj"
  v_invalid :: "ival obj"
  v_errorMap :: "string obj"
  v_errorList :: "verror list"
  v_successList :: "nat list"
  v_currentElements :: "nat list"
  v_toShow :: "dnode list"
  v_toHide :: "dnode list"
  v_pendingRequest :: int
  v_pending :: "string list"
  v_formSubmitted :: bool
  v_submitButton :: "(string \<times> string) option"
  v_cancelSubmit :: bool
  v_lastActive :: "nat option"
  v_previous :: "(nat \<times> prev) list"
  v_requests :: "vreq obj"
  v_blur :: "(nat \<times> nat) list"
  v_log :: "vevent list"

abbreviation elem :: "vstate \<Rightarrow> nat \<Rightarrow> felem" where "elem v i \<equiv> v_elems v ! i"

definition upd_elem :: "nat \<Rightarrow> (felem \<Rightarrow> felem) \<Rightarrow> vstate \<Rightarrow> vstate" where
  "upd_elem i f v = v\<lparr>v_elems := (v_elems v)[i := f (elem v i)]\<rparr>"

definition log_event :: "vevent \<Rightarrow> vstate \<Rightarrow> vstate" where
  "log_event e v = v\<lparr>v_log := v_log v @ [e]\<rparr>"

section \<open>Elements and their values\<close>

definition checkable :: "felem \<Rightarrow> bool" where
  "checkable el \<longleftrightarrow> contains ''radio'' (toLowerCase (e_type el)) \<or> contains ''checkbox'' (toLowerCase (e_type el))"

definition findByName :: "vstate \<Rightarrow> string \<Rightarrow> nat list" where
  "findByName v name = filter (\<lambda>i. e_name (elem v i) = name) [0..<length (v_elems v)]"

definition validationTargetFor :: "vstate \<Rightarrow> nat \<Rightarrow> nat option" where
  "validationTargetFor v i =
     (case filter (\<lambda>j. \<not> e_ignored (elem v j)) (if checkable (elem v i) then findByName v (e_name (elem v i)) else [i]) of
        j # _ \<Rightarrow> Some j
      | [] \<Rightarrow> None)"

definition editable :: "felem \<Rightarrow> bool" where
  "editable el \<longleftrightarrow> obj_get (e_attrs el) ''contenteditable'' \<noteq> None \<and> obj_get (e_attrs el) ''contenteditable'' \<noteq> Some ''false''"

text \<open>The name of a chosen file: the browser's fake path, a Unix path, a Windows path, or just the name.\<close>

definition after_last :: "char \<Rightarrow> string \<Rightarrow> string" where
  "after_last c s = rev (takeWhile (\<lambda>d. d \<noteq> c) (rev s))"

definition file_value :: "string \<Rightarrow> string" where
  "file_value val =
     (if take 12 val = ''C:'' @ [CHR 0x5C] @ ''fakepath'' @ [CHR 0x5C] then drop 12 val
      else if CHR ''/'' \<in> set val then after_last (CHR ''/'') val
      else if CHR 0x5C \<in> set val then after_last (CHR 0x5C) val
      else val)"

definition elementValue :: "vstate \<Rightarrow> nat \<Rightarrow> pval" where
  "elementValue v i =
     (let el = elem v i; type = e_type el
      in if type = ''radio'' \<or> type = ''checkbox'' then
           (case filter (\<lambda>j. e_checked (elem v j)) (findByName v (e_name el)) of
              j # _ \<Rightarrow> e_val (elem v j)
            | [] \<Rightarrow> PUndef)
         else if type = ''number'' \<and> e_badInput el \<noteq> None
         then (if e_badInput el = Some True then PStr ''NaN'' else e_val el)
         else
           (case (if editable el then PStr (e_text el) else e_val el) of
              PStr s \<Rightarrow> PStr (if type = ''file'' then file_value s else remove_chars (\<lambda>c. c = CHR 0x0D) s)
            | val \<Rightarrow> val))"

text \<open>\<open>x.length\<close>, which throws on undefined and null.\<close>

definition value_length :: "pval \<Rightarrow> pval option" where
  "value_length value =
     (case value of PUndef \<Rightarrow> None | PNull \<Rightarrow> None
      | PStr s \<Rightarrow> Some (PNum (Some (of_nat (length s))))
      | PArr xs \<Rightarrow> Some (PNum (Some (of_nat (length xs))))
      | _ \<Rightarrow> Some PUndef)"

definition getLength :: "vstate \<Rightarrow> pval \<Rightarrow> nat \<Rightarrow> pval option" where
  "getLength v value i =
     (let el = elem v i; node = toLowerCase (e_node el)
      in if node = ''select'' then Some (PNum (Some (of_nat (e_selected el))))
         else if node = ''input'' \<and> checkable el
         then Some (PNum (Some (of_nat (length (filter (\<lambda>j. e_checked (elem v j)) (findByName v (e_name el)))))))
         else value_length value)"

definition positive :: "pval \<Rightarrow> bool" where
  "positive n \<longleftrightarrow> (case n of PNum (Some q) \<Rightarrow> 0 < q | _ \<Rightarrow> False)"

definition depend :: "venv \<Rightarrow> nat \<Rightarrow> pval \<Rightarrow> bool" where
  "depend env i param =
     (case param of PBool b \<Rightarrow> b | PStr s \<Rightarrow> sel_found env s | PFun f \<Rightarrow> ptruthy (call_rule env f i) | _ \<Rightarrow> True)"

definition required_result :: "vstate \<Rightarrow> nat \<Rightarrow> pval \<Rightarrow> vresult" where
  "required_result v i value =
     (let el = elem v i
      in if toLowerCase (e_node el) = ''select''
         then vbool (ptruthy (e_val el) \<and> (case value_length (e_val el) of Some n \<Rightarrow> positive n | None \<Rightarrow> False))
         else if checkable el
         then (case getLength v value i of Some n \<Rightarrow> vbool (positive n) | None \<Rightarrow> VThrow)
         else vbool (case value_length value of Some n \<Rightarrow> positive n | None \<Rightarrow> False))"

definition required_method :: "venv \<Rightarrow> vstate \<Rightarrow> nat \<Rightarrow> pval \<Rightarrow> pval \<Rightarrow> vresult" where
  "required_method env v i value param = (if \<not> depend env i param then VMismatch else required_result v i value)"

text \<open>\<open>this.optional(element) || b\<close>, and its use where the method computed something that may throw first.\<close>

definition optional :: "vstate \<Rightarrow> nat \<Rightarrow> vresult" where
  "optional v i = (case required_result v i (elementValue v i) of VFalse \<Rightarrow> VMismatch | VThrow \<Rightarrow> VThrow | _ \<Rightarrow> VFalse)"

definition opt_or :: "vstate \<Rightarrow> nat \<Rightarrow> vresult \<Rightarrow> vresult" where
  "opt_or v i r = (case optional v i of VFalse \<Rightarrow> r | x \<Rightarrow> x)"

section \<open>The built-in methods\<close>

definition email_atext :: "char \<Rightarrow> bool" where
  "email_atext c \<longleftrightarrow> is_lower c \<or> is_upper c \<or> is_dig c \<or> c \<in> set (''.!#$%&*+/=?^_`{|}~-'' @ [CHR 0x27])"

definition alnum :: "char \<Rightarrow> bool" where
  "alnum c \<longleftrightarrow> is_lower c \<or> is_upper c \<or> is_dig c"

definition email_label :: regex where
  "email_label = RSeq (RCls alnum) (ROpt (RSeq (RUpto 61 (RCls (\<lambda>c. alnum c \<or> c = CHR ''-''))) (RCls alnum)))"

definition email_pattern :: regex where
  "email_pattern = RSeqs [RPlus (RCls email_atext), RChr (CHR ''@''), email_label, RStar (RSeq (RChr (CHR ''.'')) email_label)]"

definition dateISO_pattern :: regex where
  "dateISO_pattern = RSeqs [RRep 4 RDigit, RSet ''/-'',
     RAlt (RSeq (ROpt (RChr (CHR ''0''))) (RRange (CHR ''1'') (CHR ''9''))) (RSeq (RChr (CHR ''1'')) (RSet ''012'')), RSet ''/-'',
     RAlts [RSeq (ROpt (RChr (CHR ''0''))) (RRange (CHR ''1'') (CHR ''9'')), RSeq (RSet ''12'') RDigit, RSeq (RChr (CHR ''3'')) (RSet ''01'')]]"

definition number_pattern :: regex where
  "number_pattern = RSeq
     (ROpt (RAlt (RSeq (ROpt (RChr (CHR ''-''))) (RPlus RDigit))
        (RSeqs [ROpt (RChr (CHR ''-'')), RBetween 1 3 RDigit, RPlus (RSeq (RChr (CHR '','')) (RRep 3 RDigit))])))
     (ROpt (RSeqs [ROpt (RChr (CHR ''-'')), RChr (CHR ''.''), RPlus RDigit]))"

text \<open>The length methods: an array counts its entries, anything else goes through \<open>getLength\<close>, which may throw before the
  element is found to be optional.\<close>

definition length_of :: "vstate \<Rightarrow> pval \<Rightarrow> nat \<Rightarrow> pval option" where
  "length_of v value i = (case value of PArr xs \<Rightarrow> Some (PNum (Some (of_nat (length xs)))) | _ \<Rightarrow> getLength v value i)"

definition length_method :: "(pval \<Rightarrow> vresult) \<Rightarrow> vstate \<Rightarrow> nat \<Rightarrow> pval \<Rightarrow> vresult" where
  "length_method P v i value = (case length_of v value i of None \<Rightarrow> VThrow | Some n \<Rightarrow> opt_or v i (P n))"

text \<open>\<open>lo <= x && x <= hi\<close> for a parameter read by position.\<close>

definition between :: "pval \<Rightarrow> pval \<Rightarrow> vresult" where
  "between x param =
     (case param of
        PArr ps \<Rightarrow> vbool (js_le (nth_or ps 0) x \<and> js_le x (nth_or ps 1))
      | PUndef \<Rightarrow> VThrow | PNull \<Rightarrow> VThrow | _ \<Rightarrow> VFalse)"

text \<open>\<open>step\<close>: \<open>\b\<close> boundaries around a type without special characters, decimals counted from the text, and divisibility of
  the scaled numbers.\<close>

definition word_edge :: "string \<Rightarrow> nat \<Rightarrow> bool" where
  "word_edge s k \<longleftrightarrow> (0 < k \<and> k \<le> length s \<and> is_word (s ! (k - 1))) \<noteq> (k < length s \<and> is_word (s ! k))"

definition word_match :: "string \<Rightarrow> string \<Rightarrow> bool" where
  "word_match p s \<longleftrightarrow>
     list_ex (\<lambda>k. has_prefix p (drop k s) \<and> word_edge s k \<and> word_edge s (k + length p)) [0..<length s + 1]"

definition decimalPlaces :: "string \<Rightarrow> nat" where
  "decimalPlaces s =
     (let r = rev s; ds = takeWhile is_dig r
      in case dropWhile is_dig r of c # _ \<Rightarrow> if c = CHR ''.'' then length ds else 0 | [] \<Rightarrow> 0)"

definition toInt :: "nat \<Rightarrow> pval \<Rightarrow> int option" where
  "toInt decimals num = map_option (\<lambda>q. \<lfloor>q * 10 ^ decimals + 1 / 2\<rfloor>) (pnum num)"

definition step_method :: "vstate \<Rightarrow> nat \<Rightarrow> pval \<Rightarrow> pval \<Rightarrow> vresult" where
  "step_method v i value param =
     (let type = (case obj_get (e_attrs (elem v i)) ''type'' of Some t \<Rightarrow> t | None \<Rightarrow> []);
          decimals = decimalPlaces (pstring param);
          divides = (case (toInt decimals value, toInt decimals param) of
                       (Some a, Some b) \<Rightarrow> b \<noteq> 0 \<and> a mod b = 0 | _ \<Rightarrow> False)
      in if type \<noteq> [] \<and> \<not> word_match type ''text,number,range'' then VThrow
         else opt_or v i (vbool (\<not> (decimalPlaces (pstring value) > decimals \<or> \<not> divides))))"

definition minlength :: "vstate \<Rightarrow> nat \<Rightarrow> pval \<Rightarrow> pval \<Rightarrow> vresult" where
  "minlength v i value param = length_method (\<lambda>n. vbool (js_le param n)) v i value"

definition maxlength :: "vstate \<Rightarrow> nat \<Rightarrow> pval \<Rightarrow> pval \<Rightarrow> vresult" where
  "maxlength v i value param = length_method (\<lambda>n. vbool (js_le n param)) v i value"

definition rangelength :: "vstate \<Rightarrow> nat \<Rightarrow> pval \<Rightarrow> pval \<Rightarrow> vresult" where
  "rangelength v i value param = length_method (\<lambda>n. between n param) v i value"

text \<open>The methods that do not change the state.\<close>

definition builtin :: "venv \<Rightarrow> vstate \<Rightarrow> nat \<Rightarrow> string \<Rightarrow> pval \<Rightarrow> pval \<Rightarrow> vresult" where
  "builtin env v i name value param =
     (let text = pstring value; matches = (\<lambda>r. opt_or v i (vbool (rmatch r text)))
      in if name = ''required'' then required_method env v i value param
         else if name = ''email'' then matches email_pattern
         else if name = ''url'' then opt_or v i (url_method False text)
         else if name = ''date'' then opt_or v i (vbool (date_ok env text))
         else if name = ''dateISO'' then matches dateISO_pattern
         else if name = ''number'' then matches number_pattern
         else if name = ''digits'' then matches (RPlus RDigit)
         else if name = ''minlength'' then minlength v i value param
         else if name = ''maxlength'' then maxlength v i value param
         else if name = ''rangelength'' then rangelength v i value param
         else if name = ''min'' then opt_or v i (vbool (js_le param value))
         else if name = ''max'' then opt_or v i (vbool (js_le value param))
         else if name = ''range'' then opt_or v i (between value param)
         else if name = ''step'' then step_method v i value param
         else VThrow)"

end
