(* ===== verification/Validator_Core.thy ===== *)
theory Validator_Core
  imports Validator_State
begin

text \<open>
  The validator of \<open>jquery.validate.js\<close>: messages, error labels, \<open>check\<close>, \<open>form\<close> and \<open>element\<close>, remote requests, and the
  handlers of form events. A function that may throw returns an option or a result with a constructor for it, and the
  state as the exception leaves it.
\<close>

section \<open>Messages\<close>

definition customDataMessage :: "felem \<Rightarrow> string \<Rightarrow> msg option" where
  "customDataMessage el method =
     (let a = pget (e_data el) (data_key ''msg'' method); m = (if ptruthy a then a else pget (e_data el) ''msg'')
      in if m = PUndef then None else Some (MStr (pstring m)))"

definition customMessage :: "vstate \<Rightarrow> string \<Rightarrow> string \<Rightarrow> msg option" where
  "customMessage v name method =
     (case obj_get (v_messages v) name of
        None \<Rightarrow> None
      | Some (MsgAll s) \<Rightarrow> Some (MStr s)
      | Some (MsgBy ms) \<Rightarrow> (case obj_get ms method of Some m \<Rightarrow> m | None \<Rightarrow> None))"

fun findDefined :: "'a option list \<Rightarrow> 'a option" where
  "findDefined [] = None"
| "findDefined (Some x # xs) = Some x"
| "findDefined (None # xs) = findDefined xs"

definition placeholder :: regex where
  "placeholder = RSeqs [RChr (CHR ''{''), RPlus RDigit, RChr (CHR ''}'')]"

text \<open>\<open>message.replace(/\$?\{(\d+)\}/g, "{$1}")\<close>: a dollar sign before a placeholder goes.\<close>

fun strip_dollars :: "string \<Rightarrow> string" where
  "strip_dollars [] = []"
| "strip_dollars (c # s) =
     (if c = CHR ''$'' \<and> rmatch_prefix placeholder s then strip_dollars s else c # strip_dollars s)"

definition defaultMessage :: "vsettings \<Rightarrow> vglobal \<Rightarrow> venv \<Rightarrow> vstate \<Rightarrow> nat \<Rightarrow> string \<Rightarrow> pval \<Rightarrow> string option" where
  "defaultMessage st g env v i method params =
     (let el = elem v i;
          message = findDefined
            [customMessage v (e_name el) method,
             customDataMessage el method,
             if \<not> st_ignoreTitle st \<and> e_title el \<noteq> [] then Some (MStr (e_title el)) else None,
             (case obj_get (g_messages g) method of Some m \<Rightarrow> m | None \<Rightarrow> None),
             Some (MStr (''<strong>Warning: No message defined for '' @ e_name el @ ''</strong>''))]
      in case message of
           Some (MFun f) \<Rightarrow> Some (call_msg env f params i)
         | Some (MFormat source) \<Rightarrow> format source params [PStr (e_string el)]
         | Some (MStr s) \<Rightarrow> if rmatch_sub placeholder s then format (strip_dollars s) params [] else Some s
         | None \<Rightarrow> Some [])"

text \<open>\<open>None\<close> when the message throws.\<close>

definition formatAndAdd :: "vsettings \<Rightarrow> vglobal \<Rightarrow> venv \<Rightarrow> nat \<Rightarrow> string \<Rightarrow> pval \<Rightarrow> vstate \<Rightarrow> vstate option" where
  "formatAndAdd st g env i method params v =
     map_option (\<lambda>message.
       v\<lparr>v_errorList := v_errorList v @ [\<lparr>er_message = message, er_element = i, er_method = Some method\<rparr>],
         v_errorMap := obj_set (e_name (elem v i)) message (v_errorMap v),
         v_submitted := obj_set (e_name (elem v i)) message (v_submitted v)\<rparr>)
     (defaultMessage st g env v i method params)"

section \<open>Error labels\<close>

text \<open>Characters with a meaning in selectors are escaped by a backslash.\<close>

definition css_meta :: "char \<Rightarrow> bool" where
  "css_meta c \<longleftrightarrow> c \<in> set (''!#$%&()*+,./:;<=>?@[]^`{|}~'' @ [CHR 0x5C, CHR 0x22, CHR 0x27])"

definition escapeCssMeta :: "string \<Rightarrow> string" where
  "escapeCssMeta s = concat (map (\<lambda>c. if css_meta c then [CHR 0x5C, c] else [c]) s)"

definition idOrName :: "vstate \<Rightarrow> nat \<Rightarrow> string" where
  "idOrName v i =
     (let el = elem v i
      in case obj_get (v_groups v) (e_name el) of
           Some (c # s) \<Rightarrow> c # s
         | _ \<Rightarrow> if checkable el \<or> e_id el = [] then e_name el else e_id el)"

definition errors :: "vsettings \<Rightarrow> vstate \<Rightarrow> nat list" where
  "errors st v =
     filter (\<lambda>k. lb_tag (v_labels v ! k) = st_errorElement st
               \<and> list_all (hasClass (lb_class (v_labels v ! k))) (tokens (st_errorClass st))) [0..<length (v_labels v)]"

definition describedBy :: "felem \<Rightarrow> string list" where
  "describedBy el =
     (case obj_get (e_attrs el) ''aria-describedby'' of Some s \<Rightarrow> if s = [] then [] else split_runs is_space s | None \<Rightarrow> [])"

definition errorsFor :: "vsettings \<Rightarrow> vstate \<Rightarrow> nat \<Rightarrow> nat list" where
  "errorsFor st v i =
     (let name = idOrName v i
      in filter (\<lambda>k. let lb = v_labels v ! k
           in (lb_tag lb = ''label'' \<and> lb_for lb = Some name) \<or> name \<in> set (lb_within lb)
              \<or> lb_id lb \<in> set (describedBy (elem v i))) (errors st v))"

definition addWrapper :: "vsettings \<Rightarrow> vstate \<Rightarrow> dnode list \<Rightarrow> dnode list" where
  "addWrapper st v ns =
     (if st_wrapper st
      then ns @ concat (map (\<lambda>n. case n of NLabel k \<Rightarrow> if lb_wrapped (v_labels v ! k) then [NWrap k] else [] | _ \<Rightarrow> []) ns)
      else ns)"

definition containers :: "vsettings \<Rightarrow> dnode list" where
  "containers st = map NContainer (st_containers st)"

definition upd_label :: "nat \<Rightarrow> (elabel \<Rightarrow> elabel) \<Rightarrow> vstate \<Rightarrow> vstate" where
  "upd_label k f v = v\<lparr>v_labels := (v_labels v)[k := f (v_labels v ! k)]\<rparr>"

definition hide :: "dnode list \<Rightarrow> vstate \<Rightarrow> vstate" where
  "hide ns v = v\<lparr>v_hidden := v_hidden v @ filter (\<lambda>n. n \<notin> set (v_hidden v)) ns\<rparr>"

definition show_nodes :: "dnode list \<Rightarrow> vstate \<Rightarrow> vstate" where
  "show_nodes ns v = v\<lparr>v_hidden := filter (\<lambda>n. n \<notin> set ns) (v_hidden v)\<rparr>"

definition hideThese :: "vsettings \<Rightarrow> dnode list \<Rightarrow> vstate \<Rightarrow> vstate" where
  "hideThese st ns v =
     (let v' = fold (\<lambda>n v. case n of NLabel k \<Rightarrow> upd_label k (\<lambda>lb. lb\<lparr>lb_text := []\<rparr>) v | _ \<Rightarrow> v)
                 (filter (\<lambda>n. n \<notin> set (containers st)) ns) v
      in hide (addWrapper st v' ns) v')"

definition hideErrors :: "vsettings \<Rightarrow> vstate \<Rightarrow> vstate" where
  "hideErrors st v = hideThese st (v_toHide v) v"

definition set_classes :: "string \<Rightarrow> string \<Rightarrow> nat list \<Rightarrow> vstate \<Rightarrow> vstate" where
  "set_classes add remove is v =
     fold (\<lambda>j. upd_elem j (\<lambda>el. el\<lparr>e_class := removeClass (addClass (e_class el) (ClassString add)) (Some (ClassString remove))\<rparr>)) is v"

definition group_of_radio :: "vstate \<Rightarrow> nat \<Rightarrow> nat list" where
  "group_of_radio v i = (if e_type (elem v i) = ''radio'' then findByName v (e_name (elem v i)) else [i])"

definition highlight :: "nat \<Rightarrow> string \<Rightarrow> string \<Rightarrow> vstate \<Rightarrow> vstate" where
  "highlight i errorClass validClass v = set_classes errorClass validClass (group_of_radio v i) v"

definition unhighlight :: "nat \<Rightarrow> string \<Rightarrow> string \<Rightarrow> vstate \<Rightarrow> vstate" where
  "unhighlight i errorClass validClass v =
     fold (\<lambda>j. upd_elem j (\<lambda>el. el\<lparr>e_class := addClass (removeClass (e_class el) (Some (ClassString errorClass))) (ClassString validClass)\<rparr>))
       (group_of_radio v i) v"

definition remove_class_of :: "string \<Rightarrow> nat \<Rightarrow> vstate \<Rightarrow> vstate" where
  "remove_class_of c j = upd_elem j (\<lambda>el. el\<lparr>e_class := removeClass (e_class el) (Some (ClassString c))\<rparr>)"

definition resetElements :: "vsettings \<Rightarrow> nat list \<Rightarrow> vstate \<Rightarrow> vstate" where
  "resetElements st elements v =
     (if st_unhighlight st
      then fold (\<lambda>i v. let v' = unhighlight i (st_errorClass st) [] v
                       in fold (remove_class_of (st_validClass st)) (findByName v' (e_name (elem v' i))) v') elements v
      else fold (\<lambda>i v. remove_class_of (st_validClass st) i (remove_class_of (st_errorClass st) i v)) elements v)"

definition describe_group :: "string \<Rightarrow> string \<Rightarrow> vstate \<Rightarrow> vstate" where
  "describe_group grp errorID v =
     fold (\<lambda>(name, testgroup) v.
       if testgroup = grp
       then fold (\<lambda>j. upd_elem j (\<lambda>el. el\<lparr>e_attrs := obj_set ''aria-describedby'' errorID (e_attrs el)\<rparr>)) (findByName v name) v
       else v) (v_groups v) v"

text \<open>A new error element is associated with its field by \<open>for\<close> when it is a label, else by \<open>aria-describedby\<close>.\<close>

definition link_error :: "vsettings \<Rightarrow> nat \<Rightarrow> string \<Rightarrow> string \<Rightarrow> vstate \<Rightarrow> vstate" where
  "link_error st i elementID errorID v =
     (let k = length (v_labels v) - 1; el = elem v i
      in if st_errorElement st = ''label'' then upd_label k (\<lambda>lb. lb\<lparr>lb_for := Some elementID\<rparr>) v
         else if elementID \<notin> set (e_labels el) then
           let d = (case obj_get (e_attrs el) ''aria-describedby'' of
                      None \<Rightarrow> errorID
                    | Some s \<Rightarrow> if s = [] then errorID else if word_match errorID s then s else s @ '' '' @ errorID);
               v' = upd_elem i (\<lambda>el. el\<lparr>e_attrs := obj_set ''aria-describedby'' d (e_attrs el)\<rparr>) v
           in (case obj_get (v_groups v) (e_name el) of Some (c # s) \<Rightarrow> describe_group (c # s) errorID v' | _ \<Rightarrow> v')
         else v)"

definition new_label :: "vsettings \<Rightarrow> nat \<Rightarrow> string \<Rightarrow> string \<Rightarrow> vstate \<Rightarrow> vstate" where
  "new_label st i elementID message v =
     (let pl = (if st_labelContainer st then InContainer else if st_errorPlacement st then ByPlacement else AfterElement i);
          v' = v\<lparr>v_labels := v_labels v @
            [\<lparr>lb_tag = st_errorElement st, lb_id = elementID @ ''-error'', lb_for = None, lb_within = e_labels (elem v i),
              lb_class = addClass None (ClassString (st_errorClass st)), lb_text = message, lb_wrapped = st_wrapper st,
              lb_place = pl\<rparr>]\<rparr>
      in link_error st i elementID (elementID @ ''-error'') (if pl = ByPlacement then log_event (EPlacement i) v' else v'))"

text \<open>\<open>message\<close> is \<open>None\<close> for an element that is valid.\<close>

definition showLabel :: "vsettings \<Rightarrow> nat \<Rightarrow> string option \<Rightarrow> vstate \<Rightarrow> vstate" where
  "showLabel st i message v =
     (let error = errorsFor st v i;
          text = (case message of Some m \<Rightarrow> m | None \<Rightarrow> []);
          (shown, v1) =
            (if error \<noteq> [] then
               (error, fold (\<lambda>k. upd_label k (\<lambda>lb. lb\<lparr>lb_class := addClass (removeClass (lb_class lb) (Some (ClassString (st_validClass st))))
                    (ClassString (st_errorClass st)), lb_text := text\<rparr>)) error v)
             else ([length (v_labels v)], new_label st i (idOrName v i) text v));
          v2 = (if text = [] then
                  (case st_success st of
                     None \<Rightarrow> v1
                   | Some (SClass c) \<Rightarrow> fold (\<lambda>k. upd_label k (\<lambda>lb. lb\<lparr>lb_text := [], lb_class := addClass (lb_class lb) (ClassString c)\<rparr>)) shown v1
                   | Some SCall \<Rightarrow> log_event (ESuccess i) (fold (\<lambda>k. upd_label k (\<lambda>lb. lb\<lparr>lb_text := []\<rparr>)) shown v1))
                else v1)
      in v2\<lparr>v_toShow := v_toShow v2 @ map NLabel (filter (\<lambda>k. NLabel k \<notin> set (v_toShow v2)) shown)\<rparr>)"

definition invalidElements :: "vstate \<Rightarrow> nat list" where
  "invalidElements v = map er_element (v_errorList v)"

definition validElements :: "vstate \<Rightarrow> nat list" where
  "validElements v = filter (\<lambda>i. i \<notin> set (invalidElements v)) (v_currentElements v)"

definition add_nodes :: "dnode list \<Rightarrow> dnode list \<Rightarrow> dnode list" where
  "add_nodes ns ms = ns @ filter (\<lambda>n. n \<notin> set ns) ms"

definition defaultShowErrors :: "vsettings \<Rightarrow> vstate \<Rightarrow> vstate" where
  "defaultShowErrors st v =
     (let v1 = fold (\<lambda>er v.
            showLabel st (er_element er) (Some (er_message er))
              (if st_highlight st then highlight (er_element er) (st_errorClass st) (st_validClass st) v else v))
            (v_errorList v) v;
          v2 = (if v_errorList v1 \<noteq> [] then v1\<lparr>v_toShow := add_nodes (v_toShow v1) (containers st)\<rparr> else v1);
          v3 = (if st_success st \<noteq> None then fold (\<lambda>i. showLabel st i None) (v_successList v2) v2 else v2);
          v4 = (if st_unhighlight st
                then fold (\<lambda>i. unhighlight i (st_errorClass st) (st_validClass st)) (validElements v3) v3 else v3);
          v5 = hideErrors st (v4\<lparr>v_toHide := filter (\<lambda>n. n \<notin> set (v_toShow v4)) (v_toHide v4)\<rparr>)
      in show_nodes (addWrapper st v5 (v_toShow v5)) v5)"

text \<open>\<open>showErrors(errors)\<close>: the errors are merged into the map, and the list is rebuilt from it. The names in the map are
  names of elements of the form.\<close>

definition merge_errors :: "string obj \<Rightarrow> vstate \<Rightarrow> vstate" where
  "merge_errors errs v =
     (let m = fold (\<lambda>(k, x). obj_set k x) errs (v_errorMap v)
      in v\<lparr>v_errorMap := m,
           v_errorList := concat (map (\<lambda>(name, message).
             case findByName v name of i # _ \<Rightarrow> [\<lparr>er_message = message, er_element = i, er_method = None\<rparr>] | [] \<Rightarrow> []) m),
           v_successList := filter (\<lambda>i. e_name (elem v i) \<notin> set (obj_keys errs)) (v_successList v)\<rparr>)"

definition showErrors :: "vsettings \<Rightarrow> string obj option \<Rightarrow> vstate \<Rightarrow> vstate" where
  "showErrors st errs v =
     (let v1 = (case errs of None \<Rightarrow> v | Some e \<Rightarrow> merge_errors e v)
      in if st_showErrors st then log_event EShowErrors v1 else defaultShowErrors st v1)"

end
