(* ===== verification/Validator_Form.thy ===== *)
theory Validator_Form
  imports Validator_Core
begin

text \<open>
  Checking elements and whole forms, remote validation with its requests, submission, and the event handlers of
  \<open>jquery.validate.js\<close>.
\<close>

section \<open>Requests\<close>

definition elementAjaxPort :: "felem \<Rightarrow> string" where
  "elementAjaxPort el = ''validate'' @ e_name el"

definition ajaxAbort :: "string \<Rightarrow> vstate \<Rightarrow> vstate" where
  "ajaxAbort port v = v\<lparr>v_requests := obj_del port (v_requests v)\<rparr>"

text \<open>The prefilter for \<open>mode: "abort"\<close>: a new request on a port aborts the one before.\<close>

definition ajax_abort_mode :: "string \<Rightarrow> vreq \<Rightarrow> vstate \<Rightarrow> vstate" where
  "ajax_abort_mode port req v = (let v' = ajaxAbort port v in v'\<lparr>v_requests := obj_set port req (v_requests v')\<rparr>)"

definition startRequest :: "vsettings \<Rightarrow> nat \<Rightarrow> vstate \<Rightarrow> vstate" where
  "startRequest st i v =
     (if e_name (elem v i) \<notin> set (v_pending v)
      then (upd_elem i (\<lambda>el. el\<lparr>e_class := addClass (e_class el) (ClassString (st_pendingClass st))\<rparr>)
              (v\<lparr>v_pendingRequest := v_pendingRequest v + 1\<rparr>))
           \<lparr>v_pending := v_pending v @ [e_name (elem v i)]\<rparr>
      else v)"

text \<open>\<open>pendingRequest--\<close> with the guard against negative counts.\<close>

definition clamp_dec :: "int \<Rightarrow> int" where
  "clamp_dec n = (let m = n - 1 in if m < 0 then 0 else m)"

definition drop_pending :: "vsettings \<Rightarrow> nat \<Rightarrow> vstate \<Rightarrow> vstate" where
  "drop_pending st i v =
     remove_class_of (st_pendingClass st) i
       (v\<lparr>v_pendingRequest := clamp_dec (v_pendingRequest v), v_pending := removeAll (e_name (elem v i)) (v_pending v)\<rparr>)"

definition abortRequest :: "vsettings \<Rightarrow> nat \<Rightarrow> vstate \<Rightarrow> vstate" where
  "abortRequest st i v =
     (if e_name (elem v i) \<in> set (v_pending v) then drop_pending st i (ajaxAbort (elementAjaxPort (elem v i)) v) else v)"

definition set_prev :: "nat \<Rightarrow> prev \<Rightarrow> vstate \<Rightarrow> vstate" where
  "set_prev i p v = v\<lparr>v_previous := (i, p) # filter (\<lambda>q. fst q \<noteq> i) (v_previous v)\<rparr>"

definition previousValue :: "vsettings \<Rightarrow> vglobal \<Rightarrow> venv \<Rightarrow> vstate \<Rightarrow> nat \<Rightarrow> string \<Rightarrow> prev option" where
  "previousValue st g env v i method =
     (case map_of (v_previous v) i of
        Some p \<Rightarrow> Some p
      | None \<Rightarrow> map_option (\<lambda>m. \<lparr>pv_old = None, pv_valid = Some True, pv_message = m, pv_original = None\<rparr>)
                  (defaultMessage st g env v i method PUndef))"

definition set_message :: "string \<Rightarrow> string \<Rightarrow> msg option \<Rightarrow> vstate \<Rightarrow> vstate" where
  "set_message name method m v =
     (case obj_get (v_messages v) name of
        Some (MsgBy ms) \<Rightarrow> v\<lparr>v_messages := obj_set name (MsgBy (obj_set method m ms)) (v_messages v)\<rparr>
      | _ \<Rightarrow> v)"

definition remote_key :: "venv \<Rightarrow> pval \<Rightarrow> pval \<Rightarrow> string" where
  "remote_key env value param =
     jq_param (call_data env) (PObj (jq_extend [(''data'', value)] [obj_of (pget (obj_of param) ''data'')])) False"

text \<open>The messages of a field as an object, and the message for a method in it.\<close>

definition ensure_messages :: "string \<Rightarrow> vstate \<Rightarrow> vstate" where
  "ensure_messages name v =
     (if obj_get (v_messages v) name = None \<or> obj_get (v_messages v) name = Some (MsgAll [])
      then v\<lparr>v_messages := obj_set name (MsgBy []) (v_messages v)\<rparr> else v)"

definition message_of :: "string \<Rightarrow> string \<Rightarrow> vstate \<Rightarrow> msg option" where
  "message_of name method v =
     (case obj_get (v_messages v) name of
        Some (MsgBy ms) \<Rightarrow> (case obj_get ms method of Some m \<Rightarrow> m | None \<Rightarrow> None) | _ \<Rightarrow> None)"

definition start_remote :: "vsettings \<Rightarrow> nat \<Rightarrow> string \<Rightarrow> pval \<Rightarrow> string \<Rightarrow> prev \<Rightarrow> vstate \<Rightarrow> vstate" where
  "start_remote st i method value key previous v =
     ajax_abort_mode (elementAjaxPort (elem v i))
       \<lparr>rq_elem = i, rq_method = method, rq_original = pv_original previous, rq_value = value\<rparr>
       (startRequest st i (set_prev i (previous\<lparr>pv_old := Some key, pv_valid := None\<rparr>) v))"

text \<open>The remote rule: an answer for the same data is reused, else a request is started. Of the ajax settings that a parameter
  object can hold only \<open>data\<close> matters here; that it replaces \<open>mode\<close>, \<open>port\<close> or \<open>success\<close> is not modelled (the last would take away the
  callback that ends the check).\<close>

definition remote_with :: "vsettings \<Rightarrow> venv \<Rightarrow> nat \<Rightarrow> pval \<Rightarrow> pval \<Rightarrow> string \<Rightarrow> prev \<Rightarrow> vstate \<Rightarrow> vresult \<times> vstate" where
  "remote_with st env i value param method previous v =
     (let name = e_name (elem v i);
          v1 = ensure_messages name v;
          original = (if pv_original previous = None \<or> pv_original previous = Some (MStr [])
                      then message_of name method v1 else pv_original previous);
          previous' = previous\<lparr>pv_original := original\<rparr>;
          v2 = set_message name method (Some (MStr (pv_message previous'))) v1;
          key = remote_key env value param
      in if pv_valid previous' \<noteq> None \<and> pv_old previous' = Some key
         then (vbool (pv_valid previous' = Some True), set_prev i previous' v2)
         else (VPending, start_remote st i method value key previous' v2))"

definition remote :: "vsettings \<Rightarrow> vglobal \<Rightarrow> venv \<Rightarrow> nat \<Rightarrow> pval \<Rightarrow> pval \<Rightarrow> string \<Rightarrow> vstate \<Rightarrow> vresult \<times> vstate" where
  "remote st g env i value param method v =
     (case optional v i of
        VFalse \<Rightarrow>
          (case previousValue st g env v i method of
             None \<Rightarrow> (VThrow, v)
           | Some previous \<Rightarrow> remote_with st env i value param method previous v)
      | r \<Rightarrow> (r, v))"

section \<open>Checking an element\<close>

text \<open>\<open>===\<close> of values read from controls: arrays are never identical.\<close>

definition strict_eq :: "pval \<Rightarrow> pval \<Rightarrow> bool" where
  "strict_eq a b \<longleftrightarrow> a = b \<and> (case a of PArr _ \<Rightarrow> False | PObj _ \<Rightarrow> False | PNum None \<Rightarrow> False | _ \<Rightarrow> True)"

definition equalTo_targets :: "venv \<Rightarrow> pval \<Rightarrow> nat list" where
  "equalTo_targets env param = (case param of PElem n \<Rightarrow> [n] | _ \<Rightarrow> sel_target env (pstring param))"

definition equalTo_method :: "vsettings \<Rightarrow> venv \<Rightarrow> nat \<Rightarrow> pval \<Rightarrow> pval \<Rightarrow> vstate \<Rightarrow> vresult \<times> vstate" where
  "equalTo_method st env i value param v =
     (let targets = equalTo_targets env param;
          marker = ''validate-equalTo-blur'';
          v' = (if st_onfocusout st \<and> list_ex (\<lambda>t. \<not> hasClass (e_class (elem v t)) marker) targets
                then (fold (\<lambda>t. upd_elem t (\<lambda>el. el\<lparr>e_class := addClass (e_class el) (ClassString marker)\<rparr>)) targets v)
                     \<lparr>v_blur := v_blur v @ map (\<lambda>t. (t, i)) targets\<rparr>
                else v)
      in (vbool (strict_eq value (case targets of t # _ \<Rightarrow> e_val (elem v t) | [] \<Rightarrow> PUndef)), v'))"

definition run_method :: "vsettings \<Rightarrow> vglobal \<Rightarrow> venv \<Rightarrow> nat \<Rightarrow> string \<Rightarrow> pval \<Rightarrow> pval \<Rightarrow> vstate \<Rightarrow> vresult \<times> vstate" where
  "run_method st g env i name value param v =
     (case obj_get (g_methods g) name of
        None \<Rightarrow> (VThrow, v)
      | Some (VCustom n f) \<Rightarrow> (call_method env f value (elem v i) param, v)
      | Some VBuiltin \<Rightarrow>
          if name = ''remote'' then remote st g env i value param ''remote'' v
          else if name = ''equalTo'' then equalTo_method st env i value param v
          else (builtin env v i name value param, v))"

definition rules_of :: "vsettings \<Rightarrow> vglobal \<Rightarrow> venv \<Rightarrow> nat \<Rightarrow> vstate \<Rightarrow> pval obj option \<times> vstate" where
  "rules_of st g env i v =
     (case rules g env (v_rules v) i (elem v i) of
        (dropped, r) \<Rightarrow> (r, if dropped then resetElements st [i] v else v))"

datatype cres = CTrue | CFalse | CUndef | CThrow

text \<open>The loop over the rules: it ends with a result, or after the last rule with \<open>dependencyMismatch\<close>.\<close>

fun check_loop :: "vsettings \<Rightarrow> vglobal \<Rightarrow> venv \<Rightarrow> nat \<Rightarrow> nat \<Rightarrow> pval \<Rightarrow> bool \<Rightarrow> pval obj \<Rightarrow> vstate \<Rightarrow> (cres + bool) \<times> vstate" where
  "check_loop st g env rulesCount i val dependencyMismatch [] v = (Inr dependencyMismatch, v)"
| "check_loop st g env rulesCount i val dependencyMismatch ((method, parameters) # rs) v =
     (case run_method st g env i method val parameters v of
        (VThrow, v') \<Rightarrow> (Inl CThrow, v')
      | (VMismatch, v') \<Rightarrow> check_loop st g env rulesCount i val (rulesCount = 1) rs v'
      | (VTrue, v') \<Rightarrow> check_loop st g env rulesCount i val False rs v'
      | (VPending, v') \<Rightarrow>
          (Inl CUndef, v'\<lparr>v_toHide := filter (\<lambda>n. n \<notin> set (map NLabel (errorsFor st v' i))) (v_toHide v')\<rparr>)
      | (VFalse, v') \<Rightarrow>
          (case formatAndAdd st g env i method parameters v' of
             Some v'' \<Rightarrow> (Inl CFalse, v'')
           | None \<Rightarrow> (Inl CThrow, v')))"

text \<open>A value that is neither undefined, null nor false counts.\<close>

definition objectLength :: "pval obj \<Rightarrow> nat" where
  "objectLength ob = length (filter (\<lambda>p. \<not> is_null (snd p) \<and> snd p \<noteq> PBool False) ob)"

definition normalizer_of :: "vsettings \<Rightarrow> pval obj \<Rightarrow> nat option" where
  "normalizer_of st rs = (case pget rs ''normalizer'' of PFun f \<Rightarrow> Some f | _ \<Rightarrow> st_normalizer st)"

definition check_rules :: "vsettings \<Rightarrow> vglobal \<Rightarrow> venv \<Rightarrow> nat \<Rightarrow> pval obj \<Rightarrow> vstate \<Rightarrow> cres \<times> vstate" where
  "check_rules st g env i rs v =
     (let (val, rs') = (case normalizer_of st rs of
                          Some f \<Rightarrow> (call_norm env f (elementValue v i), obj_del ''normalizer'' rs)
                        | None \<Rightarrow> (elementValue v i, rs))
      in case check_loop st g env (length rs) i val False rs' (abortRequest st i v) of
           (Inl r, v') \<Rightarrow> (r, v')
         | (Inr mismatch, v') \<Rightarrow>
             if mismatch then (CUndef, v')
             else (CTrue, if objectLength rs' \<noteq> 0 then v'\<lparr>v_successList := v_successList v' @ [i]\<rparr> else v'))"

definition check :: "vsettings \<Rightarrow> vglobal \<Rightarrow> venv \<Rightarrow> nat \<Rightarrow> vstate \<Rightarrow> cres \<times> vstate" where
  "check st g env i v =
     (case validationTargetFor v i of
        None \<Rightarrow> (CThrow, v)
      | Some j \<Rightarrow>
          (case rules_of st g env j v of
             (None, v1) \<Rightarrow> (CThrow, v1)
           | (Some rs, v1) \<Rightarrow> check_rules st g env j rs v1))"

section \<open>Checking a form\<close>

definition resetInternals :: "vstate \<Rightarrow> vstate" where
  "resetInternals v = v\<lparr>v_successList := [], v_errorList := [], v_errorMap := [], v_toShow := [], v_toHide := []\<rparr>"

definition reset :: "vstate \<Rightarrow> vstate" where
  "reset v = (resetInternals v)\<lparr>v_currentElements := []\<rparr>"

definition prepareForm :: "vsettings \<Rightarrow> vstate \<Rightarrow> vstate" where
  "prepareForm st v = (let v' = reset v in v'\<lparr>v_toHide := add_nodes (map NLabel (errors st v')) (containers st)\<rparr>)"

definition prepareElement :: "vsettings \<Rightarrow> nat \<Rightarrow> vstate \<Rightarrow> vstate" where
  "prepareElement st i v = (let v' = reset v in v'\<lparr>v_toHide := map NLabel (errorsFor st v' i)\<rparr>)"

text \<open>\<open>elements()\<close>: the fields of this form with rules, only the first one of each name; \<open>None\<close> when the rules of a field throw.\<close>

fun elements_loop :: "vsettings \<Rightarrow> vglobal \<Rightarrow> venv \<Rightarrow> string list \<Rightarrow> nat list \<Rightarrow> vstate \<Rightarrow> nat list option \<times> vstate" where
  "elements_loop st g env rulesCache [] v = (Some [], v)"
| "elements_loop st g env rulesCache (i # is) v =
     (let el = elem v i
      in if \<not> e_ours el \<or> e_name el \<in> set rulesCache then elements_loop st g env rulesCache is v
         else (case rules_of st g env i v of
                 (None, v1) \<Rightarrow> (None, v1)
               | (Some rs, v1) \<Rightarrow>
                   if objectLength rs = 0 then elements_loop st g env rulesCache is v1
                   else (case elements_loop st g env (e_name el # rulesCache) is v1 of
                           (r, v2) \<Rightarrow> (map_option (Cons i) r, v2))))"

definition elements :: "vsettings \<Rightarrow> vglobal \<Rightarrow> venv \<Rightarrow> vstate \<Rightarrow> nat list option \<times> vstate" where
  "elements st g env v =
     elements_loop st g env [] (filter (\<lambda>i. e_field (elem v i) \<and> \<not> e_excluded (elem v i) \<and> \<not> e_ignored (elem v i))
       [0..<length (v_elems v)]) v"

fun check_all :: "vsettings \<Rightarrow> vglobal \<Rightarrow> venv \<Rightarrow> nat list \<Rightarrow> vstate \<Rightarrow> bool \<times> vstate" where
  "check_all st g env [] v = (True, v)"
| "check_all st g env (i # is) v =
     (case check st g env i v of (r, v') \<Rightarrow> if r = CThrow then (False, v') else check_all st g env is v')"

definition valid :: "vstate \<Rightarrow> bool" where
  "valid v \<longleftrightarrow> v_errorList v = []"

text \<open>\<open>None\<close> when checking threw.\<close>

definition checkForm :: "vsettings \<Rightarrow> vglobal \<Rightarrow> venv \<Rightarrow> vstate \<Rightarrow> bool option \<times> vstate" where
  "checkForm st g env v =
     (case elements st g env (prepareForm st v) of
        (None, v1) \<Rightarrow> (None, v1)
      | (Some is, v1) \<Rightarrow>
          (case check_all st g env is (v1\<lparr>v_currentElements := is\<rparr>) of
             (ok, v2) \<Rightarrow> (if ok then Some (valid v2) else None, v2)))"

definition form :: "vsettings \<Rightarrow> vglobal \<Rightarrow> venv \<Rightarrow> vstate \<Rightarrow> bool option \<times> vstate" where
  "form st g env v =
     (case checkForm st g env v of
        (None, v1) \<Rightarrow> (None, v1)
      | (Some _, v1) \<Rightarrow>
          let v2 = v1\<lparr>v_submitted := fold (\<lambda>(k, m). obj_set k m) (v_errorMap v1) (v_submitted v1),
                      v_invalid := map (\<lambda>(k, m). (k, IMsg m)) (v_errorMap v1)\<rparr>;
              v3 = (if \<not> valid v2 then log_event EInvalidForm v2 else v2);
              v4 = showErrors st None v3
          in (Some (valid v4), v4))"

definition numberOfInvalids :: "vstate \<Rightarrow> nat" where
  "numberOfInvalids v = length (filter (\<lambda>p. snd p \<noteq> IBool False) (v_invalid v))"

text \<open>The other fields of the element's group are checked first, when they are known to be invalid. A name of the group
  that no field has makes \<open>validationTargetFor\<close> throw.\<close>

fun check_group :: "vsettings \<Rightarrow> vglobal \<Rightarrow> venv \<Rightarrow> string \<Rightarrow> string \<Rightarrow> string obj \<Rightarrow> bool \<Rightarrow> vstate \<Rightarrow> bool option \<times> vstate" where
  "check_group st g env grp self [] result v = (Some result, v)"
| "check_group st g env grp self ((name, testgroup) # groups) result v =
     (if testgroup = grp \<and> name \<noteq> self then
        (case findByName v name of
           [] \<Rightarrow> (None, v)
         | j0 # _ \<Rightarrow>
             (case validationTargetFor v j0 of
                None \<Rightarrow> check_group st g env grp self groups result v
              | Some j \<Rightarrow>
                  if e_name (elem v j) \<in> set (obj_keys (v_invalid v)) then
                    (case check st g env j (v\<lparr>v_currentElements := v_currentElements v @ [j]\<rparr>) of
                       (r, v') \<Rightarrow> if r = CThrow then (None, v')
                                  else check_group st g env grp self groups (r = CTrue \<and> result) v')
                  else check_group st g env grp self groups result v))
      else check_group st g env grp self groups result v)"

definition element_done :: "vsettings \<Rightarrow> nat \<Rightarrow> string \<Rightarrow> bool \<Rightarrow> vstate \<Rightarrow> vstate" where
  "element_done st i name rs v =
     (let v1 = v\<lparr>v_invalid := obj_set name (IBool (\<not> rs)) (v_invalid v)\<rparr>;
          v2 = (if numberOfInvalids v1 = 0 then v1\<lparr>v_toHide := add_nodes (v_toHide v1) (containers st)\<rparr> else v1)
      in upd_elem i (\<lambda>el. el\<lparr>e_attrs := obj_set ''aria-invalid'' (if rs then ''false'' else ''true'') (e_attrs el)\<rparr>)
           (showErrors st None v2))"

definition element :: "vsettings \<Rightarrow> vglobal \<Rightarrow> venv \<Rightarrow> nat \<Rightarrow> vstate \<Rightarrow> bool option \<times> vstate" where
  "element st g env i0 v =
     (case validationTargetFor v i0 of
        None \<Rightarrow> (Some True, v\<lparr>v_invalid := obj_del (e_name (elem v i0)) (v_invalid v)\<rparr>)
      | Some i \<Rightarrow>
          let v1 = (prepareElement st i v)\<lparr>v_currentElements := [i]\<rparr>;
              name = e_name (elem v i)
          in (case (case obj_get (v_groups v1) name of
                      Some (c # s) \<Rightarrow> check_group st g env (c # s) name (v_groups v1) True v1
                    | _ \<Rightarrow> (Some True, v1)) of
                (None, v2) \<Rightarrow> (None, v2)
              | (Some result, v2) \<Rightarrow>
                  (case check st g env i v2 of (r, v3) \<Rightarrow>
                     if r = CThrow then (None, v3)
                     else (Some (result \<and> r \<noteq> CFalse), element_done st i0 name (r \<noteq> CFalse) v3))))"

definition resetForm :: "vsettings \<Rightarrow> vglobal \<Rightarrow> venv \<Rightarrow> vstate \<Rightarrow> bool \<times> vstate" where
  "resetForm st g env v =
     (case elements st g env (hideErrors st (prepareForm st (v\<lparr>v_invalid := [], v_submitted := []\<rparr>))) of
        (None, v1) \<Rightarrow> (False, v1)
      | (Some is, v1) \<Rightarrow>
          let v2 = fold (\<lambda>i. upd_elem i (\<lambda>el. el\<lparr>e_attrs := obj_del ''aria-invalid'' (e_attrs el)\<rparr>)) is
                     (v1\<lparr>v_previous := filter (\<lambda>p. fst p \<notin> set is) (v_previous v1)\<rparr>)
          in (True, resetElements st is v2))"

text \<open>\<open>$(elements).valid()\<close> for elements that are not a form.\<close>

fun valid_elements :: "vsettings \<Rightarrow> vglobal \<Rightarrow> venv \<Rightarrow> nat list \<Rightarrow> bool \<Rightarrow> verror list \<Rightarrow> vstate \<Rightarrow> bool option \<times> vstate" where
  "valid_elements st g env [] ok errorList v = (Some ok, v\<lparr>v_errorList := errorList\<rparr>)"
| "valid_elements st g env (i # is) ok errorList v =
     (case element st g env i v of
        (None, v') \<Rightarrow> (None, v')
      | (Some b, v') \<Rightarrow>
          let ok' = (b \<and> ok)
          in valid_elements st g env is ok' (if \<not> ok' then errorList @ v_errorList v' else errorList) v')"

end
