(* ===== verification/Validator_Events.thy ===== *)
theory Validator_Events
  imports Validator_Form Transition_System
begin

text \<open>
  How a validator starts, and what it does on the events of its form: focus, keys, clicks, submission, and answers to
  remote requests.
\<close>

section \<open>Construction\<close>

text \<open>\<open>init\<close>: the fields of \<open>settings.groups\<close>, and the rules in object form.\<close>

definition group_names :: "pval \<Rightarrow> string list" where
  "group_names value =
     (case value of PStr s \<Rightarrow> split_by is_space s | PArr xs \<Rightarrow> map pstring xs | _ \<Rightarrow> [])"

definition init_groups :: "pval obj \<Rightarrow> string obj" where
  "init_groups gs = fold (\<lambda>(key, value) t. fold (\<lambda>name. obj_set name key) (group_names value) t) gs []"

definition init :: "pval obj \<Rightarrow> msgs obj \<Rightarrow> pval obj \<Rightarrow> felem list \<Rightarrow> elabel list \<Rightarrow> vstate" where
  "init settings_rules messages gs elems labels =
     reset
     \<lparr>v_elems = elems, v_labels = labels, v_hidden = [],
      v_rules = map (\<lambda>(k, r). (k, normalizeRule r)) settings_rules, v_messages = messages,
      v_groups = init_groups gs, v_submitted = [], v_invalid = [], v_errorMap = [], v_errorList = [],
      v_successList = [], v_currentElements = [], v_toShow = [], v_toHide = [], v_pendingRequest = 0, v_pending = [],
      v_formSubmitted = False, v_submitButton = None, v_cancelSubmit = False, v_lastActive = None, v_previous = [],
      v_requests = [], v_blur = [], v_log = []\<rparr>"

section \<open>Submission\<close>

text \<open>The handlers of clicks and submissions are attached only when the setting \<open>onsubmit\<close> is on. A click on a submit button: its
  name and value, and whether it has the class \<open>cancel\<close> or the attribute \<open>formnovalidate\<close>.\<close>

definition submit_click :: "vsettings \<Rightarrow> string \<times> string \<Rightarrow> string option \<Rightarrow> bool \<Rightarrow> vstate \<Rightarrow> vstate" where
  "submit_click st button cls formnovalidate v =
     (if st_onsubmit st then
        v\<lparr>v_submitButton := Some button,
          v_cancelSubmit := v_cancelSubmit v \<or> hasClass cls ''cancel'' \<or> formnovalidate\<rparr>
      else v)"

text \<open>\<open>handle()\<close>: what the submit handler returns, the hidden input that stands in for the button in the form afterwards,
  and the new state.\<close>

definition handle :: "vsettings \<Rightarrow> vstate \<Rightarrow> bool \<times> (string \<times> string) option \<times> vstate" where
  "handle st v =
     (let hidden = (if st_submitHandler st \<noteq> None \<or> v_formSubmitted v then v_submitButton v else None)
      in case st_submitHandler st of
           Some result \<Rightarrow>
             if \<not> st_debug st
             then ((case result of Some b \<Rightarrow> b | None \<Rightarrow> False), None, log_event ESubmitHandler v)
             else (True, hidden, v)
         | None \<Rightarrow> (True, hidden, v))"

definition findLastActive :: "vstate \<Rightarrow> nat option" where
  "findLastActive v =
     (case v_lastActive v of
        Some a \<Rightarrow> if length (filter (\<lambda>er. e_name (elem v (er_element er)) = e_name (elem v a)) (v_errorList v)) = 1
                 then Some a else None
      | None \<Rightarrow> None)"

text \<open>\<open>focusInvalid\<close> focuses the last active field if it has an error, else the first field with one.\<close>

definition focusInvalid :: "vsettings \<Rightarrow> vstate \<Rightarrow> vstate" where
  "focusInvalid st v =
     (if st_focusInvalid st then
        (case findLastActive v of
           Some a \<Rightarrow> log_event (EFocus a) v
         | None \<Rightarrow> (case v_errorList v of er # _ \<Rightarrow> log_event (EFocus (er_element er)) v | [] \<Rightarrow> v))
      else v)"

text \<open>The handler of \<open>submit\<close>: its result (\<open>None\<close> when it threw) and the hidden input. Returning false cancels the
  submission.\<close>

definition submit_handler ::
    "vsettings \<Rightarrow> vglobal \<Rightarrow> venv \<Rightarrow> vstate \<Rightarrow> bool option \<times> (string \<times> string) option \<times> vstate" where
  "submit_handler st g env v =
     (if v_cancelSubmit v then
        (case handle st (v\<lparr>v_cancelSubmit := False\<rparr>) of (r, h, v') \<Rightarrow> (Some r, h, v'))
      else
        (case form st g env v of
           (None, v1) \<Rightarrow> (None, None, v1)
         | (Some True, v1) \<Rightarrow>
             if v_pendingRequest v1 \<noteq> 0 then (Some False, None, v1\<lparr>v_formSubmitted := True\<rparr>)
             else (case handle st v1 of (r, h, v') \<Rightarrow> (Some r, h, v'))
         | (Some False, v1) \<Rightarrow> (Some False, None, focusInvalid st v1)))"

text \<open>A submission by the user: the browser submits unless the handler returned false or, for debugging, prevented the
  default. An exception in the handler does not stop the browser. Without a handler the browser just submits.\<close>

definition user_submit :: "vsettings \<Rightarrow> vglobal \<Rightarrow> venv \<Rightarrow> vstate \<Rightarrow> vstate" where
  "user_submit st g env v =
     (if \<not> st_onsubmit st then log_event (ENative None) v
      else case submit_handler st g env v of
        (r, h, v') \<Rightarrow> if r \<noteq> Some False \<and> \<not> st_debug st then log_event (ENative h) v' else v')"

text \<open>\<open>$(form).trigger("submit")\<close>, where an exception ends the call; true when it returned.\<close>

definition trigger_submit :: "vsettings \<Rightarrow> vglobal \<Rightarrow> venv \<Rightarrow> vstate \<Rightarrow> bool \<times> vstate" where
  "trigger_submit st g env v =
     (if \<not> st_onsubmit st then (True, log_event (ENative None) v)
      else case submit_handler st g env v of
        (None, h, v') \<Rightarrow> (False, v')
      | (Some r, h, v') \<Rightarrow> (True, if r \<and> \<not> st_debug st then log_event (ENative h) v' else v'))"

section \<open>Answers to remote requests\<close>

definition stopRequest :: "vsettings \<Rightarrow> vglobal \<Rightarrow> venv \<Rightarrow> nat \<Rightarrow> bool \<Rightarrow> vstate \<Rightarrow> vstate" where
  "stopRequest st g env i ok v =
     (let v1 = drop_pending st i v
      in if ok \<and> v_pendingRequest v1 = 0 \<and> v_formSubmitted v1 then
           (case form st g env v1 of
              (Some True, v2) \<Rightarrow>
                if v_pendingRequest v2 = 0
                then (case trigger_submit st g env v2 of
                        (returned, v3) \<Rightarrow> if returned then v3\<lparr>v_formSubmitted := False\<rparr> else v3)
                else v2
            | (_, v2) \<Rightarrow> v2)
         else if \<not> ok \<and> v_pendingRequest v1 = 0 \<and> v_formSubmitted v1
         then (log_event EInvalidForm v1)\<lparr>v_formSubmitted := False\<rparr>
         else v1)"

definition set_prev_answer :: "nat \<Rightarrow> (prev \<Rightarrow> prev) \<Rightarrow> vstate \<Rightarrow> vstate" where
  "set_prev_answer i f v = (case map_of (v_previous v) i of Some p \<Rightarrow> set_prev i (f p) v | None \<Rightarrow> v)"

text \<open>The state in which the \<open>success\<close> callback calls \<open>stopRequest\<close> when the answer says the value is valid.\<close>

definition remote_accepted :: "vsettings \<Rightarrow> string \<Rightarrow> vreq \<Rightarrow> vstate \<Rightarrow> vstate" where
  "remote_accepted st port rq v =
     (let i = rq_elem rq; name = e_name (elem v i);
          v1 = set_message name (rq_method rq) (rq_original rq) (v\<lparr>v_requests := obj_del port (v_requests v)\<rparr>)
      in set_prev_answer i (\<lambda>p. p\<lparr>pv_valid := Some True\<rparr>)
           (showErrors st None
             (v1\<lparr>v_toHide := map NLabel (errorsFor st v1 i), v_successList := v_successList v1 @ [i],
                 v_invalid := obj_set name (IBool False) (v_invalid v1)\<rparr>)))"

text \<open>The \<open>success\<close> callback of a request on a port, with the parsed answer.\<close>

definition remote_success :: "vsettings \<Rightarrow> vglobal \<Rightarrow> venv \<Rightarrow> string \<Rightarrow> pval \<Rightarrow> vstate \<Rightarrow> vstate" where
  "remote_success st g env port response v =
     (case obj_get (v_requests v) port of
        None \<Rightarrow> v
      | Some rq \<Rightarrow>
          let i = rq_elem rq; name = e_name (elem v i); method = rq_method rq;
              ok = (response = PBool True \<or> response = PStr ''true'');
              v1 = set_message name method (rq_original rq) (v\<lparr>v_requests := obj_del port (v_requests v)\<rparr>)
          in if ok then
               stopRequest st g env i True (remote_accepted st port rq v)
             else
               (case (if ptruthy response then Some (pstring response) else defaultMessage st g env v1 i method (rq_value rq)) of
                  None \<Rightarrow> v1
                | Some message \<Rightarrow>
                    stopRequest st g env i False
                      (set_prev_answer i (\<lambda>p. p\<lparr>pv_valid := Some False\<rparr>)
                        (showErrors st (Some [(name, message)])
                          ((set_prev_answer i (\<lambda>p. p\<lparr>pv_message := message\<rparr>) v1)
                           \<lparr>v_invalid := obj_set name (IBool True) (v_invalid v1)\<rparr>)))))"

text \<open>A request that fails calls nothing: the plugin gives no \<open>error\<close> callback.\<close>

definition remote_failure :: "string \<Rightarrow> vstate \<Rightarrow> vstate" where
  "remote_failure port v = v\<lparr>v_requests := obj_del port (v_requests v)\<rparr>"

section \<open>Event handlers\<close>

text \<open>\<open>delegate\<close>: events of ignored elements and of other forms' elements are not handled.\<close>

definition delegated :: "bool \<Rightarrow> nat \<Rightarrow> vstate \<Rightarrow> bool" where
  "delegated handler i v \<longleftrightarrow> handler \<and> e_ours (elem v i) \<and> \<not> e_ignored (elem v i)"

definition onfocusin :: "vsettings \<Rightarrow> nat \<Rightarrow> vstate \<Rightarrow> vstate" where
  "onfocusin st i v =
     (let v1 = v\<lparr>v_lastActive := Some i\<rparr>
      in if st_focusCleanup st then
           let v2 = (if st_unhighlight st then unhighlight i (st_errorClass st) (st_validClass st) v1 else v1)
           in hideThese st (map NLabel (errorsFor st v2 i)) v2
         else v1)"

definition onfocusout :: "vsettings \<Rightarrow> vglobal \<Rightarrow> venv \<Rightarrow> nat \<Rightarrow> vstate \<Rightarrow> vstate" where
  "onfocusout st g env i v =
     (if \<not> checkable (elem v i) \<and> (e_name (elem v i) \<in> set (obj_keys (v_submitted v)) \<or> optional v i = VFalse)
      then snd (element st g env i v) else v)"

definition excludedKeys :: "nat list" where
  "excludedKeys = [16, 17, 18, 20, 35, 36, 37, 38, 39, 40, 45, 144, 225]"

definition onkeyup :: "vsettings \<Rightarrow> vglobal \<Rightarrow> venv \<Rightarrow> nat \<Rightarrow> nat \<Rightarrow> vstate \<Rightarrow> vstate" where
  "onkeyup st g env i key v =
     (if (key = 9 \<and> elementValue v i = PStr []) \<or> key \<in> set excludedKeys then v
      else if e_name (elem v i) \<in> set (obj_keys (v_submitted v)) \<or> e_name (elem v i) \<in> set (obj_keys (v_invalid v))
      then snd (element st g env i v)
      else v)"

text \<open>A click on an element, or on an option of a select: then the select is the parent.\<close>

definition onclick :: "vsettings \<Rightarrow> vglobal \<Rightarrow> venv \<Rightarrow> nat \<Rightarrow> nat option \<Rightarrow> vstate \<Rightarrow> vstate" where
  "onclick st g env i parent v =
     (if e_name (elem v i) \<in> set (obj_keys (v_submitted v)) then snd (element st g env i v)
      else (case parent of
              Some p \<Rightarrow> if e_name (elem v p) \<in> set (obj_keys (v_submitted v)) then snd (element st g env p v) else v
            | None \<Rightarrow> v))"

section \<open>The validator as a transition system\<close>

text \<open>What happens to a form: the user works on a field (its value, text, checks and selection change), its events, a
  click on a submit button, submission, the end of a request, and calls of the public operations.\<close>

definition edit_elem :: "pval \<Rightarrow> string \<Rightarrow> bool \<Rightarrow> nat \<Rightarrow> felem \<Rightarrow> felem" where
  "edit_elem val txt chk sel el = el\<lparr>e_val := val, e_text := txt, e_checked := chk, e_selected := sel\<rparr>"

datatype vinput =
    Edit nat pval string bool nat
  | FocusIn nat
  | FocusOut nat
  | KeyUp nat nat
  | Click nat "nat option"
  | Button "string \<times> string" "string option" bool
  | Submit
  | Answer string pval
  | Failure string
  | ValidForm
  | ValidFields "nat list"
  | Blur nat nat
  | ResetForm

definition validator_step :: "vsettings \<Rightarrow> vglobal \<Rightarrow> venv \<Rightarrow> vinput \<Rightarrow> vstate \<Rightarrow> vstate option" where
  "validator_step st g env e v =
     (let on_field = (\<lambda>i handler w. if i < length (v_elems v) \<and> delegated handler i v then Some w else None)
      in case e of
           Edit i x txt chk sel \<Rightarrow> if i < length (v_elems v) then Some (upd_elem i (edit_elem x txt chk sel) v) else None
         | FocusIn i \<Rightarrow> on_field i (st_onfocusin st) (onfocusin st i v)
         | FocusOut i \<Rightarrow> on_field i (st_onfocusout st) (onfocusout st g env i v)
         | KeyUp i key \<Rightarrow> on_field i (st_onkeyup st) (onkeyup st g env i key v)
         | Click i parent \<Rightarrow>
             (if (case parent of Some p \<Rightarrow> p < length (v_elems v) | None \<Rightarrow> True)
              then on_field i (st_onclick st) (onclick st g env i parent v) else None)
         | Button b cls fnv \<Rightarrow> Some (submit_click st b cls fnv v)
         | Submit \<Rightarrow> Some (user_submit st g env v)
         | Answer port response \<Rightarrow> Some (remote_success st g env port response v)
         | Failure port \<Rightarrow> Some (remote_failure port v)
         | ValidForm \<Rightarrow> Some (snd (form st g env v))
         | ValidFields is \<Rightarrow>
             if list_all (\<lambda>i. i < length (v_elems v)) is then Some (snd (valid_elements st g env is True [] v)) else None
         | Blur t i \<Rightarrow> if (t, i) \<in> set (v_blur v) then Some (snd (valid_elements st g env [i] True [] v)) else None
         | ResetForm \<Rightarrow> Some (snd (resetForm st g env v)))"

end
