(* ===== verification/Validator_Correct.thy ===== *)
theory Validator_Correct
  imports Validator_Events
begin

text \<open>
  Properties of the validator: the count of pending remote requests, and which submissions go through. Display
  operations are framed once, in the locale \<open>display_frame\<close>; the reachable states are those of the transition system
  \<open>validator_step\<close>, an instance of \<open>invariant_system\<close>.
\<close>

section \<open>What most operations leave alone\<close>

fun is_native :: "vevent \<Rightarrow> bool" where
  "is_native (ENative h) = True"
| "is_native EInvalidForm = False"
| "is_native EShowErrors = False"
| "is_native (ESuccess i) = False"
| "is_native (EPlacement i) = False"
| "is_native ESubmitHandler = False"
| "is_native (EFocus i) = False"

text \<open>Displaying errors changes classes and attributes of elements, labels, what is shown, and the log of events. Any
  relation that allows these changes allows all display operations.\<close>

locale display_frame =
  fixes K :: "vstate \<Rightarrow> vstate \<Rightarrow> bool"
  assumes upd_elem: "(\<And>el. e_name (f el) = e_name el) \<Longrightarrow> K v w \<Longrightarrow> K v (upd_elem i f w)"
    and labels: "K v w \<Longrightarrow> K v (w\<lparr>v_labels := a\<rparr>)"
    and hidden: "K v w \<Longrightarrow> K v (w\<lparr>v_hidden := b\<rparr>)"
    and toShow: "K v w \<Longrightarrow> K v (w\<lparr>v_toShow := c\<rparr>)"
    and toHide: "K v w \<Longrightarrow> K v (w\<lparr>v_toHide := d\<rparr>)"
    and log: "K v w \<Longrightarrow> \<not> is_native e \<Longrightarrow> K v (log_event e w)"
begin

lemma fold_K: "(\<And>x u. K v u \<Longrightarrow> K v (f x u)) \<Longrightarrow> K v w \<Longrightarrow> K v (fold f xs w)"
  by (induction xs arbitrary: w) auto

lemma upd_label: "K v w \<Longrightarrow> K v (upd_label k f w)"
  by (simp add: upd_label_def labels)

lemma hide_show: "K v w \<Longrightarrow> K v (hide ns w)" "K v w \<Longrightarrow> K v (show_nodes ns w)"
  by (simp_all add: hide_def show_nodes_def hidden)

lemma hideThese: "K v w \<Longrightarrow> K v (hideThese st ns w)"
  unfolding hideThese_def Let_def by (intro hide_show fold_K) (auto intro: upd_label split: dnode.split)

lemma hideErrors: "K v w \<Longrightarrow> K v (hideErrors st w)"
  unfolding hideErrors_def by (rule hideThese)

lemma classes:
  "K v w \<Longrightarrow> K v (set_classes a r is w)" "K v w \<Longrightarrow> K v (highlight i ec vc w)"
  "K v w \<Longrightarrow> K v (unhighlight i ec vc w)" "K v w \<Longrightarrow> K v (remove_class_of c j w)"
  unfolding set_classes_def highlight_def unhighlight_def remove_class_of_def
  by (intro fold_K upd_elem; simp)+

lemma resetElements: "K v w \<Longrightarrow> K v (resetElements st is w)"
  unfolding resetElements_def Let_def by (auto intro!: fold_K classes)

lemma describe_group: "K v w \<Longrightarrow> K v (describe_group gr e w)"
  unfolding describe_group_def by (intro fold_K) (auto intro!: fold_K upd_elem split: prod.split)

lemma link_error: "K v w \<Longrightarrow> K v (link_error st i a b w)"
  unfolding link_error_def Let_def by (auto intro!: upd_elem upd_label describe_group split: option.split list.split)

lemma new_label: "K v w \<Longrightarrow> K v (new_label st i a m w)"
  unfolding new_label_def Let_def by (auto intro!: link_error labels log)

lemma showLabel: "K v w \<Longrightarrow> K v (showLabel st i m w)"
  unfolding showLabel_def Let_def
  by (auto intro!: fold_K upd_label toShow log new_label split: option.split success.split prod.split)

lemma defaultShowErrors: "K v w \<Longrightarrow> K v (defaultShowErrors st w)"
  unfolding defaultShowErrors_def Let_def by (auto intro!: fold_K showLabel classes hideErrors hide_show toShow toHide)

lemma showErrors_None: "K v w \<Longrightarrow> K v (showErrors st None w)"
  unfolding showErrors_def Let_def by (auto intro!: defaultShowErrors log)

end

definition keeps :: "vstate \<Rightarrow> vstate \<Rightarrow> bool" where
  "keeps v w \<longleftrightarrow> map e_name (v_elems w) = map e_name (v_elems v) \<and> v_pending w = v_pending v
     \<and> v_pendingRequest w = v_pendingRequest v \<and> v_requests w = v_requests v \<and> v_blur w = v_blur v
     \<and> filter is_native (v_log w) = filter is_native (v_log v)"

lemma names_upd_elem: "(\<And>el. e_name (f el) = e_name el) \<Longrightarrow> map e_name (v_elems (upd_elem i f w)) = map e_name (v_elems w)"
  by (cases "i < length (v_elems w)")
    (simp_all add: upd_elem_def map_update list_update_same_conv list_update_beyond)

interpretation keep: display_frame keeps
proof
  fix f :: "felem \<Rightarrow> felem" and v w i
  assume f: "\<And>el. e_name (f el) = e_name el" and k: "keeps v w"
  show "keeps v (upd_elem i f w)"
    using k names_upd_elem [where f = f, OF f] by (simp add: keeps_def upd_elem_def)
qed (simp_all add: keeps_def log_event_def)

interpretation error_list: display_frame "\<lambda>v w. v_errorList w = v_errorList v"
  by unfold_locales (simp_all add: upd_elem_def log_event_def)

named_theorems keeps_intros

lemma keeps_refl [keeps_intros]: "keeps v v"
  by (simp add: keeps_def)

lemma keeps_trans: "keeps u v \<Longrightarrow> keeps v w \<Longrightarrow> keeps u w"
  by (simp add: keeps_def)

lemma keeps_fields [keeps_intros]:
  "keeps v w \<Longrightarrow> keeps v (w\<lparr>v_errorList := d\<rparr>)" "keeps v w \<Longrightarrow> keeps v (w\<lparr>v_errorMap := d2\<rparr>)"
  "keeps v w \<Longrightarrow> keeps v (w\<lparr>v_successList := d3\<rparr>)" "keeps v w \<Longrightarrow> keeps v (w\<lparr>v_currentElements := d4\<rparr>)"
  "keeps v w \<Longrightarrow> keeps v (w\<lparr>v_submitted := d5\<rparr>)" "keeps v w \<Longrightarrow> keeps v (w\<lparr>v_invalid := d6\<rparr>)"
  "keeps v w \<Longrightarrow> keeps v (w\<lparr>v_messages := d7\<rparr>)" "keeps v w \<Longrightarrow> keeps v (w\<lparr>v_previous := d8\<rparr>)"
  "keeps v w \<Longrightarrow> keeps v (w\<lparr>v_formSubmitted := d9\<rparr>)" "keeps v w \<Longrightarrow> keeps v (w\<lparr>v_cancelSubmit := d9\<rparr>)"
  "keeps v w \<Longrightarrow> keeps v (w\<lparr>v_submitButton := d10\<rparr>)" "keeps v w \<Longrightarrow> keeps v (w\<lparr>v_lastActive := d11\<rparr>)"
  by (simp_all add: keeps_def)

lemmas keeps_fold = keep.fold_K
lemmas keeps_upd_elem = keep.upd_elem

lemmas keeps_display [keeps_intros] =
  keep.upd_elem keep.labels keep.hidden keep.toShow keep.toHide keep.log keep.classes keep.resetElements keep.hideThese
  keep.hideErrors keep.showErrors_None

lemma keeps_merge_errors: "keeps v w \<Longrightarrow> keeps v (merge_errors e w)"
  unfolding merge_errors_def Let_def by (intro keeps_intros)

lemma keeps_showErrors [keeps_intros]: "keeps v w \<Longrightarrow> keeps v (showErrors st e w)"
  unfolding showErrors_def Let_def
  by (auto intro!: keep.defaultShowErrors keep.log keeps_merge_errors split: option.split)

section \<open>Pending requests are counted\<close>

definition vinv :: "vstate \<Rightarrow> bool" where
  "vinv v \<longleftrightarrow> distinct (v_pending v) \<and> v_pendingRequest v = int (length (v_pending v)) \<and> distinct (obj_keys (v_requests v))
     \<and> (\<forall>(port, rq)\<in>set (v_requests v). rq_elem rq < length (v_elems v)
          \<and> port = elementAjaxPort (elem v (rq_elem rq)) \<and> e_name (elem v (rq_elem rq)) \<in> set (v_pending v))
     \<and> (\<forall>(t, i)\<in>set (v_blur v). i < length (v_elems v))"

definition natives :: "vstate \<Rightarrow> vevent list" where
  "natives v = filter is_native (v_log v)"

text \<open>A call that keeps the invariant, the fields and the submissions made so far.\<close>

definition sound :: "vstate \<Rightarrow> vstate \<Rightarrow> bool" where
  "sound v w \<longleftrightarrow> map e_name (v_elems w) = map e_name (v_elems v) \<and> natives w = natives v \<and> (vinv v \<longrightarrow> vinv w)"

lemma same_names:
  assumes "map e_name (v_elems w) = map e_name (v_elems v)"
  shows "length (v_elems w) = length (v_elems v)" "i < length (v_elems v) \<Longrightarrow> e_name (elem w i) = e_name (elem v i)"
proof -
  show len: "length (v_elems w) = length (v_elems v)" using assms by (metis length_map)
  show "i < length (v_elems v) \<Longrightarrow> e_name (elem w i) = e_name (elem v i)" using assms len by (metis nth_map)
qed

lemma sound_refl [simp]: "sound v v"
  by (simp add: sound_def)

lemma sound_trans [trans]: "sound u v \<Longrightarrow> sound v w \<Longrightarrow> sound u w"
  by (simp add: sound_def)

lemma sound_length: "sound v w \<Longrightarrow> length (v_elems w) = length (v_elems v)"
  by (auto simp: sound_def dest: same_names(1))

lemma keeps_sound: "keeps v w \<Longrightarrow> sound v w"
proof -
  assume k: "keeps v w"
  then have n: "map e_name (v_elems w) = map e_name (v_elems v)" by (simp add: keeps_def)
  have "vinv v \<Longrightarrow> vinv w"
    using k same_names [OF n] unfolding vinv_def keeps_def elementAjaxPort_def by (auto split: prod.splits)
  then show ?thesis using k by (simp add: sound_def keeps_def natives_def)
qed

lemma sound_keeps: "sound v u \<Longrightarrow> keeps u w \<Longrightarrow> sound v w"
  using keeps_sound sound_trans by blast

lemma obj_set_mem: "(k, x) \<in> set (obj_set l y ob) \<Longrightarrow> (k = l \<and> x = y) \<or> (k, x) \<in> set ob"
  by (induction ob) (auto split: if_splits)

lemma obj_del_mem: "(k, x) \<in> set (obj_del l ob) \<longleftrightarrow> k \<noteq> l \<and> (k, x) \<in> set ob"
  by (auto simp: obj_del_def)

lemma length_removeAll_distinct: "distinct xs \<Longrightarrow> x \<in> set xs \<Longrightarrow> length (removeAll x xs) = length xs - 1"
  by (simp add: distinct_remove1_removeAll [symmetric] length_remove1)

text \<open>Taking a request off the table leaves a state in which its field may stop being pending.\<close>

lemma sound_drop_pending:
  assumes i: "i < length (v_elems v)" and pending: "e_name (elem v i) \<in> set (v_pending v)"
    and free: "elementAjaxPort (elem v i) \<notin> set (obj_keys (v_requests v))"
  shows "sound v (drop_pending st i v)"
proof -
  let ?n = "e_name (elem v i)"
  let ?w = "v\<lparr>v_pendingRequest := clamp_dec (v_pendingRequest v), v_pending := removeAll ?n (v_pending v)\<rparr>"
  have "vinv ?w" if inv: "vinv v"
  proof -
    have "0 < length (v_pending v)" using pending by auto
    moreover have "length (removeAll ?n (v_pending v)) = length (v_pending v) - 1"
      using inv pending by (intro length_removeAll_distinct) (simp_all add: vinv_def)
    moreover have "v_pendingRequest v = int (length (v_pending v))" using inv by (simp add: vinv_def)
    ultimately have "clamp_dec (v_pendingRequest v) = int (length (removeAll ?n (v_pending v)))"
      by (auto simp: clamp_dec_def Let_def of_nat_diff Suc_leI)
    moreover have "rq_elem rq < length (v_elems v) \<and> port = elementAjaxPort (elem v (rq_elem rq))
        \<and> e_name (elem v (rq_elem rq)) \<in> set (removeAll ?n (v_pending v))" if rq: "(port, rq) \<in> set (v_requests v)" for port rq
    proof -
      have "port \<noteq> elementAjaxPort (elem v i)" using rq free by force
      then show ?thesis using inv rq by (auto simp: vinv_def elementAjaxPort_def)
    qed
    ultimately show ?thesis using inv by (auto simp: vinv_def distinct_removeAll)
  qed
  then have "sound v ?w" by (simp add: sound_def natives_def)
  moreover have "sound ?w (drop_pending st i v)"
    unfolding drop_pending_def by (intro keeps_sound keeps_intros)
  ultimately show ?thesis by (rule sound_trans)
qed

lemma sound_ajaxAbort: "sound v (ajaxAbort port v)"
  by (auto simp: sound_def natives_def vinv_def ajaxAbort_def distinct_obj_del obj_del_mem)

lemma sound_abortRequest: "i < length (v_elems v) \<Longrightarrow> sound v (abortRequest st i v)"
proof (cases "e_name (elem v i) \<in> set (v_pending v)")
  case True
  assume i: "i < length (v_elems v)"
  let ?p = "elementAjaxPort (elem v i)"
  have w: "elem (ajaxAbort ?p v) i = elem v i" "length (v_elems (ajaxAbort ?p v)) = length (v_elems v)"
    "v_pending (ajaxAbort ?p v) = v_pending v" by (simp_all add: ajaxAbort_def)
  have "elementAjaxPort (elem v i) \<notin> set (obj_keys (v_requests (ajaxAbort ?p v)))"
    using set_keys_obj_del [of ?p "v_requests v"] by (simp add: ajaxAbort_def)
  then have "sound (ajaxAbort ?p v) (drop_pending st i (ajaxAbort ?p v))"
    using sound_drop_pending [of i "ajaxAbort ?p v" st] i True w by simp
  with sound_ajaxAbort [of v ?p] have "sound v (drop_pending st i (ajaxAbort ?p v))" by (rule sound_trans)
  then show ?thesis using True by (simp add: abortRequest_def)
qed (simp add: abortRequest_def)

lemma startRequest_pending:
  assumes i: "i < length (v_elems v)"
  shows "sound v (startRequest st i v) \<and> e_name (elem v i) \<in> set (v_pending (startRequest st i v))"
proof (cases "e_name (elem v i) \<in> set (v_pending v)")
  case False
  let ?n = "e_name (elem v i)"
  let ?w = "v\<lparr>v_pendingRequest := v_pendingRequest v + 1, v_pending := v_pending v @ [?n]\<rparr>"
  have "sound v ?w" using False by (auto simp: sound_def natives_def vinv_def)
  moreover have "startRequest st i v =
      upd_elem i (\<lambda>el. el\<lparr>e_class := addClass (e_class el) (ClassString (st_pendingClass st))\<rparr>) ?w"
    using False by (simp add: startRequest_def upd_elem_def)
  then have "sound ?w (startRequest st i v)" by (auto intro!: keeps_sound keeps_intros)
  ultimately show ?thesis using False sound_trans by (auto simp: startRequest_def)
qed (simp add: startRequest_def)

lemma sound_ajax_abort_mode:
  assumes "i < length (v_elems v)" "e_name (elem v i) \<in> set (v_pending v)" "rq_elem rq = i"
  shows "sound v (ajax_abort_mode (elementAjaxPort (elem v i)) rq v)"
proof -
  let ?p = "elementAjaxPort (elem v i)"
  have "vinv (ajax_abort_mode ?p rq v)" if "vinv v"
    using that assms unfolding vinv_def ajax_abort_mode_def ajaxAbort_def Let_def
    by (auto simp: distinct_obj_set distinct_obj_del obj_del_mem dest!: obj_set_mem)
  then show ?thesis by (simp add: sound_def natives_def ajax_abort_mode_def ajaxAbort_def Let_def)
qed

lemma keeps_set_message [keeps_intros]: "keeps v w \<Longrightarrow> keeps v (set_message n m x w)"
  unfolding set_message_def by (auto intro!: keeps_intros split: option.split msgs.split)

lemma keeps_set_prev [keeps_intros]: "keeps v w \<Longrightarrow> keeps v (set_prev i p w)" "keeps v w \<Longrightarrow> keeps v (set_prev_answer i f w)"
  unfolding set_prev_answer_def set_prev_def by (auto intro!: keeps_intros split: option.split)

lemma send_request_sound:
  assumes i: "i < length (v_elems v)" and k: "keeps v w" and rq: "rq_elem rq = i"
  shows "sound v (ajax_abort_mode (elementAjaxPort (elem v i)) rq (startRequest st i w))"
proof -
  have n: "map e_name (v_elems w) = map e_name (v_elems v)" using k by (simp add: keeps_def)
  have iw: "i < length (v_elems w)" using i same_names [OF n] by simp
  let ?u = "startRequest st i w"
  note s = startRequest_pending [OF iw, of st]
  have u: "i < length (v_elems ?u)" "e_name (elem ?u i) = e_name (elem w i)"
    using s iw same_names [of ?u w] by (auto simp: sound_def)
  then have port: "elementAjaxPort (elem v i) = elementAjaxPort (elem ?u i)"
    using same_names(2) [OF n i] by (simp add: elementAjaxPort_def)
  have "sound ?u (ajax_abort_mode (elementAjaxPort (elem v i)) rq ?u)"
    unfolding port using u s rq by (intro sound_ajax_abort_mode) auto
  then show ?thesis using keeps_sound [OF k] s sound_trans by blast
qed

lemma keeps_ensure [keeps_intros]: "keeps v w \<Longrightarrow> keeps v (ensure_messages n w)"
  unfolding ensure_messages_def by (auto intro!: keeps_intros)

lemma start_remote_sound:
  assumes "i < length (v_elems v)" "keeps v w"
  shows "sound v (start_remote st i m val key p w)"
proof -
  have n: "map e_name (v_elems w) = map e_name (v_elems v)" using assms(2) by (simp add: keeps_def)
  have "elementAjaxPort (elem w i) = elementAjaxPort (elem v i)"
    using same_names(2) [OF n assms(1)] by (simp add: elementAjaxPort_def)
  then show ?thesis unfolding start_remote_def using assms by (auto intro!: send_request_sound keeps_intros)
qed

lemma remote_sound: "i < length (v_elems v) \<Longrightarrow> sound v (snd (remote st g env i value prm method v))"
proof -
  assume i: "i < length (v_elems v)"
  have k: "keeps v (set_message n m x (ensure_messages n' v))" for n m x n' by (intro keeps_intros)
  have "sound v (snd (remote_with st env i value prm method p v))" for p
    unfolding remote_with_def Let_def
    using start_remote_sound [OF i k] keeps_sound [OF keeps_set_prev(1) [OF k]] by simp
  then show ?thesis unfolding remote_def by (auto split: vresult.split option.split)
qed

lemma equalTo_sound: "i < length (v_elems v) \<Longrightarrow> sound v (snd (equalTo_method st env i value prm v))"
proof -
  assume i: "i < length (v_elems v)"
  let ?w = "fold (\<lambda>t. upd_elem t (\<lambda>el. el\<lparr>e_class := addClass (e_class el) (ClassString ''validate-equalTo-blur'')\<rparr>))
    (equalTo_targets env prm) v"
  have k: "keeps v ?w" by (intro keeps_fold keeps_upd_elem keeps_refl) simp
  have "sound ?w (?w\<lparr>v_blur := v_blur v @ map (\<lambda>t. (t, i)) (equalTo_targets env prm)\<rparr>)"
    using i sound_length [OF keeps_sound [OF k]] k by (auto simp: sound_def natives_def vinv_def keeps_def)
  with keeps_sound [OF k] show ?thesis
    unfolding equalTo_method_def Let_def by (auto intro: sound_trans)
qed

lemma run_method_sound: "i < length (v_elems v) \<Longrightarrow> sound v (snd (run_method st g env i name value prm v))"
  unfolding run_method_def by (auto split: option.split vmethod.split simp: remote_sound equalTo_sound)

lemma rules_of_keeps: "keeps v (snd (rules_of st g env i v))"
  unfolding rules_of_def by (auto split: prod.split intro!: keeps_intros)

lemma formatAndAdd_keeps: "formatAndAdd st g env i m p v = Some w \<Longrightarrow> keeps v w"
  unfolding formatAndAdd_def by (auto intro!: keeps_intros)

lemma check_loop_sound:
  "i < length (v_elems v) \<Longrightarrow> sound v (snd (check_loop st g env n i val d rs v))"
proof (induction rs arbitrary: v d)
  case (Cons r rs)
  obtain m p where r: "r = (m, p)" by (cases r)
  obtain x w where w: "run_method st g env i m val p v = (x, w)" by (cases "run_method st g env i m val p v")
  have s: "sound v w" using run_method_sound [OF Cons.prems, of st g env m val p] w by simp
  have IH: "sound v (snd (check_loop st g env n i val d' rs w))" for d'
    using Cons s sound_length [OF s] sound_trans [OF s] by metis
  note k = sound_keeps [OF s]
  show ?case using IH s
    by (cases x) (auto simp: r w intro!: k keeps_intros dest: formatAndAdd_keeps split: option.split)
qed simp

lemma target_range: "validationTargetFor v i = Some j \<Longrightarrow> i < length (v_elems v) \<Longrightarrow> j < length (v_elems v)"
proof -
  assume t: "validationTargetFor v i = Some j" and i: "i < length (v_elems v)"
  let ?c = "if checkable (elem v i) then findByName v (e_name (elem v i)) else [i]"
  obtain js where "filter (\<lambda>j. \<not> e_ignored (elem v j)) ?c = j # js"
    using t unfolding validationTargetFor_def by (auto split: list.splits)
  then have "j \<in> set (filter (\<lambda>j. \<not> e_ignored (elem v j)) ?c)" by (metis list.set_intros(1))
  then have "j \<in> set ?c" by simp
  then show ?thesis using i by (auto simp: findByName_def split: if_splits)
qed

lemma check_rules_sound:
  assumes i: "i < length (v_elems v)"
  shows "sound v (snd (check_rules st g env i rs v))"
proof -
  have va: "sound v (abortRequest st i v)" using sound_abortRequest [OF i] .
  have loop: "sound v u" if "check_loop st g env n i val False rs' (abortRequest st i v) = (x, u)" for n val rs' x u
    using that va check_loop_sound [of i "abortRequest st i v" st g env n val False rs'] i sound_length [OF va]
    by (auto intro: sound_trans)
  have succ: "sound v u \<Longrightarrow> sound v (u\<lparr>v_successList := l\<rparr>)" for u l
    by (erule sound_keeps) (intro keeps_intros)
  obtain val rs' where n: "(case normalizer_of st rs of Some f \<Rightarrow> (call_norm env f (elementValue v i), obj_del ''normalizer'' rs)
      | None \<Rightarrow> (elementValue v i, rs)) = (val, rs')" by fastforce
  obtain x u where l: "check_loop st g env (length rs) i val False rs' (abortRequest st i v) = (x, u)" by fastforce
  show ?thesis unfolding check_rules_def n Let_def prod.case l
    using loop [OF l] succ by (cases x) auto
qed

lemma check_sound: "i < length (v_elems v) \<Longrightarrow> sound v (snd (check st g env i v))"
proof (cases "validationTargetFor v i")
  case (Some j)
  assume "i < length (v_elems v)"
  then have j: "j < length (v_elems v)" using Some target_range by blast
  obtain rso w where w: "rules_of st g env j v = (rso, w)" by (cases "rules_of st g env j v")
  then have vw: "sound v w" using keeps_sound [OF rules_of_keeps, of v st g env j] by simp
  then have "sound v (snd (check_rules st g env j rs w))" for rs
    using check_rules_sound [OF j [folded sound_length [OF vw]]] sound_trans by blast
  then show ?thesis using vw by (simp add: check_def Some w split: option.split)
qed (simp add: check_def)

lemma elements_loop_keeps: "keeps v (snd (elements_loop st g env c is v))"
proof (induction st g env c "is" v rule: elements_loop.induct)
  case (2 st g env c i "is" v)
  obtain r w where w: "rules_of st g env i v = (r, w)" by (cases "rules_of st g env i v")
  have k: "keeps v w" using rules_of_keeps [of v st g env i] w by simp
  note IH = 2(1) [OF refl] 2(2) [OF refl _ w [symmetric]] 2(3) [OF refl _ w [symmetric]]
  show ?case
  proof (cases "\<not> e_ours (elem v i) \<or> e_name (elem v i) \<in> set c")
    case True
    then show ?thesis using 2(1) [OF refl] by simp
  next
    case False
    then show ?thesis
      using k keeps_trans [OF k] IH by (cases r) (auto simp: w Let_def split: prod.split)
  qed
qed (simp add: keeps_refl)

lemma elements_loop_range:
  "elements_loop st g env c is v = (Some js, w) \<Longrightarrow> set js \<subseteq> set is"
proof (induction "is" arbitrary: c v js w)
  case (Cons i "is")
  obtain r u where u: "rules_of st g env i v = (r, u)" by fastforce
  show ?case
  proof (cases "\<not> e_ours (elem v i) \<or> e_name (elem v i) \<in> set c")
    case True
    then have "elements_loop st g env c is v = (Some js, w)" using Cons.prems by (simp add: Let_def)
    from Cons.IH [OF this] show ?thesis by auto
  next
    case False
    show ?thesis
    proof (cases r)
      case (Some rs)
      show ?thesis
      proof (cases "objectLength rs = 0")
        case True
        then have "elements_loop st g env c is u = (Some js, w)" using Cons.prems False Some u by (simp add: Let_def)
        from Cons.IH [OF this] show ?thesis by auto
      next
        case more: False
        obtain ks x where ks: "elements_loop st g env (e_name (elem v i) # c) is u = (ks, x)" by fastforce
        then obtain ls where ls: "ks = Some ls" "js = i # ls" using Cons.prems False Some u more by auto
        from Cons.IH [OF ks [unfolded ls]] show ?thesis using ls by auto
      qed
    qed (use Cons False u in auto)
  qed
qed simp

lemma elements_keeps: "keeps v (snd (elements st g env v))"
  unfolding elements_def by (rule elements_loop_keeps)

lemma elements_range: "elements st g env v = (Some is, w) \<Longrightarrow> list_all (\<lambda>i. i < length (v_elems w)) is"
proof -
  assume e: "elements st g env v = (Some is, w)"
  have "length (v_elems w) = length (v_elems v)"
    using elements_keeps [of v st g env] e by (auto simp: keeps_def dest: same_names(1))
  then show ?thesis using elements_loop_range [OF e [unfolded elements_def]] by (auto simp: list_all_iff)
qed

lemma check_all_sound:
  "list_all (\<lambda>i. i < length (v_elems v)) is \<Longrightarrow> sound v (snd (check_all st g env is v))"
proof (induction "is" arbitrary: v)
  case (Cons i "is")
  obtain r w where w: "check st g env i v = (r, w)" by (cases "check st g env i v")
  have s: "sound v w" using check_sound [of i v st g env] Cons.prems w by simp
  show ?case using Cons s sound_length [OF s] sound_trans [OF s] by (simp add: w)
qed simp

lemma keeps_reset [keeps_intros]:
  "keeps v w \<Longrightarrow> keeps v (reset w)" "keeps v w \<Longrightarrow> keeps v (prepareForm st w)" "keeps v w \<Longrightarrow> keeps v (prepareElement st i w)"
  unfolding prepareForm_def prepareElement_def reset_def resetInternals_def Let_def by (intro keeps_intros; assumption)+

lemma checkForm_sound: "sound v (snd (checkForm st g env v))"
proof -
  obtain r w where w: "elements st g env (prepareForm st v) = (r, w)" by fastforce
  have k: "keeps v w" using elements_keeps [of "prepareForm st v" st g env] keeps_reset(2) [OF keeps_refl] w keeps_trans by fastforce
  show ?thesis
  proof (cases r)
    case None
    then show ?thesis using keeps_sound [OF k] by (simp add: checkForm_def w)
  next
    case (Some "is")
    let ?u = "w\<lparr>v_currentElements := is\<rparr>"
    have u: "keeps v ?u" using k by (intro keeps_intros)
    obtain ok x where x: "check_all st g env is ?u = (ok, x)" by fastforce
    have "sound ?u (snd (check_all st g env is ?u))" using elements_range w Some by (intro check_all_sound) auto
    then show ?thesis using sound_trans [OF keeps_sound [OF u]] by (simp add: checkForm_def w Some x)
  qed
qed

lemma form_sound: "sound v (snd (form st g env v))"
proof -
  obtain r w where w: "checkForm st g env v = (r, w)" by fastforce
  have s: "sound v w" using checkForm_sound [of v st g env] w by simp
  show ?thesis
    by (cases r) (auto simp: form_def w s Let_def intro!: sound_keeps [OF s] keeps_intros)
qed

lemma check_push_sound:
  assumes "j < length (v_elems v)"
  shows "sound v (snd (check st g env j (v\<lparr>v_currentElements := l\<rparr>)))"
proof -
  have "keeps v (v\<lparr>v_currentElements := l\<rparr>)" by (intro keeps_intros)
  moreover have "j < length (v_elems (v\<lparr>v_currentElements := l\<rparr>))" using assms by simp
  ultimately show ?thesis using check_sound keeps_sound sound_trans by blast
qed

lemma check_group_sound: "sound v (snd (check_group st g env gr self gs result v))"
proof (induction gs arbitrary: result v)
  case (Cons p gs)
  obtain name tg where p: "p = (name, tg)" by (cases p)
  consider (other) "\<not> (tg = gr \<and> name \<noteq> self)" | (none) "tg = gr \<and> name \<noteq> self" "findByName v name = []"
    | (field) j0 js where "tg = gr \<and> name \<noteq> self" "findByName v name = j0 # js" by (cases "findByName v name") auto
  then show ?case
  proof cases
    case other
    then have "check_group st g env gr self (p # gs) result v = check_group st g env gr self gs result v"
      by (simp only: p check_group.simps if_False)
    then show ?thesis using Cons by simp
  next
    case none
    then show ?thesis by (simp add: p)
  next
    case field
    have "j0 \<in> set (findByName v name)" using field(2) by simp
    then have j0: "j0 < length (v_elems v)" by (simp add: findByName_def)
    show ?thesis
    proof (cases "validationTargetFor v j0")
      case None
      then show ?thesis using field Cons by (simp add: p)
    next
      case (Some j)
      obtain r u where u: "check st g env j (v\<lparr>v_currentElements := v_currentElements v @ [j]\<rparr>) = (r, u)" by fastforce
      have "sound v u" using check_push_sound [OF target_range [OF Some j0]] u by (metis snd_conv)
      then have "sound v (snd (check_group st g env gr self gs b u))" for b using Cons sound_trans by blast
      then show ?thesis using field Some u \<open>sound v u\<close> Cons by (simp add: p)
    qed
  qed
qed simp

lemma element_sound: "i < length (v_elems v) \<Longrightarrow> sound v (snd (element st g env i v))"
proof (cases "validationTargetFor v i")
  case None
  have "keeps v (v\<lparr>v_invalid := l\<rparr>)" for l by (intro keeps_intros)
  then show ?thesis using keeps_sound by (simp add: element_def None)
next
  case (Some j)
  assume i: "i < length (v_elems v)"
  let ?v1 = "(prepareElement st j v)\<lparr>v_currentElements := [j]\<rparr>"
  have k1: "sound v ?v1" by (intro keeps_sound keeps_intros)
  obtain r2 v2 where v2: "(case obj_get (v_groups ?v1) (e_name (elem v j)) of
      Some (c # s) \<Rightarrow> check_group st g env (c # s) (e_name (elem v j)) (v_groups ?v1) True ?v1 | _ \<Rightarrow> (Some True, ?v1)) = (r2, v2)"
    by fastforce
  have "sound ?v1 v2" using v2 check_group_sound [of ?v1 st g env _ "e_name (elem v j)" "v_groups ?v1" True]
    by (auto split: option.splits list.splits) (metis snd_conv)
  then have s2: "sound v v2" using k1 sound_trans by blast
  obtain r3 v3 where v3: "check st g env j v2 = (r3, v3)" by fastforce
  have "j < length (v_elems v2)" using target_range [OF Some i] sound_length [OF s2] by simp
  then have s3: "sound v v3" using check_sound [of j v2 st g env] v3 sound_trans [OF s2] by simp
  have "keeps v3 (element_done st i n b v3)" for n b
    unfolding element_done_def Let_def by (auto intro!: keeps_intros)
  then have "sound v (element_done st i n b v3)" for n b using sound_keeps [OF s3] by blast
  then show ?thesis unfolding element_def Some option.case Let_def v2 using s2 s3 v3 by (cases r2) simp_all
qed

lemma valid_elements_sound:
  "list_all (\<lambda>i. i < length (v_elems v)) is \<Longrightarrow> sound v (snd (valid_elements st g env is ok l v))"
proof (induction "is" arbitrary: ok l v)
  case Nil
  have "keeps v (v\<lparr>v_errorList := l\<rparr>)" by (intro keeps_intros)
  then show ?case using keeps_sound by simp
next
  case (Cons i "is")
  obtain r w where w: "element st g env i v = (r, w)" by fastforce
  have s: "sound v w" using element_sound [of i v st g env] Cons.prems w by simp
  show ?case using Cons s sound_length [OF s] sound_trans [OF s] by (cases r) (simp_all add: w Let_def)
qed

lemma resetForm_sound: "sound v (snd (resetForm st g env v))"
proof -
  let ?u = "hideErrors st (prepareForm st (v\<lparr>v_invalid := [], v_submitted := []\<rparr>))"
  obtain r w where w: "elements st g env ?u = (r, w)" by fastforce
  have "keeps v ?u" by (intro keeps_intros)
  then have k: "keeps v w" using elements_keeps [of ?u st g env] w keeps_trans by fastforce
  show ?thesis using k
    by (cases r) (auto simp: resetForm_def w Let_def intro!: keeps_sound keeps_fold keeps_intros)
qed

section \<open>Submission and answers\<close>

lemma handle_sound: "handle st v = (r, h, w) \<Longrightarrow> sound v w"
  unfolding handle_def Let_def by (auto split: option.splits if_splits intro!: keeps_sound keeps_intros)

lemma focusInvalid_keeps: "keeps v (focusInvalid st v)"
  unfolding focusInvalid_def by (auto split: option.split list.split intro!: keeps_intros)

text \<open>The submit handler lets a form through only when it is valid with no request pending, when validation was
  cancelled, or when checking threw.\<close>

lemma submit_handler_sound:
  assumes "submit_handler st g env v = (r, h, w)"
  shows "sound v w \<and> (r \<noteq> Some False \<longrightarrow> v_cancelSubmit v \<or> fst (form st g env v) = None
    \<or> (fst (form st g env v) = Some True \<and> v_pendingRequest (snd (form st g env v)) = 0))"
proof (cases "v_cancelSubmit v")
  case True
  obtain r' h' w' where h: "handle st (v\<lparr>v_cancelSubmit := False\<rparr>) = (r', h', w')" by (metis prod_cases3)
  have "sound v (v\<lparr>v_cancelSubmit := False\<rparr>)" by (intro keeps_sound keeps_intros)
  then have "sound v w'" using handle_sound [OF h] sound_trans by blast
  then show ?thesis using assms True h by (simp add: submit_handler_def)
next
  case False
  obtain b u where f: "form st g env v = (b, u)" by fastforce
  have s: "sound v u" using form_sound [of v st g env] f by simp
  obtain r' h' w' where h: "handle st u = (r', h', w')" by (metis prod_cases3)
  have "sound v w'" "sound v (u\<lparr>v_formSubmitted := True\<rparr>)" "sound v (focusInvalid st u)"
    using s sound_trans handle_sound [OF h] sound_keeps [OF s] focusInvalid_keeps keeps_fields(9) [OF keeps_refl] by blast+
  then show ?thesis using assms False f s h
    by (auto simp: submit_handler_def split: option.splits bool.splits if_splits)
qed

definition safe :: "vstate \<Rightarrow> vstate \<Rightarrow> bool" where
  "safe v w \<longleftrightarrow> (vinv v \<longrightarrow> vinv w \<and> map e_name (v_elems w) = map e_name (v_elems v))"

lemma sound_safe: "sound v w \<Longrightarrow> safe v w"
  by (simp add: sound_def safe_def)

lemma safe_trans: "safe u v \<Longrightarrow> safe v w \<Longrightarrow> safe u w"
  by (simp add: safe_def)

lemma safe_log: "safe v w \<Longrightarrow> safe v (log_event e w)"
  by (simp add: safe_def vinv_def log_event_def)

lemma safe_submitted: "safe v w \<Longrightarrow> safe v (w\<lparr>v_formSubmitted := b\<rparr>)"
  by (simp add: safe_def vinv_def)

lemma user_submit_safe: "safe v (user_submit st g env v)"
proof -
  obtain r h w where w: "submit_handler st g env v = (r, h, w)" by (metis prod_cases3)
  then have "safe v w" using submit_handler_sound sound_safe by blast
  moreover have "safe v v" by (simp add: safe_def)
  ultimately show ?thesis by (auto simp: user_submit_def w safe_log)
qed

lemma trigger_submit_safe: "safe v (snd (trigger_submit st g env v))"
proof -
  obtain r h w where w: "submit_handler st g env v = (r, h, w)" by (metis prod_cases3)
  then have "safe v w" using submit_handler_sound sound_safe by blast
  moreover have "safe v v" by (simp add: safe_def)
  ultimately show ?thesis by (cases r) (auto simp: trigger_submit_def w safe_log)
qed

lemma stopRequest_safe:
  assumes "i < length (v_elems v)" "e_name (elem v i) \<in> set (v_pending v)"
    "elementAjaxPort (elem v i) \<notin> set (obj_keys (v_requests v))"
  shows "safe v (stopRequest st g env i ok v)"
proof -
  let ?v1 = "drop_pending st i v"
  have s1: "safe v ?v1" using sound_drop_pending [OF assms] by (rule sound_safe)
  obtain b v2 where v2: "form st g env ?v1 = (b, v2)" by fastforce
  have s2: "safe v v2" using form_sound [of ?v1 st g env] v2 sound_safe safe_trans [OF s1] by fastforce
  obtain c v3 where v3: "trigger_submit st g env v2 = (c, v3)" by fastforce
  have s3: "safe v v3" using trigger_submit_safe [of v2 st g env] v3 safe_trans [OF s2] by simp
  show ?thesis using s1 s2 s3
    by (auto simp: stopRequest_def Let_def v2 v3 safe_log safe_submitted split: option.split bool.split)
qed

text \<open>When an answer has arrived and only messages and displays have changed since, the check of its field is still pending.\<close>

lemma answered_pending:
  assumes "vinv v" "obj_get (v_requests v) port = Some rq" "keeps (ajaxAbort port v) u"
  shows "rq_elem rq < length (v_elems u)" "e_name (elem u (rq_elem rq)) \<in> set (v_pending u)"
    "elementAjaxPort (elem u (rq_elem rq)) \<notin> set (obj_keys (v_requests u))" "sound v u"
proof -
  let ?i = "rq_elem rq"
  have "(port, rq) \<in> set (v_requests v)" using assms(2) by (simp add: obj_get_def map_of_SomeD)
  then have rq: "?i < length (v_elems v)" "port = elementAjaxPort (elem v ?i)" "e_name (elem v ?i) \<in> set (v_pending v)"
    using assms(1) by (auto simp: vinv_def)
  have n: "map e_name (v_elems u) = map e_name (v_elems v)" using assms(3) by (simp add: keeps_def ajaxAbort_def)
  note nm = same_names(2) [OF n rq(1)]
  show "elementAjaxPort (elem u ?i) \<notin> set (obj_keys (v_requests u))"
    using assms(3) nm rq(2) set_keys_obj_del [of port "v_requests v"] by (simp add: keeps_def ajaxAbort_def elementAjaxPort_def)
  show "?i < length (v_elems u)" "e_name (elem u ?i) \<in> set (v_pending u)"
    using rq same_names(1) [OF n] nm assms(3) by (simp_all add: keeps_def ajaxAbort_def)
  show "sound v u" using sound_keeps [OF sound_ajaxAbort assms(3)] .
qed

lemma keeps_answered: "keeps (ajaxAbort port v) (v\<lparr>v_requests := obj_del port (v_requests v)\<rparr>)"
  by (simp add: ajaxAbort_def keeps_def)

lemma remote_accepted_keeps: "keeps (ajaxAbort port v) (remote_accepted st port rq v)"
  unfolding remote_accepted_def Let_def ajaxAbort_def by (intro keeps_intros)

lemma remote_success_safe: "safe v (remote_success st g env port response v)"
proof (cases "obj_get (v_requests v) port")
  case None
  then show ?thesis by (simp add: remote_success_def safe_def)
next
  case (Some rq)
  let ?i = "rq_elem rq"
  let ?v1 = "set_message (e_name (elem v ?i)) (rq_method rq) (rq_original rq) (v\<lparr>v_requests := obj_del port (v_requests v)\<rparr>)"
  have v1: "keeps (ajaxAbort port v) ?v1" unfolding ajaxAbort_def by (intro keeps_intros)
  have stop: "safe v (stopRequest st g env ?i b u)" if k: "keeps (ajaxAbort port v) u" for b u
  proof (cases "vinv v")
    case True
    note ready = answered_pending [OF True Some k]
    show ?thesis using safe_trans [OF sound_safe [OF ready(4)] stopRequest_safe [OF ready(1-3)]] .
  qed (simp add: safe_def)
  have "safe v ?v1" using sound_keeps [OF sound_ajaxAbort v1] sound_safe by blast
  then show ?thesis
    by (auto simp: remote_success_def Some Let_def intro!: stop keeps_intros remote_accepted_keeps keeps_answered split: option.split)
qed

text \<open>Only submissions and answers can submit the form.\<close>

lemma validator_step_sound:
  assumes "validator_step st g env e v = Some w" "vinv v" "e \<noteq> Submit" "\<And>p r. e \<noteq> Answer p r"
  shows "sound v w"
proof (cases e)
  case (Edit i a b c d)
  then show ?thesis using assms(1)
    by (auto simp: validator_step_def edit_elem_def split: if_splits intro!: keeps_sound keeps_intros)
next
  case (FocusIn i)
  have "sound v (onfocusin st i v)"
    unfolding onfocusin_def Let_def by (auto intro!: keeps_sound keeps_intros)
  then show ?thesis using FocusIn assms(1) by (auto simp: validator_step_def split: if_splits)
next
  case (Click i parent)
  then show ?thesis using assms(1)
    by (auto simp: validator_step_def onclick_def split: if_splits option.splits intro!: element_sound)
next
  case (Button b cls fnv)
  have "sound v (submit_click st b cls fnv v)"
    unfolding submit_click_def by (auto intro!: keeps_sound keeps_intros)
  then show ?thesis using Button assms(1) by (simp add: validator_step_def)
next
  case (Failure port)
  then show ?thesis using sound_ajaxAbort [of v port] assms(1)
    by (simp add: validator_step_def remote_failure_def ajaxAbort_def)
next
  case (Blur t i)
  then have "list_all (\<lambda>i. i < length (v_elems v)) [i]"
    using assms(1,2) by (auto simp: vinv_def validator_step_def split: if_splits)
  then have "sound v (snd (valid_elements st g env [i] True [] v))" by (rule valid_elements_sound)
  moreover have "w = snd (valid_elements st g env [i] True [] v)"
    using assms(1) Blur by (simp add: validator_step_def Let_def del: valid_elements.simps split: if_splits)
  ultimately show ?thesis by simp
qed (use assms in \<open>auto simp: validator_step_def onfocusout_def onkeyup_def form_sound
    valid_elements_sound resetForm_sound element_sound split: if_splits\<close>)

lemma validator_step_safe:
  assumes "validator_step st g env e v = Some w"
  shows "safe v w"
proof (cases e)
  case Submit
  then show ?thesis using assms by (auto simp: validator_step_def user_submit_safe)
next
  case (Answer port response)
  then show ?thesis using assms by (auto simp: validator_step_def remote_success_safe)
qed (use validator_step_sound [OF assms] in \<open>auto simp: safe_def sound_def\<close>)

interpretation validator: invariant_system "validator_step st g env" vinv for st g env
  by unfold_locales (use validator_step_safe safe_def in blast)

lemma vinv_init: "vinv (init rs ms gs elems labels)"
  by (simp add: init_def reset_def resetInternals_def vinv_def)

section \<open>Example forms\<close>

text \<open>The default settings with a custom display of errors, the built-in methods in use, and no functions or selectors of
  the page's author.\<close>

definition plain_settings :: vsettings where
  "plain_settings = \<lparr>st_errorClass = ''error'', st_pendingClass = ''pending'', st_validClass = ''valid'', st_errorElement = ''label'',
     st_focusCleanup = False, st_focusInvalid = True, st_onsubmit = True, st_debug = False, st_ignoreTitle = False,
     st_onfocusin = True, st_onfocusout = True, st_onkeyup = True, st_onclick = True, st_highlight = True,
     st_unhighlight = True, st_showErrors = True, st_normalizer = None, st_success = None, st_wrapper = False,
     st_labelContainer = False, st_errorPlacement = False, st_containers = [], st_submitHandler = None\<rparr>"

definition plain_global :: vglobal where
  "plain_global = \<lparr>g_methods = map (\<lambda>m. (m, VBuiltin)) [''required'', ''step'', ''remote''], g_messages = default_messages,
     g_classRules = class_rule_settings, g_autoRanges = False\<rparr>"

definition plain_env :: venv where
  "plain_env = \<lparr>call_rule = \<lambda>f i. PUndef, call_norm = \<lambda>f x. x, call_msg = \<lambda>f p i. [], call_method = \<lambda>f x e p. VTrue,
     call_data = \<lambda>f. PUndef, sel_found = \<lambda>s. False, sel_target = \<lambda>s. [], date_ok = \<lambda>s. True\<rparr>"

definition text_field :: "string \<Rightarrow> (string \<times> string) list \<Rightarrow> string \<Rightarrow> felem" where
  "text_field name attrs x = \<lparr>e_id = [], e_name = name, e_type = ''text'', e_node = ''INPUT'', e_title = [], e_string = [],
     e_attrs = attrs, e_class = None, e_data = [], e_val = PStr x, e_text = [], e_checked = False, e_badInput = None,
     e_selected = 0, e_field = True, e_excluded = False, e_ignored = False, e_ours = True, e_labels = []\<rparr>"

definition user_form :: "(string \<times> pval) list \<Rightarrow> string \<Rightarrow> vstate" where
  "user_form rs x = init [(''user'', PObj rs)] [] [] [text_field ''user'' [] x] []"

section \<open>The shape of a rules object\<close>

lemma depend_rules_keys:
  "depend_rules env i rs = (d, Some ob) \<Longrightarrow> distinct (obj_keys rs) \<Longrightarrow>
   distinct (obj_keys ob) \<and> set (obj_keys ob) \<subseteq> set (obj_keys rs)"
proof (induction rs arbitrary: d ob)
  case (Cons r rs)
  obtain k x where r: "r = (k, x)" by (cases r)
  obtain d' rest where rest: "depend_rules env i rs = (d', rest)" by fastforce
  have nn: "\<not> is_null x" using Cons.prems(1) by (auto simp: r split: if_splits)
  obtain ob' where ob': "rest = Some ob'" "ob = ob' \<or> (\<exists>y. ob = (k, y) # ob')"
    using Cons.prems(1) nn by (auto simp: r rest split: if_splits pval.splits)
  have "distinct (obj_keys rs)" "k \<notin> set (obj_keys rs)" using Cons.prems(2) r by auto
  moreover from this have "distinct (obj_keys ob')" "set (obj_keys ob') \<subseteq> set (obj_keys rs)"
    using Cons.IH [of d' ob'] rest ob'(1) by blast+
  ultimately show ?case using ob'(2) r by (elim disjE exE) (simp_all del: list.set_map, blast+)
qed simp

lemma obj_keys_eval [simp]: "obj_keys (eval_params env i rs) = obj_keys rs"
  by (simp add: eval_params_def case_prod_beta o_def)

lemma distinct_clean:
  "distinct (obj_keys rs) \<Longrightarrow> distinct (obj_keys (clean_number k rs))"
  "distinct (obj_keys rs) \<Longrightarrow> distinct (obj_keys (clean_range k rs))"
  "distinct (obj_keys rs) \<Longrightarrow> distinct (obj_keys (auto_range a b c rs))"
  by (auto simp: clean_number_def clean_range_def auto_range_def Let_def distinct_obj_set distinct_obj_del split: pval.split)

lemma normalizeRules_distinct:
  "normalizeRules g env i rs = (d, Some ob) \<Longrightarrow> distinct (obj_keys rs) \<Longrightarrow> distinct (obj_keys ob)"
  by (auto simp: normalizeRules_def Let_def split: prod.splits if_splits intro!: distinct_clean dest!: depend_rules_keys)

lemma hd_obj_set: "ob \<noteq> [] \<Longrightarrow> obj_set k x ob \<noteq> [] \<and> fst (hd (obj_set k x ob)) = fst (hd ob)"
  by (cases ob) (auto split: if_splits)

lemma hd_extend_one: "t \<noteq> [] \<Longrightarrow> extend_one t opts \<noteq> [] \<and> fst (hd (extend_one t opts)) = fst (hd t)"
proof (induction opts arbitrary: t)
  case (Cons p opts)
  obtain k x where p: "p = (k, x)" by (cases p)
  have "extend_one t (p # opts) = extend_one (if k = ''__proto__'' \<or> x = PUndef then t else obj_set k x t) opts"
    by (simp add: extend_one_def p)
  then show ?case using Cons hd_obj_set [of t k x] by auto
qed (simp add: extend_one_def)

lemma pget_extend_one:
  assumes "distinct (obj_keys opts)" "k \<noteq> ''__proto__''"
  shows "pget (extend_one t opts) k = (if pget opts k = PUndef then pget t k else pget opts k)"
  using extend_one_get [OF assms, of t] by (auto simp: pget_def split: option.splits)

lemma pget_del: "pget (obj_del k ob) l = (if l = k then PUndef else pget ob l)"
  by (simp add: pget_def obj_get_del)

lemma ptruthy_undef [simp]: "\<not> ptruthy PUndef"
  by (simp add: ptruthy_def)

lemma required_first_shape:
  assumes "distinct (obj_keys d)"
  shows "distinct (obj_keys (required_first d))"
    and "ptruthy (pget (required_first d) ''required'') \<Longrightarrow> required_first d \<noteq> [] \<and> fst (hd (required_first d)) = ''required''"
  using assms hd_extend_one [of "[(''required'', pget d ''required'')]" "obj_del ''required'' d"]
  by (auto simp: required_first_def jq_extend_def intro!: extend_one_distinct)

lemma remote_last_shape:
  assumes "distinct (obj_keys d)"
  shows "distinct (obj_keys (remote_last d))"
    and "ptruthy (pget (remote_last d) ''remote'') \<Longrightarrow> remote_last d \<noteq> [] \<and> fst (last (remote_last d)) = ''remote''"
    and "pget (remote_last d) ''required'' = pget d ''required''"
    and "d \<noteq> [] \<Longrightarrow> fst (hd d) = ''required'' \<Longrightarrow> fst (hd (remote_last d)) = ''required''"
proof -
  show "distinct (obj_keys (remote_last d))"
    using assms by (simp add: remote_last_def jq_extend_def extend_one_distinct distinct_obj_del)
  let ?o = "obj_del ''remote'' d" and ?p = "pget d ''remote''"
  have snoc: "obj_set k x ob = ob @ [(k, x)]" if "k \<notin> set (obj_keys ob)" for k x and ob :: "pval obj"
    using that by (induction ob) auto
  have "''remote'' \<notin> set (obj_keys ?o)" using set_keys_obj_del [of "''remote''" d] by simp
  then have app: "remote_last d = ?o @ [(''remote'', ?p)]" if "ptruthy ?p"
    using that snoc [of "''remote''" ?o ?p] by (auto simp: remote_last_def jq_extend_def extend_one_def)
  show "ptruthy (pget (remote_last d) ''remote'') \<Longrightarrow> remote_last d \<noteq> [] \<and> fst (last (remote_last d)) = ''remote''"
    using app by (cases "ptruthy ?p") (auto simp: remote_last_def)
  show "pget (remote_last d) ''required'' = pget d ''required''"
    by (simp add: remote_last_def jq_extend_def pget_extend_one pget_del) (simp add: pget_def obj_get_def)
  show "d \<noteq> [] \<Longrightarrow> fst (hd d) = ''required'' \<Longrightarrow> fst (hd (remote_last d)) = ''required''"
  proof (cases "ptruthy ?p")
    case True
    assume "d \<noteq> []" "fst (hd d) = ''required''"
    then have "?o \<noteq> [] \<and> fst (hd ?o) = ''required''" by (cases d) (auto simp: obj_del_def)
    then show ?thesis using app [OF True] by simp
  qed (simp add: remote_last_def)
qed

text \<open>C31. The rules of an element are a well-formed object whatever their sources: each method occurs once, a \<open>required\<close> rule
  comes first, so that an empty field is reported as missing, and a \<open>remote\<close> rule comes last, so that no request is sent
  for a value another rule rejects.\<close>

theorem rules_object_shape:
  assumes "rules g env settings_rules i el = (dropped, Some ob)"
  shows "distinct (obj_keys ob)
    \<and> (ptruthy (pget ob ''required'') \<longrightarrow> fst (hd ob) = ''required'')
    \<and> (ptruthy (pget ob ''remote'') \<longrightarrow> fst (last ob) = ''remote'')"
proof -
  let ?all = "jq_extend [] [classRules g el, attributeRules g el, dataRules g el, staticRules settings_rules el]"
  obtain d where d: "normalizeRules g env i ?all = (dropped, Some d)" and ob: "ob = remote_last (required_first d)"
    using assms by (auto simp: rules_def split: prod.splits)
  have "distinct (obj_keys d)" using normalizeRules_distinct [OF d] by (simp add: jq_extend_distinct)
  note first = required_first_shape [OF this]
  note last = remote_last_shape [OF first(1)]
  show ?thesis using first last unfolding ob by auto
qed

theorem rules_object_shape_witness:
  "\<exists>ob. rules plain_global plain_env
     [(''a'', PObj [(''remote'', PStr ''/check''), (''email'', PBool True), (''required'', PBool True)])] 0 (text_field ''a'' [] [])
     = (False, Some ob) \<and> fst (hd ob) = ''required'' \<and> fst (last ob) = ''remote''"
proof -
  let ?r = "rules plain_global plain_env
     [(''a'', PObj [(''remote'', PStr ''/check''), (''email'', PBool True), (''required'', PBool True)])] 0 (text_field ''a'' [] [])"
  have facts: "fst ?r = False" "snd ?r \<noteq> None" "ptruthy (pget (the (snd ?r)) ''required'')" "ptruthy (pget (the (snd ?r)) ''remote'')"
    by code_simp+
  obtain d x where dx: "?r = (d, x)" by (rule prod.exhaust)
  then obtain ob where "x = Some ob" using facts(2) by (cases x) simp_all
  with dx facts(1) have ob: "?r = (False, Some ob)" by simp
  with facts have "ptruthy (pget ob ''required'')" "ptruthy (pget ob ''remote'')" by simp_all
  with rules_object_shape [OF ob] ob show ?thesis by blast
qed

section \<open>Requests and submission\<close>

text \<open>C18. In every state a validator can reach, \<open>pendingRequest\<close> is the number of fields with a pending remote check, and
  every running request belongs to such a field. So the guards that keep the count from becoming negative are never
  needed.\<close>

theorem pending_requests_counted:
  assumes "reachable_from (validator_step st g env) (init rs ms gs elems labels) v"
  shows "distinct (v_pending v) \<and> v_pendingRequest v = int (length (v_pending v))
    \<and> (\<forall>(port, rq)\<in>set (v_requests v). e_name (elem v (rq_elem rq)) \<in> set (v_pending v))"
proof -
  have "vinv v" using validator.inv_reachable [OF assms vinv_init] .
  then show ?thesis by (auto simp: vinv_def)
qed

theorem pending_requests_counted_witness:
  "v_pendingRequest (user_submit plain_settings plain_global plain_env
     (user_form [(''required'', PBool True), (''remote'', PStr ''/check'')] ''bob'')) = 1"
proof -
  let ?s0 = "user_form [(''required'', PBool True), (''remote'', PStr ''/check'')] ''bob''"
  let ?v = "user_submit plain_settings plain_global plain_env ?s0"
  have "validator_step plain_settings plain_global plain_env Submit ?s0 = Some ?v" by (simp add: validator_step_def)
  then have "reachable_from (validator_step plain_settings plain_global plain_env) ?s0 ?v"
    by (rule reachable_from.reach_step [OF reachable_from.reach_init])
  moreover have "v_pending ?v = [''user'']" by code_simp
  ultimately show ?thesis
    using pending_requests_counted [of plain_settings plain_global plain_env] unfolding user_form_def by fastforce
qed

lemma form_valid: "fst (form st g env v) = Some b \<Longrightarrow> b = (v_errorList (snd (form st g env v)) = [])"
  by (auto simp: form_def valid_def Let_def split: prod.splits option.splits)

lemma natives_log_native: "natives (log_event (ENative h) v) \<noteq> natives v"
  by (simp add: natives_def log_event_def)

text \<open>A check of all fields that lets the form through.\<close>

definition form_passes :: "vsettings \<Rightarrow> vglobal \<Rightarrow> venv \<Rightarrow> vstate \<Rightarrow> bool" where
  "form_passes st g env v \<longleftrightarrow> fst (form st g env v) = Some True
     \<and> v_errorList (snd (form st g env v)) = [] \<and> v_pending (snd (form st g env v)) = []"

lemma form_passesI:
  assumes "vinv v" "fst (form st g env v) = Some True" "v_pendingRequest (snd (form st g env v)) = 0"
  shows "form_passes st g env v"
proof -
  have "vinv (snd (form st g env v))" using form_sound [of v st g env] assms(1) by (simp add: sound_def)
  then show ?thesis using assms(2,3) form_valid [of st g env v True] by (simp add: form_passes_def vinv_def)
qed

lemma user_submit_checked:
  assumes "vinv v" "st_onsubmit st" "natives (user_submit st g env v) \<noteq> natives v"
  shows "v_cancelSubmit v \<or> fst (form st g env v) = None \<or> form_passes st g env v"
proof -
  obtain r h w where w: "submit_handler st g env v = (r, h, w)" by (metis prod_cases3)
  then have "natives w = natives v" using submit_handler_sound by (auto simp: sound_def)
  then have "r \<noteq> Some False" using assms(2,3) w by (auto simp: user_submit_def)
  then show ?thesis using submit_handler_sound [OF w] form_passesI [OF assms(1)] by blast
qed

lemma stopRequest_checked:
  assumes "vinv (drop_pending st i v)" "natives (stopRequest st g env i ok v) \<noteq> natives v"
  shows "ok \<and> v_formSubmitted v \<and> form_passes st g env (drop_pending st i v)"
proof -
  let ?u = "drop_pending st i v"
  have u: "natives ?u = natives v" "v_formSubmitted ?u = v_formSubmitted v"
    by (simp_all add: natives_def drop_pending_def remove_class_of_def upd_elem_def)
  obtain b v2 where v2: "form st g env ?u = (b, v2)" by fastforce
  then have n2: "natives v2 = natives v" using form_sound [of ?u st g env] u(1) by (simp add: sound_def)
  obtain c v3 where v3: "trigger_submit st g env v2 = (c, v3)" by fastforce
  have "natives (log_event EInvalidForm ?u) = natives v" using u(1) by (simp add: natives_def log_event_def)
  then have "ok \<and> v_formSubmitted ?u \<and> b = Some True \<and> v_pendingRequest v2 = 0"
    using assms(2) u(1) n2 v2 v3
    by (auto simp: stopRequest_def Let_def natives_def split: option.splits bool.splits if_splits)
  then show ?thesis using form_passesI [OF assms(1), of st g env] v2 u(2) by simp
qed

lemma answer_checked:
  assumes inv: "vinv v" and w: "w = remote_success st g env port response v" and "natives w \<noteq> natives v"
  shows "\<exists>rq. response \<in> {PBool True, PStr ''true''} \<and> obj_get (v_requests v) port = Some rq
    \<and> v_formSubmitted (remote_accepted st port rq v)
    \<and> form_passes st g env (drop_pending st (rq_elem rq) (remote_accepted st port rq v))"
proof -
  obtain rq where rq: "obj_get (v_requests v) port = Some rq"
    using assms(2,3) by (cases "obj_get (v_requests v) port") (auto simp: remote_success_def)
  have stop: "ok \<and> v_formSubmitted u \<and> form_passes st g env (drop_pending st (rq_elem rq) u)"
    if "keeps (ajaxAbort port v) u" "w = stopRequest st g env (rq_elem rq) ok u" for u ok
  proof -
    note ready = answered_pending [OF inv rq that(1)]
    have "sound v (drop_pending st (rq_elem rq) u)" using sound_trans [OF ready(4) sound_drop_pending [OF ready(1-3)]] .
    then have "vinv (drop_pending st (rq_elem rq) u)" using inv by (simp add: sound_def)
    moreover have "natives u = natives v" using ready(4) by (simp add: sound_def)
    ultimately show ?thesis using stopRequest_checked assms(3) that(2) by metis
  qed
  show ?thesis
  proof (cases "response = PBool True \<or> response = PStr ''true''")
    case True
    then have "w = stopRequest st g env (rq_elem rq) True (remote_accepted st port rq v)"
      by (auto simp: w remote_success_def rq Let_def)
    then show ?thesis using stop [OF remote_accepted_keeps] rq True by blast
  next
    case False
    let ?v1 = "set_message (e_name (elem v (rq_elem rq))) (rq_method rq) (rq_original rq) (v\<lparr>v_requests := obj_del port (v_requests v)\<rparr>)"
    have v1: "keeps (ajaxAbort port v) ?v1" unfolding ajaxAbort_def by (intro keeps_intros)
    have "natives ?v1 = natives v" using sound_keeps [OF sound_ajaxAbort v1] by (simp add: sound_def)
    define u where "u m = set_prev_answer (rq_elem rq) (\<lambda>p. p\<lparr>pv_valid := Some False\<rparr>)
        (showErrors st (Some [(e_name (elem v (rq_elem rq)), m)])
          ((set_prev_answer (rq_elem rq) (\<lambda>p. p\<lparr>pv_message := m\<rparr>) ?v1)
           \<lparr>v_invalid := obj_set (e_name (elem v (rq_elem rq))) (IBool True) (v_invalid ?v1)\<rparr>))" for m
    have "keeps (ajaxAbort port v) (u m)" for m unfolding u_def by (intro keeps_intros keeps_answered)
    moreover have "w = ?v1 \<or> (\<exists>m. w = stopRequest st g env (rq_elem rq) False (u m))"
      using False by (auto simp: w remote_success_def rq Let_def u_def split: option.split)
    ultimately show ?thesis using stop assms(3) \<open>natives ?v1 = natives v\<close> by metis
  qed
qed

text \<open>C12. With the submit handler attached (the setting \<open>onsubmit\<close>), whatever happens to the form in a reachable state hands it to
  the browser in two cases only. The user submits it, and it is marked as exempt (by a button with the class \<open>cancel\<close> or the attribute
  \<open>formnovalidate\<close>), or the check of all its fields throws, or that check finds no error and leaves no remote check pending. Or the
  server answers the last remote check of a form submitted before, with a valid answer, and a new check of all fields in the state
  after the answer finds no error and leaves no remote check pending.\<close>

theorem submission_is_checked:
  assumes "reachable_from (validator_step st g env) (init rs ms gs elems labels) v"
    and "validator_step st g env e v = Some w" and "natives w \<noteq> natives v" and "st_onsubmit st"
  shows "(e = Submit \<and> (v_cancelSubmit v \<or> fst (form st g env v) = None \<or> form_passes st g env v))
    \<or> (\<exists>port response rq u. e = Answer port response \<and> response \<in> {PBool True, PStr ''true''}
        \<and> obj_get (v_requests v) port = Some rq \<and> u = remote_accepted st port rq v \<and> v_formSubmitted u
        \<and> form_passes st g env (drop_pending st (rq_elem rq) u))"
proof -
  have inv: "vinv v" using validator.inv_reachable [OF assms(1) vinv_init] .
  then have "e = Submit \<or> (\<exists>port response. e = Answer port response)"
    using validator_step_sound [OF assms(2)] assms(3) by (auto simp: sound_def)
  then show ?thesis
  proof (elim disjE exE)
    assume "e = Submit"
    then show ?thesis using user_submit_checked [OF inv assms(4)] assms(2,3) by (auto simp: validator_step_def)
  next
    fix port response
    assume e: "e = Answer port response"
    then have "w = remote_success st g env port response v" using assms(2) by (simp add: validator_step_def)
    from answer_checked [OF inv this assms(3)] show ?thesis using e by blast
  qed
qed

theorem submission_is_checked_witness:
  "natives (user_submit plain_settings plain_global plain_env (user_form [(''required'', PBool True)] ''bob'')) = [ENative None]
   \<and> v_errorList (snd (form plain_settings plain_global plain_env (user_form [(''required'', PBool True)] ''bob''))) = []"
proof -
  let ?v = "user_form [(''required'', PBool True)] ''bob''"
  let ?w = "user_submit plain_settings plain_global plain_env ?v"
  have r: "reachable_from (validator_step plain_settings plain_global plain_env)
      (init [(''user'', PObj [(''required'', PBool True)])] [] [] [text_field ''user'' [] ''bob''] []) ?v"
    unfolding user_form_def by (rule reachable_from.reach_init)
  have s: "validator_step plain_settings plain_global plain_env Submit ?v = Some ?w" by (simp add: validator_step_def)
  have n: "natives ?w = [ENative None]" by code_simp
  moreover have "natives ?v = []" "\<not> v_cancelSubmit ?v" "fst (form plain_settings plain_global plain_env ?v) \<noteq> None" by code_simp+
  moreover have "st_onsubmit plain_settings" by (simp add: plain_settings_def)
  ultimately show ?thesis using submission_is_checked [OF r s] by (auto simp: form_passes_def)
qed

text \<open>C39. A validation method that throws opens the form: the exception leaves the submit handler before it can cancel the
  event, and the browser submits what was found invalid.\<close>

theorem throwing_check_submits:
  assumes "fst (form st g env v) = None" and "\<not> v_cancelSubmit v" and "\<not> st_debug st"
  shows "natives (user_submit st g env v) = natives v @ [ENative None]"
proof -
  obtain w where w: "form st g env v = (None, w)" using assms(1) by (cases "form st g env v") auto
  have "natives w = natives v" using form_sound [of v st g env] w by (simp add: sound_def)
  then show ?thesis using assms(2,3) w by (simp add: user_submit_def submit_handler_def natives_def log_event_def)
qed

text \<open>A required field that is empty, and a date field with a step.\<close>

definition date_form :: vstate where
  "date_form = init [(''a'', PObj [(''required'', PBool True)]), (''b'', PObj [(''step'', PNum (Some 7))])] [] []
     [text_field ''a'' [] [], text_field ''b'' [(''type'', ''date'')] ''2024-01-01''] []"

theorem throwing_check_submits_witness:
  "natives (user_submit plain_settings plain_global plain_env date_form) = [ENative None]
   \<and> map er_method (v_errorList (snd (form plain_settings plain_global plain_env date_form))) = [Some ''required'']"
proof -
  have "fst (form plain_settings plain_global plain_env date_form) = None" "\<not> v_cancelSubmit date_form"
    "\<not> st_debug plain_settings" "natives date_form = []" by code_simp+
  moreover have "map er_method (v_errorList (snd (form plain_settings plain_global plain_env date_form))) = [Some ''required'']"
    by code_simp
  ultimately show ?thesis using throwing_check_submits [of plain_settings plain_global plain_env date_form] by simp
qed

end
