(* ===== verification/Validator_Report.thy ===== *)
theory Validator_Report
  imports Validator_Correct
begin

text \<open>
  What \<open>form()\<close> reports: for forms whose rules need no server and no other field, the error list is exactly the first rule
  that each checked field fails, in the order of the fields.
\<close>

section \<open>Checks read the fields only\<close>

definition same_input :: "vstate \<Rightarrow> vstate \<Rightarrow> bool" where
  "same_input v w \<longleftrightarrow> v_elems w = v_elems v \<and> v_rules w = v_rules v \<and> v_messages w = v_messages v \<and> v_pending w = v_pending v"

lemma same_input_refl [simp]: "same_input v v"
  by (simp add: same_input_def)

lemma same_input_fields [simp]:
  "same_input v (w\<lparr>v_errorList := a\<rparr>) = same_input v w" "same_input v (w\<lparr>v_errorMap := b\<rparr>) = same_input v w"
  "same_input v (w\<lparr>v_submitted := c\<rparr>) = same_input v w" "same_input v (w\<lparr>v_successList := d\<rparr>) = same_input v w"
  "same_input v (w\<lparr>v_currentElements := d\<rparr>) = same_input v w" "same_input v (w\<lparr>v_toHide := e\<rparr>) = same_input v w"
  "same_input v (w\<lparr>v_toShow := e\<rparr>) = same_input v w"
  by (simp_all add: same_input_def)

lemma same_input_value:
  assumes "same_input v w"
  shows "elementValue w i = elementValue v i" "validationTargetFor w i = validationTargetFor v i"
    "builtin env w i name value param = builtin env v i name value param"
    "defaultMessage st g env w i method params = defaultMessage st g env v i method params"
proof -
  have e: "v_elems w = v_elems v" "v_messages w = v_messages v" using assms by (simp_all add: same_input_def)
  have f: "findByName w = findByName v" by (simp add: findByName_def e fun_eq_iff)
  show ev: "elementValue w i = elementValue v i" for i unfolding elementValue_def e f ..
  show "validationTargetFor w i = validationTargetFor v i" unfolding validationTargetFor_def e f ..
  have gl: "getLength w = getLength v" unfolding getLength_def e f ..
  have rr: "required_result w = required_result v" unfolding required_result_def gl e ..
  have oo: "opt_or w = opt_or v" unfolding opt_or_def optional_def rr ev ..
  have lm: "length_method P w = length_method P v" for P unfolding length_method_def length_of_def gl oo ..
  show "builtin env w i name value param = builtin env v i name value param"
    unfolding builtin_def required_method_def rr oo minlength_def maxlength_def rangelength_def lm step_method_def e ..
  show "defaultMessage st g env w i method params = defaultMessage st g env v i method params"
    unfolding defaultMessage_def customMessage_def e ..
qed

section \<open>One field\<close>

text \<open>The rules of a field that change nothing when they are checked: no remote check, no comparison with another field, no
  normaliser, no dependency that drops a rule, and methods and messages that do not throw.\<close>

definition local_rule :: "vsettings \<Rightarrow> vglobal \<Rightarrow> venv \<Rightarrow> vstate \<Rightarrow> nat \<Rightarrow> string \<times> pval \<Rightarrow> bool" where
  "local_rule st g env v i r \<longleftrightarrow> fst r \<noteq> ''remote'' \<and> fst r \<noteq> ''equalTo''
     \<and> fst (run_method st g env i (fst r) (elementValue v i) (snd r) v) \<in> {VTrue, VFalse, VMismatch}
     \<and> defaultMessage st g env v i (fst r) (snd r) \<noteq> None"

definition field_rules :: "vglobal \<Rightarrow> venv \<Rightarrow> vstate \<Rightarrow> nat \<Rightarrow> pval obj" where
  "field_rules g env v i = (case rules g env (v_rules v) i (elem v i) of (d, Some rs) \<Rightarrow> rs | (d, None) \<Rightarrow> [])"

definition local_rules :: "vsettings \<Rightarrow> vglobal \<Rightarrow> venv \<Rightarrow> vstate \<Rightarrow> nat \<Rightarrow> bool" where
  "local_rules st g env v i \<longleftrightarrow> rules g env (v_rules v) i (elem v i) = (False, Some (field_rules g env v i))
     \<and> normalizer_of st (field_rules g env v i) = None \<and> list_all (local_rule st g env v i) (field_rules g env v i)"

definition rule_fails :: "vsettings \<Rightarrow> vglobal \<Rightarrow> venv \<Rightarrow> vstate \<Rightarrow> nat \<Rightarrow> string \<times> pval \<Rightarrow> bool" where
  "rule_fails st g env v i r \<longleftrightarrow> fst (run_method st g env i (fst r) (elementValue v i) (snd r) v) = VFalse"

text \<open>The entry for a rule that fails: the field, the name of the rule and its message.\<close>

definition failure :: "vsettings \<Rightarrow> vglobal \<Rightarrow> venv \<Rightarrow> vstate \<Rightarrow> nat \<Rightarrow> string \<times> pval \<Rightarrow> nat \<times> string option \<times> string" where
  "failure st g env v i r = (i, Some (fst r), the (defaultMessage st g env v i (fst r) (snd r)))"

definition field_report :: "vsettings \<Rightarrow> vglobal \<Rightarrow> venv \<Rightarrow> vstate \<Rightarrow> nat \<Rightarrow> (nat \<times> string option \<times> string) list" where
  "field_report st g env v i =
     (case find (rule_fails st g env v i) (field_rules g env v i) of Some r \<Rightarrow> [failure st g env v i r] | None \<Rightarrow> [])"

definition reported :: "vstate \<Rightarrow> (nat \<times> string option \<times> string) list" where
  "reported v = map (\<lambda>er. (er_element er, er_method er, er_message er)) (v_errorList v)"

lemma run_method_local:
  assumes "same_input v w" "m \<noteq> ''remote''" "m \<noteq> ''equalTo''"
  shows "run_method st g env i m x p w = (fst (run_method st g env i m x p v), w)"
  using assms same_input_value [OF assms(1)]
  by (simp add: run_method_def same_input_def split: option.split vmethod.split)

lemma check_loop_local:
  assumes "same_input v w" "list_all (local_rule st g env v i) rs"
  shows "\<exists>r w'. check_loop st g env n i (elementValue v i) dm rs w = (r, w') \<and> r \<noteq> Inl CThrow \<and> same_input v w' \<and>
    reported w' = reported w @ (case find (rule_fails st g env v i) rs of Some r \<Rightarrow> [failure st g env v i r] | None \<Rightarrow> [])"
  using assms
proof (induction rs arbitrary: dm w)
  case (Cons r rs)
  obtain m p where r: "r = (m, p)" by (cases r)
  let ?x = "fst (run_method st g env i m (elementValue v i) p v)"
  have loc: "m \<noteq> ''remote''" "m \<noteq> ''equalTo''" "?x \<in> {VTrue, VFalse, VMismatch}" "defaultMessage st g env v i m p \<noteq> None"
    using Cons.prems(2) by (simp_all add: r local_rule_def)
  note run = run_method_local [OF Cons.prems(1) loc(1,2), of st g env i "elementValue v i" p]
  have ih: "\<exists>r w'. check_loop st g env n i (elementValue v i) dm' rs w = (r, w') \<and> r \<noteq> Inl CThrow \<and> same_input v w' \<and>
    reported w' = reported w @ (case find (rule_fails st g env v i) rs of Some r \<Rightarrow> [failure st g env v i r] | None \<Rightarrow> [])" for dm'
    using Cons.IH [OF Cons.prems(1)] Cons.prems(2) by simp
  show ?case
  proof (cases "?x = VFalse")
    case True
    obtain msg where "defaultMessage st g env w i m p = Some msg" "defaultMessage st g env v i m p = Some msg"
      using loc(4) same_input_value(4) [OF Cons.prems(1)] by auto
    then show ?thesis using True run Cons.prems(1)
      by (auto simp: r formatAndAdd_def rule_fails_def reported_def failure_def)
  next
    case False
    then have "\<not> rule_fails st g env v i r" by (simp add: rule_fails_def r)
    moreover have "?x = VTrue \<or> ?x = VMismatch" using loc(3) False by blast
    ultimately show ?thesis using ih run by (auto simp: r)
  qed
qed simp

lemma check_local:
  assumes "same_input v w" "v_pending v = []" "validationTargetFor v i = Some j" "local_rules st g env v j"
  shows "\<exists>r w'. check st g env i w = (r, w') \<and> r \<noteq> CThrow \<and> same_input v w' \<and> reported w' = reported w @ field_report st g env v j"
proof -
  have "rules_of st g env j w = (Some (field_rules g env v j), w)"
    using assms(1,4) by (simp add: rules_of_def local_rules_def same_input_def)
  moreover have "abortRequest st j w = w" using assms(1,2) by (simp add: abortRequest_def same_input_def)
  moreover obtain r w' where "check_loop st g env (length (field_rules g env v j)) j (elementValue v j) False (field_rules g env v j) w = (r, w')"
    "r \<noteq> Inl CThrow" "same_input v w'" "reported w' = reported w @ field_report st g env v j"
    using check_loop_local [OF assms(1)] assms(4) unfolding local_rules_def field_report_def by metis
  moreover have "normalizer_of st (field_rules g env v j) = None" using assms(4) by (simp add: local_rules_def)
  ultimately show ?thesis
    using assms(3) same_input_value(1,2) [OF assms(1)]
    by (auto simp: check_def check_rules_def reported_def split: sum.splits)
qed

section \<open>The form\<close>

lemma check_all_local:
  assumes "same_input v w" "v_pending v = []" "\<And>i. i \<in> set ks \<Longrightarrow> \<exists>j. validationTargetFor v i = Some j \<and> local_rules st g env v j"
  shows "\<exists>w'. check_all st g env ks w = (True, w') \<and> same_input v w' \<and>
    reported w' = reported w @ concat (map (\<lambda>i. field_report st g env v (the (validationTargetFor v i))) ks)"
  using assms
proof (induction ks arbitrary: w)
  case (Cons i ks)
  then obtain j where j: "validationTargetFor v i = Some j" "local_rules st g env v j" by auto
  obtain r u where u: "check st g env i w = (r, u)" "r \<noteq> CThrow" "same_input v u" "reported u = reported w @ field_report st g env v j"
    using check_local [OF Cons.prems(1,2) j] by blast
  then show ?case using Cons.IH [OF u(3) Cons.prems(2)] Cons.prems(3) j(1) by auto
qed simp

text \<open>The fields that \<open>form()\<close> checks: those of the form with rules, the first one of each name.\<close>

definition has_rules :: "vglobal \<Rightarrow> venv \<Rightarrow> vstate \<Rightarrow> nat \<Rightarrow> bool" where
  "has_rules g env v i \<longleftrightarrow> e_field (elem v i) \<and> \<not> e_excluded (elem v i) \<and> \<not> e_ignored (elem v i) \<and> e_ours (elem v i)
     \<and> objectLength (field_rules g env v i) \<noteq> 0"

definition checked_fields :: "vglobal \<Rightarrow> venv \<Rightarrow> vstate \<Rightarrow> nat list" where
  "checked_fields g env v =
     filter (\<lambda>i. has_rules g env v i \<and> (\<forall>j<i. has_rules g env v j \<longrightarrow> e_name (elem v j) \<noteq> e_name (elem v i))) [0..<length (v_elems v)]"

lemma elements_local:
  assumes "same_input v w" "\<And>i. i \<in> set ks \<Longrightarrow> local_rules st g env v i" "distinct ks" "sorted ks"
    and "\<And>i. i \<in> set ks \<Longrightarrow> e_field (elem v i) \<and> \<not> e_excluded (elem v i) \<and> \<not> e_ignored (elem v i)"
  shows "elements_loop st g env cache ks w =
    (Some (filter (\<lambda>i. has_rules g env v i \<and> e_name (elem v i) \<notin> set cache
       \<and> (\<forall>j\<in>set ks. j < i \<longrightarrow> has_rules g env v j \<longrightarrow> e_name (elem v j) \<noteq> e_name (elem v i))) ks), w)"
  using assms
proof (induction ks arbitrary: cache)
  case (Cons k ks)
  let ?later = "\<lambda>cache. filter (\<lambda>i. has_rules g env v i \<and> e_name (elem v i) \<notin> set cache
       \<and> (\<forall>j\<in>set ks. j < i \<longrightarrow> has_rules g env v j \<longrightarrow> e_name (elem v j) \<noteq> e_name (elem v i))) ks"
  have ih: "elements_loop st g env c ks w = (Some (?later c), w)" for c
    using Cons.IH [OF Cons.prems(1)] Cons.prems by simp
  have first: "\<forall>j\<in>set (k # ks). \<not> j < k" and less: "\<forall>i\<in>set ks. k < i"
    using Cons.prems(3,4) by (auto simp: less_le)
  have ru: "rules_of st g env k w = (Some (field_rules g env v k), w)" and el: "v_elems w = v_elems v"
    using Cons.prems(1,2) by (simp_all add: rules_of_def local_rules_def same_input_def)
  consider (skip) "\<not> has_rules g env v k" | (seen) "has_rules g env v k" "e_name (elem v k) \<in> set cache"
    | (take) "has_rules g env v k" "e_name (elem v k) \<notin> set cache" by blast
  then show ?case
  proof cases
    case skip
    then have "elements_loop st g env cache (k # ks) w = elements_loop st g env cache ks w"
      using Cons.prems(5) [of k] ru el by (auto simp: has_rules_def Let_def)
    then show ?thesis using ih skip by simp
  next
    case seen
    then have "elements_loop st g env cache (k # ks) w = elements_loop st g env cache ks w"
      using el by simp
    moreover have "filter (\<lambda>i. has_rules g env v i \<and> e_name (elem v i) \<notin> set cache
       \<and> (\<forall>j\<in>set (k # ks). j < i \<longrightarrow> has_rules g env v j \<longrightarrow> e_name (elem v j) \<noteq> e_name (elem v i))) ks = ?later cache"
      using seen by (intro filter_cong) auto
    ultimately show ?thesis using ih seen by simp
  next
    case take
    then have "elements_loop st g env cache (k # ks) w = (Some (k # ?later (e_name (elem v k) # cache)), w)"
      using ih ru el by (simp add: has_rules_def)
    moreover have "filter (\<lambda>i. has_rules g env v i \<and> e_name (elem v i) \<notin> set cache
       \<and> (\<forall>j\<in>set (k # ks). j < i \<longrightarrow> has_rules g env v j \<longrightarrow> e_name (elem v j) \<noteq> e_name (elem v i))) ks
       = ?later (e_name (elem v k) # cache)"
      using take less by (intro filter_cong) auto
    ultimately show ?thesis using take first by simp
  qed
qed simp

lemma elements_checked:
  assumes "same_input v w" "\<And>i. i < length (v_elems v) \<Longrightarrow> local_rules st g env v i"
  shows "elements st g env w = (Some (checked_fields g env v), w)"
proof -
  let ?ks = "filter (\<lambda>i. e_field (elem v i) \<and> \<not> e_excluded (elem v i) \<and> \<not> e_ignored (elem v i)) [0..<length (v_elems v)]"
  have "elements_loop st g env [] ?ks w = (Some (filter (\<lambda>i. has_rules g env v i \<and> e_name (elem v i) \<notin> set []
       \<and> (\<forall>j\<in>set ?ks. j < i \<longrightarrow> has_rules g env v j \<longrightarrow> e_name (elem v j) \<noteq> e_name (elem v i))) ?ks), w)"
    using assms by (intro elements_local) (auto simp: sorted_wrt_filter)
  also have "filter (\<lambda>i. has_rules g env v i \<and> e_name (elem v i) \<notin> set []
       \<and> (\<forall>j\<in>set ?ks. j < i \<longrightarrow> has_rules g env v j \<longrightarrow> e_name (elem v j) \<noteq> e_name (elem v i))) ?ks = checked_fields g env v"
    unfolding checked_fields_def filter_filter by (intro filter_cong) (auto simp: has_rules_def)
  finally show ?thesis using assms(1) by (simp add: elements_def same_input_def)
qed

lemma validationTargetFor_field:
  assumes "i < length (v_elems v)" "\<not> e_ignored (elem v i)"
  shows "\<exists>j<length (v_elems v). validationTargetFor v i = Some j"
proof -
  let ?js = "filter (\<lambda>j. \<not> e_ignored (elem v j)) (if checkable (elem v i) then findByName v (e_name (elem v i)) else [i])"
  have "i \<in> set ?js" and js: "set ?js \<subseteq> {..<length (v_elems v)}" using assms by (auto simp: findByName_def)
  then obtain j js where "?js = j # js" by (cases ?js) auto
  then have "validationTargetFor v i = Some j" "j < length (v_elems v)" using js by (auto simp: validationTargetFor_def)
  then show ?thesis by blast
qed

definition form_report :: "vsettings \<Rightarrow> vglobal \<Rightarrow> venv \<Rightarrow> vstate \<Rightarrow> (nat \<times> string option \<times> string) list" where
  "form_report st g env v =
     concat (map (\<lambda>i. field_report st g env v (the (validationTargetFor v i))) (checked_fields g env v))"

lemma checkForm_local:
  assumes "v_pending v = []" and local: "\<And>i. i < length (v_elems v) \<Longrightarrow> local_rules st g env v i"
  shows "\<exists>w. checkForm st g env v = (Some (form_report st g env v = []), w) \<and> reported w = form_report st g env v"
proof -
  let ?w = "prepareForm st v"
  have w: "same_input v ?w" "reported ?w = []"
    by (simp_all add: prepareForm_def reset_def resetInternals_def Let_def reported_def)
  have "\<exists>j. validationTargetFor v i = Some j \<and> local_rules st g env v j" if "i \<in> set (checked_fields g env v)" for i
    using that validationTargetFor_field [of i v] local unfolding checked_fields_def has_rules_def by fastforce
  then obtain u where u: "check_all st g env (checked_fields g env v) (?w\<lparr>v_currentElements := checked_fields g env v\<rparr>) = (True, u)"
    "reported u = form_report st g env v"
    using check_all_local [of v "?w\<lparr>v_currentElements := checked_fields g env v\<rparr>" "checked_fields g env v" st g env] w assms(1)
    by (auto simp: form_report_def reported_def)
  moreover have "valid u \<longleftrightarrow> reported u = []" by (simp add: valid_def reported_def)
  ultimately show ?thesis by (simp add: checkForm_def elements_checked [OF w(1) local])
qed

text \<open>C13. \<open>form()\<close> reports, for every field of the form with rules (the first of each name, in order), the first of its rules
  that the field's value fails with the message of that rule, and nothing else; it returns true exactly when there is nothing to report. This is for rules that
  need no server and no other field and do not throw.\<close>

theorem form_reports_first_failures:
  assumes "v_pending v = []" and "\<forall>i<length (v_elems v). local_rules st g env v i"
  shows "reported (snd (form st g env v)) = form_report st g env v
    \<and> fst (form st g env v) = Some (form_report st g env v = [])"
proof -
  obtain w where w: "checkForm st g env v = (Some (form_report st g env v = []), w)" "reported w = form_report st g env v"
    using checkForm_local assms by blast
  define u where "u = (let v2 = w\<lparr>v_submitted := fold (\<lambda>(k, m). obj_set k m) (v_errorMap w) (v_submitted w),
      v_invalid := map (\<lambda>(k, m). (k, IMsg m)) (v_errorMap w)\<rparr> in if \<not> valid v2 then log_event EInvalidForm v2 else v2)"
  have f: "form st g env v = (Some (valid (showErrors st None u)), showErrors st None u)"
    by (simp add: form_def w(1) u_def Let_def)
  have "v_errorList u = v_errorList w" by (simp add: u_def Let_def log_event_def)
  then have e: "v_errorList (showErrors st None u) = v_errorList w" using error_list.showErrors_None [of u u st] by simp
  then show ?thesis using w(2) by (auto simp: f valid_def reported_def)
qed

text \<open>Two fields: a required one that is empty, and one that has a value.\<close>

definition two_fields :: vstate where
  "two_fields = init [(''a'', PObj [(''required'', PBool True)]), (''b'', PObj [(''required'', PBool True)])] [] []
     [text_field ''a'' [] [], text_field ''b'' [] ''x''] []"

theorem form_reports_first_failures_witness:
  "reported (snd (form plain_settings plain_global plain_env two_fields)) = [(0, Some ''required'', ''This field is required.'')]"
proof -
  have "local_rules plain_settings plain_global plain_env two_fields 0"
    "local_rules plain_settings plain_global plain_env two_fields 1" by code_simp+
  moreover have n: "length (v_elems two_fields) = 2" "v_pending two_fields = []" by code_simp+
  ultimately have "\<forall>i<length (v_elems two_fields). local_rules plain_settings plain_global plain_env two_fields i"
    by (auto simp: less_2_cases_iff)
  moreover have "form_report plain_settings plain_global plain_env two_fields = [(0, Some ''required'', ''This field is required.'')]" by code_simp
  ultimately show ?thesis using form_reports_first_failures [OF n(2)] by simp
qed

end
