(* ===== verification/Unobtrusive.thy ===== *)
theory Unobtrusive
  imports Validator_Form
begin

text \<open>
  The unobtrusive adapters (\<open>jquery.validate.unobtrusive.js\<close>): the rules and messages of \<open>jquery.validate.js\<close> are read
  from \<open>data-val-*\<close> attributes, and errors are shown in containers marked with \<open>data-valmsg-*\<close> attributes.

  An adapter is a record with the function that adapts; a function returns \<open>None\<close> where it throws. The functions that
  the \<open>remote\<close> adapter creates for its data are numbered by their place in \<open>ao_funs\<close>, which holds the field name each closes
  over. A form is the list of its elements. \<open>new RegExp(s).exec\<close> and visibility are parameters.
\<close>

section \<open>Strings\<close>

definition splitAndTrim :: "string \<Rightarrow> string list" where
  "splitAndTrim value = map js_trim (split_by (\<lambda>c. c = CHR '','') (js_trim value))"

definition attr_special :: "char \<Rightarrow> bool" where
  "attr_special c \<longleftrightarrow> c \<in> set ''!\"#$%&()*+,./:;<=>?@[]^`{|}~'' \<or> c = CHR 0x27 \<or> c = CHR 0x5C"

definition escapeAttributeValue :: "string \<Rightarrow> string" where
  "escapeAttributeValue value = concat (map (\<lambda>c. if attr_special c then [CHR 0x5C, c] else [c]) value)"

definition getModelPrefix :: "string \<Rightarrow> string" where
  "getModelPrefix fieldName = rev (dropWhile (\<lambda>c. c \<noteq> CHR ''.'') (rev fieldName))"

text \<open>The replacement patterns of \<open>value.replace("*.", prefix)\<close> when the match is at the start: \<open>$$\<close>, \<open>$&\<close>, the text
  before (empty) and the text after the match.\<close>

fun expand_replacement :: "string \<Rightarrow> string \<Rightarrow> string \<Rightarrow> string" where
  "expand_replacement matched rest (c # d # s) =
     (if c \<noteq> CHR ''$'' then c # expand_replacement matched rest (d # s)
      else if d = CHR ''$'' then CHR ''$'' # expand_replacement matched rest s
      else if d = CHR ''&'' then matched @ expand_replacement matched rest s
      else if d = CHR 0x60 then expand_replacement matched rest s
      else if d = CHR 0x27 then rest @ expand_replacement matched rest s
      else c # expand_replacement matched rest (d # s))"
| "expand_replacement matched rest s = s"

definition appendModelPrefix :: "string \<Rightarrow> string \<Rightarrow> string" where
  "appendModelPrefix value prefix =
     (if take 2 value = ''*.'' then expand_replacement ''*.'' (drop 2 value) prefix @ drop 2 value else value)"

section \<open>Adapters\<close>

record adapt_opts =
  ao_element :: felem
  ao_form :: "felem list"
  ao_message :: string
  ao_params :: "(string \<times> string option) list"
  ao_rules :: "pval obj"
  ao_messages :: "string obj"
  ao_funs :: "string list"

text \<open>A name that may be undefined as a property key, and a parameter (an attribute that may be missing) as a value.\<close>

definition prop_key :: "string option \<Rightarrow> string" where
  "prop_key k = (case k of Some s \<Rightarrow> s | None \<Rightarrow> ''undefined'')"

definition param_get :: "adapt_opts \<Rightarrow> string \<Rightarrow> string option" where
  "param_get opts k = (case obj_get (ao_params opts) k of Some v \<Rightarrow> v | None \<Rightarrow> None)"

definition of_param :: "string option \<Rightarrow> pval" where
  "of_param v = (case v of Some s \<Rightarrow> PStr s | None \<Rightarrow> PUndef)"

definition setValidationValues :: "adapt_opts \<Rightarrow> string option \<Rightarrow> pval \<Rightarrow> adapt_opts" where
  "setValidationValues opts ruleName value =
     opts\<lparr>ao_rules := obj_set (prop_key ruleName) value (ao_rules opts),
          ao_messages := (if ao_message opts \<noteq> [] then obj_set (prop_key ruleName) (ao_message opts) (ao_messages opts)
                          else ao_messages opts)\<rparr>"

record adapter =
  ad_name :: string
  ad_params :: "string list"
  ad_adapt :: "adapt_opts \<Rightarrow> adapt_opts option"

definition adapters_add :: "string \<Rightarrow> string list \<Rightarrow> (adapt_opts \<Rightarrow> adapt_opts option) \<Rightarrow> adapter list \<Rightarrow> adapter list" where
  "adapters_add adapterName params fn ads = ads @ [\<lparr>ad_name = adapterName, ad_params = params, ad_adapt = fn\<rparr>]"

definition or_name :: "string option \<Rightarrow> string \<Rightarrow> string" where
  "or_name x d = (case x of Some s \<Rightarrow> if s = [] then d else s | None \<Rightarrow> d)"

definition addBool :: "string \<Rightarrow> string option \<Rightarrow> adapter list \<Rightarrow> adapter list" where
  "addBool adapterName ruleName =
     adapters_add adapterName [] (\<lambda>opts. Some (setValidationValues opts (Some (or_name ruleName adapterName)) (PBool True)))"

text \<open>The parameters are read as \<open>min\<close> and \<open>max\<close>, whatever the attributes are called.\<close>

definition minmax_adapt :: "string option \<Rightarrow> string option \<Rightarrow> string option \<Rightarrow> adapt_opts \<Rightarrow> adapt_opts option" where
  "minmax_adapt minRuleName maxRuleName minMaxRuleName opts =
     (let min = of_param (param_get opts ''min''); max = of_param (param_get opts ''max'')
      in Some (if ptruthy min \<and> ptruthy max then setValidationValues opts minMaxRuleName (PArr [min, max])
               else if ptruthy min then setValidationValues opts minRuleName min
               else if ptruthy max then setValidationValues opts maxRuleName max
               else opts))"

definition addMinMax ::
  "string \<Rightarrow> string option \<Rightarrow> string option \<Rightarrow> string option \<Rightarrow> string option \<Rightarrow> string option \<Rightarrow> adapter list \<Rightarrow> adapter list" where
  "addMinMax adapterName minRuleName maxRuleName minMaxRuleName minAttribute maxAttribute =
     adapters_add adapterName [or_name minAttribute ''min'', or_name maxAttribute ''max'']
       (minmax_adapt minRuleName maxRuleName minMaxRuleName)"

definition addSingleVal :: "string \<Rightarrow> string option \<Rightarrow> string option \<Rightarrow> adapter list \<Rightarrow> adapter list" where
  "addSingleVal adapterName attribute ruleName =
     adapters_add adapterName [or_name attribute ''val'']
       (\<lambda>opts. Some (setValidationValues opts (Some (or_name ruleName adapterName)) (of_param (param_get opts (prop_key attribute)))))"

text \<open>\<open>$(form).find(":input").filter("[name='...']")\<close>.\<close>

definition is_input :: "felem \<Rightarrow> bool" where
  "is_input el \<longleftrightarrow> toLowerCase (e_node el) \<in> {''input'', ''textarea'', ''select'', ''button''}"

definition inputs_named :: "felem list \<Rightarrow> string \<Rightarrow> nat list" where
  "inputs_named frm name = filter (\<lambda>i. is_input (frm ! i) \<and> obj_get (e_attrs (frm ! i)) ''name'' = Some name) [0..<length frm]"

definition equalto_adapt :: "adapt_opts \<Rightarrow> adapt_opts option" where
  "equalto_adapt opts =
     (case param_get opts ''other'' of
        None \<Rightarrow> None
      | Some other \<Rightarrow>
          let fullOtherName = appendModelPrefix other (getModelPrefix (e_name (ao_element opts)))
          in Some (setValidationValues opts (Some ''equalTo'')
               (case inputs_named (ao_form opts) fullOtherName of i # _ \<Rightarrow> PElem i | [] \<Rightarrow> PUndef)))"

definition required_adapt :: "adapt_opts \<Rightarrow> adapt_opts option" where
  "required_adapt opts =
     Some (if toUpperCase (e_node (ao_element opts)) \<noteq> ''INPUT'' \<or> toUpperCase (e_type (ao_element opts)) \<noteq> ''CHECKBOX''
           then setValidationValues opts (Some ''required'') (PBool True) else opts)"

text \<open>One round of the loop over the additional fields.\<close>

definition remote_field :: "string \<Rightarrow> string \<Rightarrow> pval obj \<times> string list \<Rightarrow> pval obj \<times> string list" where
  "remote_field prefix fieldName acc =
     (case acc of (data, funs) \<Rightarrow>
        let paramName = appendModelPrefix fieldName prefix
        in (obj_set paramName (PFun (length funs)) data, funs @ [paramName]))"

definition remote_adapt :: "adapt_opts \<Rightarrow> adapt_opts option" where
  "remote_adapt opts =
     (let prefix = getModelPrefix (e_name (ao_element opts));
          fields = splitAndTrim (or_name (param_get opts ''additionalfields'') (e_name (ao_element opts)));
          (data, funs) = fold (remote_field prefix) fields ([], ao_funs opts)
      in Some (setValidationValues (opts\<lparr>ao_funs := funs\<rparr>) (Some ''remote'')
           (PObj [(''url'', of_param (param_get opts ''url'')),
                  (''type'', PStr (or_name (param_get opts ''type'') ''GET'')),
                  (''data'', PObj data)])))"

text \<open>The function created for a field: what it returns when the request is made.\<close>

definition val_or :: "pval \<Rightarrow> pval \<Rightarrow> pval" where
  "val_or x d = (if ptruthy x then x else d)"

definition first_val :: "felem list \<Rightarrow> nat list \<Rightarrow> pval" where
  "first_val frm ixs = (case ixs of i # _ \<Rightarrow> e_val (frm ! i) | [] \<Rightarrow> PUndef)"

definition remote_value :: "(felem \<Rightarrow> bool) \<Rightarrow> felem list \<Rightarrow> string \<Rightarrow> pval" where
  "remote_value hidden frm paramName =
     (let field = inputs_named frm paramName;
          checked = filter (\<lambda>i. e_checked (frm ! i)) field
      in if list_ex (\<lambda>i. toLowerCase (e_type (frm ! i)) = ''checkbox'') field
         then val_or (first_val frm checked) (val_or (first_val frm (filter (\<lambda>i. hidden (frm ! i)) field)) (PStr []))
         else if list_ex (\<lambda>i. toLowerCase (e_type (frm ! i)) = ''radio'') field
         then val_or (first_val frm checked) (PStr [])
         else first_val frm field)"

definition password_adapt :: "adapt_opts \<Rightarrow> adapt_opts option" where
  "password_adapt opts =
     (let set_if = (\<lambda>param rule opts'. let v = of_param (param_get opts param)
                                       in if ptruthy v then setValidationValues opts' (Some rule) v else opts')
      in Some (set_if ''regex'' ''regex'' (set_if ''nonalphamin'' ''nonalphamin'' (set_if ''min'' ''minlength'' opts))))"

definition fileextensions_adapt :: "adapt_opts \<Rightarrow> adapt_opts option" where
  "fileextensions_adapt opts =
     Some (setValidationValues opts (Some ''extension'') (of_param (param_get opts ''extensions'')))"

text \<open>The adapters the file registers; the argument says whether the method \<open>extension\<close> exists.\<close>

definition standard_adapters :: "bool \<Rightarrow> adapter list" where
  "standard_adapters has_extension =
     (let extensions = (if has_extension
            then addSingleVal ''extension'' (Some ''extension'') None \<circ> addSingleVal ''accept'' (Some ''mimtype'') None
            else addSingleVal ''extension'' (Some ''extension'') (Some ''accept''));
          bools = fold (\<lambda>name. addBool name None) [''creditcard'', ''date'', ''digits'', ''email'', ''number'', ''url''];
          ranges = addMinMax ''range'' (Some ''min'') (Some ''max'') (Some ''range'') None None
            \<circ> addMinMax ''length'' (Some ''minlength'') (Some ''maxlength'') (Some ''rangelength'') None None;
          lengths = addMinMax ''maxlength'' (Some ''minlength'') (Some ''maxlength'') None None None
            \<circ> addMinMax ''minlength'' (Some ''minlength'') None None None None
      in adapters_add ''fileextensions'' [''extensions''] fileextensions_adapt
        (adapters_add ''password'' [''min'', ''nonalphamin'', ''regex''] password_adapt
        (adapters_add ''remote'' [''url'', ''type'', ''additionalfields''] remote_adapt
        (adapters_add ''required'' [] required_adapt
        (adapters_add ''equalto'' [''other''] equalto_adapt
        (lengths (ranges (bools (addSingleVal ''regex'' (Some ''pattern'') None (extensions [])))))))))) "

section \<open>Parsing\<close>

text \<open>\<open>validationInfo(form).options\<close>: the rules and messages by field name. \<open>vi_attached\<close> is what the validator of the form was
  created with: \<open>validate\<close> copies the options once and ignores those of later calls.\<close>

record vinfo =
  vi_rules :: "pval obj"
  vi_messages :: "msgs obj"
  vi_funs :: "string list"
  vi_attached :: "(pval obj \<times> msgs obj) option"

definition new_info :: vinfo where
  "new_info = \<lparr>vi_rules = [], vi_messages = [], vi_funs = [], vi_attached = None\<rparr>"

text \<open>One adapter on an element; \<open>None\<close> when it throws.\<close>

definition apply_adapter :: "adapter \<Rightarrow> adapt_opts \<Rightarrow> adapt_opts option" where
  "apply_adapter ad opts =
     (let prefix = ''data-val-'' @ ad_name ad; attr = obj_get (e_attrs (ao_element opts))
      in case attr prefix of
           None \<Rightarrow> Some opts
         | Some message \<Rightarrow>
             ad_adapt ad (opts\<lparr>ao_message := message,
               ao_params := foldl (\<lambda>ps k. obj_set k (attr (prefix @ ''-'' @ k)) ps) [] (ad_params ad)\<rparr>))"

fun apply_adapters :: "adapter list \<Rightarrow> adapt_opts \<Rightarrow> adapt_opts option" where
  "apply_adapters [] opts = Some opts"
| "apply_adapters (ad # ads) opts =
     (case apply_adapter ad opts of None \<Rightarrow> None | Some opts' \<Rightarrow> apply_adapters ads opts')"

definition element_opts :: "felem list \<Rightarrow> felem \<Rightarrow> string list \<Rightarrow> adapt_opts" where
  "element_opts frm el funs =
     \<lparr>ao_element = el, ao_form = frm, ao_message = [], ao_params = [], ao_rules = [], ao_messages = [], ao_funs = funs\<rparr>"

definition attachValidation :: "vinfo \<Rightarrow> vinfo" where
  "attachValidation info =
     (case vi_attached info of
        Some settings \<Rightarrow> info
      | None \<Rightarrow> info\<lparr>vi_attached := Some (extend_deep [] (vi_rules info), vi_messages info)\<rparr>)"

text \<open>\<open>parseElement\<close> on an element of the form. When an adapter throws, so does it; the entries it had begun are replaced when the
  element is parsed again.\<close>

definition parseElement :: "adapter list \<Rightarrow> felem list \<Rightarrow> felem \<Rightarrow> bool \<Rightarrow> vinfo \<Rightarrow> vinfo option" where
  "parseElement ads frm el skipAttach info =
     (case apply_adapters ads (element_opts frm el (vi_funs info)) of
        None \<Rightarrow> None
      | Some opts \<Rightarrow>
          let info' = info\<lparr>vi_rules := obj_set (e_name el) (PObj (extend_one (ao_rules opts) [(''__dummy__'', PBool True)])) (vi_rules info),
                vi_messages := obj_set (e_name el) (MsgBy (map (\<lambda>(k, m). (k, Some (MStr m))) (ao_messages opts))) (vi_messages info),
                vi_funs := ao_funs opts\<rparr>
          in Some (if skipAttach then info' else attachValidation info'))"

text \<open>\<open>parse\<close> on a form: the elements with \<open>data-val=true\<close> are parsed, then the validator is attached (the form is found when it
  has such an element).\<close>

definition wants_validation :: "felem \<Rightarrow> bool" where
  "wants_validation el \<longleftrightarrow> obj_get (e_attrs el) ''data-val'' = Some ''true''"

fun parse_elements :: "adapter list \<Rightarrow> felem list \<Rightarrow> felem list \<Rightarrow> vinfo \<Rightarrow> vinfo option" where
  "parse_elements ads frm [] info = Some info"
| "parse_elements ads frm (el # els) info =
     (case parseElement ads frm el True info of None \<Rightarrow> None | Some info' \<Rightarrow> parse_elements ads frm els info')"

definition parse :: "adapter list \<Rightarrow> felem list \<Rightarrow> vinfo \<Rightarrow> vinfo option" where
  "parse ads frm info =
     (let els = filter wants_validation frm
      in if els = [] then Some info else map_option attachValidation (parse_elements ads frm els info))"

section \<open>Methods\<close>

definition dummy_method :: vresult where
  "dummy_method = VTrue"

text \<open>\<open>exec s value\<close> is the place and text of the first match of \<open>new RegExp(s)\<close>, \<open>compiles s\<close> that it does not throw.\<close>

definition regex_method :: "(string \<Rightarrow> bool) \<Rightarrow> (string \<Rightarrow> string \<Rightarrow> (nat \<times> string) option) \<Rightarrow> vresult \<Rightarrow> string \<Rightarrow> string \<Rightarrow> vresult" where
  "regex_method compiles exec opt value params =
     (if opt \<noteq> VFalse then VTrue
      else if \<not> compiles params then VThrow
      else vbool (case exec params value of None \<Rightarrow> False | Some (index, m) \<Rightarrow> index = 0 \<and> length m = length value))"

definition nonalphamin :: "string \<Rightarrow> pval \<Rightarrow> vresult" where
  "nonalphamin value param =
     (let n = length (filter (\<lambda>c. \<not> is_word c) value)
      in vbool (ptruthy param \<and> 0 < n \<and> js_le param (PNum (Some (of_nat n)))))"

section \<open>Showing errors\<close>

text \<open>An element with \<open>data-valmsg-for\<close>, with its replace attribute and the error labels it contains; an error label with the
  containers remembered in its data; and a validation summary, with its list items if it has a list.\<close>

record vcontainer =
  vc_for :: "string option"
  vc_replace :: "string option"
  vc_class :: "string option"
  vc_content :: "nat list"

record uerror =
  ue_container :: "nat list option"
  ue_class :: "string option"
  ue_hidden :: bool

record usummary =
  us_class :: "string option"
  us_items :: "string list option"

record udisplay =
  ud_containers :: "vcontainer list"
  ud_errors :: "uerror list"
  ud_summaries :: "usummary list"

text \<open>\<open>$.parseJSON\<close> on literals and numbers; other values do not occur in the attribute. \<open>None\<close>: it throws.\<close>

definition parseJSON :: "string \<Rightarrow> pval option" where
  "parseJSON s =
     (let t = js_trim s
      in if t = ''true'' then Some (PBool True) else if t = ''false'' then Some (PBool False) else if t = ''null'' then Some PNull
         else map_option (\<lambda>q. PNum (Some q)) (parse_decimal t))"

definition swap_class :: "string \<Rightarrow> string \<Rightarrow> string option \<Rightarrow> string option" where
  "swap_class old new c = addClass (removeClass c (Some (ClassString old))) (ClassString new)"

definition upd_containers :: "nat list \<Rightarrow> (vcontainer \<Rightarrow> vcontainer) \<Rightarrow> udisplay \<Rightarrow> udisplay" where
  "upd_containers ixs f d = d\<lparr>ud_containers := map (\<lambda>(i, c). if i \<in> set ixs then f c else c) (enumerate 0 (ud_containers d))\<rparr>"

definition upd_error :: "nat \<Rightarrow> (uerror \<Rightarrow> uerror) \<Rightarrow> udisplay \<Rightarrow> udisplay" where
  "upd_error e f d = d\<lparr>ud_errors := (ud_errors d)[e := f (ud_errors d ! e)]\<rparr>"

definition replace_attr :: "nat list \<Rightarrow> udisplay \<Rightarrow> string option" where
  "replace_attr ixs d = (case ixs of i # _ \<Rightarrow> vc_replace (ud_containers d ! i) | [] \<Rightarrow> None)"

definition containers_for :: "string \<Rightarrow> udisplay \<Rightarrow> nat list" where
  "containers_for name d = filter (\<lambda>i. vc_for (ud_containers d ! i) = Some name) [0..<length (ud_containers d)]"

definition onError :: "nat \<Rightarrow> string \<Rightarrow> udisplay \<Rightarrow> udisplay option" where
  "onError e inputName d =
     (let container = containers_for inputName d;
          shown = (\<lambda>replace.
            let d1 = upd_error e (\<lambda>x. x\<lparr>ue_container := Some container\<rparr>)
                  (upd_containers container (\<lambda>c. c\<lparr>vc_class := swap_class ''field-validation-valid'' ''field-validation-error'' (vc_class c)\<rparr>) d)
            in if replace
               then upd_error e (\<lambda>x. x\<lparr>ue_class := removeClass (ue_class x) (Some (ClassString ''input-validation-error''))\<rparr>)
                      (upd_containers container (\<lambda>c. c\<lparr>vc_content := [e]\<rparr>) d1)
               else upd_error e (\<lambda>x. x\<lparr>ue_hidden := True\<rparr>) d1)
      in if or_name (replace_attr container d) [] = [] then Some (shown False)
         else map_option (\<lambda>v. shown (v \<noteq> PBool False)) (parseJSON (the (replace_attr container d))))"

definition onErrors :: "string list \<Rightarrow> udisplay \<Rightarrow> udisplay" where
  "onErrors messages d =
     (if list_ex (\<lambda>s. us_items s \<noteq> None) (ud_summaries d) \<and> messages \<noteq> []
      then d\<lparr>ud_summaries := map (\<lambda>s. s\<lparr>us_class := removeClass (addClass (us_class s) (ClassString ''validation-summary-errors''))
                 (Some (ClassString ''validation-summary-valid'')),
               us_items := map_option (\<lambda>x. messages) (us_items s)\<rparr>) (ud_summaries d)\<rparr>
      else d)"

definition onSuccess :: "nat \<Rightarrow> udisplay \<Rightarrow> udisplay option" where
  "onSuccess e d =
     (case ue_container (ud_errors d ! e) of
        None \<Rightarrow> Some d
      | Some container \<Rightarrow>
          let shown = (\<lambda>replace.
                let d1 = upd_error e (\<lambda>x. x\<lparr>ue_container := None\<rparr>)
                      (upd_containers container (\<lambda>c. c\<lparr>vc_class := removeClass
                          (addClass (vc_class c) (ClassString ''field-validation-valid'')) (Some (ClassString ''field-validation-error''))\<rparr>) d)
                in if replace then upd_containers container (\<lambda>c. c\<lparr>vc_content := []\<rparr>) d1 else d1)
          in if or_name (replace_attr container d) [] = [] then Some (shown False)
             else map_option (\<lambda>v. shown (ptruthy v)) (parseJSON (the (replace_attr container d))))"

text \<open>\<open>onReset\<close> after the validator's \<open>resetForm\<close>: the classes, and the data of the labels inside the containers.\<close>

definition onReset_display :: "udisplay \<Rightarrow> udisplay" where
  "onReset_display d =
     (let failed = (\<lambda>c. hasClass (vc_class c) ''field-validation-error'');
          inside = concat (map vc_content (filter failed (ud_containers d)))
      in d\<lparr>ud_summaries := map (\<lambda>s. if hasClass (us_class s) ''validation-summary-errors''
               then s\<lparr>us_class := removeClass (addClass (us_class s) (ClassString ''validation-summary-valid''))
                        (Some (ClassString ''validation-summary-errors''))\<rparr> else s) (ud_summaries d),
           ud_containers := map (\<lambda>c. if failed c
               then c\<lparr>vc_class := removeClass (addClass (vc_class c) (ClassString ''field-validation-valid''))
                        (Some (ClassString ''field-validation-error''))\<rparr> else c) (ud_containers d),
           ud_errors := map (\<lambda>(e, x). if e \<in> set inside then x\<lparr>ue_container := None\<rparr> else x) (enumerate 0 (ud_errors d))\<rparr>)"

end
