(* ===== verification/Unobtrusive_Correct.thy ===== *)
theory Unobtrusive_Correct
  imports Unobtrusive Validator_Correct Validators_Correct
begin

text \<open>
  Properties of the unobtrusive adapters: a selector built for a field name selects exactly that name, each adapter sets only its
  own rules and takes its message along, and what the attributes say is what the validator checks.
\<close>

section \<open>Reading selectors\<close>

text \<open>A quoted string of a selector, from behind the opening quote: its value and the rest. An escaped hexadecimal digit would begin
  a code point, which \<open>escapeAttributeValue\<close> never writes.\<close>

fun read_quoted :: "string \<Rightarrow> (string \<times> string) option" where
  "read_quoted [] = None"
| "read_quoted (c # s) =
     (if c = CHR 0x27 then Some ([], s)
      else if c = CHR 0x5C then
        (case s of
           [] \<Rightarrow> None
         | d # t \<Rightarrow> if is_hex_char (to_lower d) then None else map_option (\<lambda>(v, r). (d # v, r)) (read_quoted t))
      else map_option (\<lambda>(v, r). (c # v, r)) (read_quoted s))"

lemma special_not_hex: "attr_special c \<Longrightarrow> \<not> is_hex_char (to_lower c)"
  by (auto simp: attr_special_def is_hex_char_def to_lower_def)

text \<open>C21. A field name put into a selector is read back as exactly that name, whatever characters it has: the
  escaped name ends at the closing quote behind it and not before, so no name can break out of
  \<open>[name='...']\<close>.\<close>

theorem attribute_selector_exact:
  "read_quoted (escapeAttributeValue v @ CHR 0x27 # more_text) = Some (v, more_text)"
proof (induction v)
  case (Cons c v)
  then show ?case
    by (cases "attr_special c") (auto simp: escapeAttributeValue_def special_not_hex, auto simp: attr_special_def)
qed (simp add: escapeAttributeValue_def)

section \<open>What an adapter does\<close>

inductive adapted :: "string set \<Rightarrow> adapt_opts \<Rightarrow> adapt_opts \<Rightarrow> bool" for names where
  adapted_refl: "adapted names opts opts"
| adapted_set: "adapted names opts opts1 \<Longrightarrow> prop_key k \<in> names \<Longrightarrow> adapted names opts (setValidationValues opts1 k v)"
| adapted_funs: "adapted names opts opts1 \<Longrightarrow> adapted names opts (opts1\<lparr>ao_funs := fs\<rparr>)"

lemma setValidationValues_simps [simp]:
  "ao_element (setValidationValues opts k v) = ao_element opts" "ao_form (setValidationValues opts k v) = ao_form opts"
  "ao_message (setValidationValues opts k v) = ao_message opts" "ao_params (setValidationValues opts k v) = ao_params opts"
  "ao_funs (setValidationValues opts k v) = ao_funs opts"
  "ao_rules (setValidationValues opts k v) = obj_set (prop_key k) v (ao_rules opts)"
  "ao_messages (setValidationValues opts k v) =
     (if ao_message opts \<noteq> [] then obj_set (prop_key k) (ao_message opts) (ao_messages opts) else ao_messages opts)"
  by (simp_all add: setValidationValues_def)

lemma adapted_frame:
  assumes "adapted names opts opts'"
  shows "ao_element opts' = ao_element opts \<and> ao_form opts' = ao_form opts \<and> ao_message opts' = ao_message opts
    \<and> (\<forall>k. k \<notin> names \<longrightarrow> obj_get (ao_rules opts') k = obj_get (ao_rules opts) k
        \<and> obj_get (ao_messages opts') k = obj_get (ao_messages opts) k)"
  using assms by induction (auto simp: obj_get_set)

text \<open>The rules of each adapter of the file.\<close>

definition adapter_rules :: "string \<Rightarrow> string set" where
  "adapter_rules name =
     (if name = ''range'' then {''min'', ''max'', ''range''}
      else if name = ''length'' then {''minlength'', ''maxlength'', ''rangelength''}
      else if name = ''minlength'' then {''minlength'', ''undefined''}
      else if name = ''maxlength'' then {''minlength'', ''maxlength'', ''undefined''}
      else if name = ''equalto'' then {''equalTo''}
      else if name = ''password'' then {''minlength'', ''nonalphamin'', ''regex''}
      else if name = ''fileextensions'' then {''extension''}
      else if name = ''extension'' then {''extension'', ''accept''}
      else {name})"

lemma adapted_single: "prop_key k \<in> names \<Longrightarrow> adapted names opts (setValidationValues opts k v)"
  by (intro adapted_set adapted_refl)

definition frame_adapter :: "adapter \<Rightarrow> bool" where
  "frame_adapter ad \<longleftrightarrow> (\<forall>opts opts'. ad_adapt ad opts = Some opts' \<longrightarrow> adapted (adapter_rules (ad_name ad)) opts opts')"

lemma frame_add:
  assumes "\<And>opts opts'. f opts = Some opts' \<Longrightarrow> adapted (adapter_rules name) opts opts'" and "list_all frame_adapter ads"
  shows "list_all frame_adapter (adapters_add name ps f ads)"
  using assms by (simp add: adapters_add_def frame_adapter_def)

lemma frame_addBool:
  assumes "name \<in> adapter_rules name" and "list_all frame_adapter ads"
  shows "list_all frame_adapter (addBool name None ads)"
  unfolding addBool_def
proof (rule frame_add)
  fix opts opts' assume "Some (setValidationValues opts (Some (or_name None name)) (PBool True)) = Some opts'"
  with assms(1) adapted_single [of "Some name"] show "adapted (adapter_rules name) opts opts'"
    by (auto simp: or_name_def prop_key_def)
qed (rule assms(2))

lemma frame_addMinMax:
  assumes "{prop_key a, prop_key b, prop_key c} \<subseteq> adapter_rules name" and "list_all frame_adapter ads"
  shows "list_all frame_adapter (addMinMax name a b c d e ads)"
  unfolding addMinMax_def
proof (rule frame_add)
  fix opts opts' assume "minmax_adapt a b c opts = Some opts'"
  with assms(1) show "adapted (adapter_rules name) opts opts'"
    by (auto simp: minmax_adapt_def Let_def adapted_refl adapted_single split: if_splits)
qed (rule assms(2))

lemma frame_addSingleVal:
  assumes "or_name rule name \<in> adapter_rules name" and "list_all frame_adapter ads"
  shows "list_all frame_adapter (addSingleVal name attr rule ads)"
  unfolding addSingleVal_def
proof (rule frame_add)
  fix opts opts'
  assume "Some (setValidationValues opts (Some (or_name rule name)) (of_param (param_get opts (prop_key attr)))) = Some opts'"
  with assms(1) adapted_single [of "Some (or_name rule name)"] show "adapted (adapter_rules name) opts opts'"
    by (auto simp: prop_key_def)
qed (rule assms(2))

lemma adapted_equalto: "equalto_adapt opts = Some opts' \<Longrightarrow> adapted {''equalTo''} opts opts'"
  by (auto simp: equalto_adapt_def prop_key_def Let_def split: option.splits intro!: adapted_refl adapted_set)

lemma adapted_required: "required_adapt opts = Some opts' \<Longrightarrow> adapted {''required''} opts opts'"
  by (auto simp: required_adapt_def prop_key_def split: if_splits intro!: adapted_refl adapted_set)

lemma adapted_remote: "remote_adapt opts = Some opts' \<Longrightarrow> adapted {''remote''} opts opts'"
  by (auto simp: remote_adapt_def prop_key_def Let_def split: prod.splits intro!: adapted_set adapted_funs adapted_refl)

lemma adapted_password: "password_adapt opts = Some opts' \<Longrightarrow> adapted {''minlength'', ''nonalphamin'', ''regex''} opts opts'"
  by (auto simp: password_adapt_def prop_key_def Let_def split: if_splits intro!: adapted_refl adapted_set)

lemma adapted_fileextensions: "fileextensions_adapt opts = Some opts' \<Longrightarrow> adapted {''extension''} opts opts'"
  by (auto simp: fileextensions_adapt_def prop_key_def intro!: adapted_refl adapted_set)

lemma frame_standard: "list_all frame_adapter (standard_adapters b)"
proof -
  have rules: "adapter_rules ''fileextensions'' = {''extension''}" "adapter_rules ''remote'' = {''remote''}"
    "adapter_rules ''password'' = {''minlength'', ''nonalphamin'', ''regex''}" "adapter_rules ''required'' = {''required''}"
    "adapter_rules ''equalto'' = {''equalTo''}"
    by (simp_all add: adapter_rules_def)
  have ext: "list_all frame_adapter ((if b
      then addSingleVal ''extension'' (Some ''extension'') None \<circ> addSingleVal ''accept'' (Some ''mimtype'') None
      else addSingleVal ''extension'' (Some ''extension'') (Some ''accept'')) [])"
    by (simp add: frame_addSingleVal adapter_rules_def or_name_def)
  show ?thesis
    unfolding standard_adapters_def Let_def
    by (intro frame_add) (simp_all add: rules adapted_fileextensions adapted_password adapted_remote adapted_required adapted_equalto
        frame_addBool frame_addMinMax frame_addSingleVal ext adapter_rules_def prop_key_def or_name_def)
qed

section \<open>Applying all adapters\<close>

lemma apply_adapter_frame:
  assumes "frame_adapter ad" "apply_adapter ad opts = Some opts'"
  shows "ao_element opts' = ao_element opts" "ao_form opts' = ao_form opts"
    "k \<notin> adapter_rules (ad_name ad) \<Longrightarrow> obj_get (ao_rules opts') k = obj_get (ao_rules opts) k
       \<and> obj_get (ao_messages opts') k = obj_get (ao_messages opts) k"
proof -
  have "opts' = opts \<or> (\<exists>m ps. adapted (adapter_rules (ad_name ad)) (opts\<lparr>ao_message := m, ao_params := ps\<rparr>) opts')"
    using assms by (auto simp: apply_adapter_def frame_adapter_def Let_def split: option.splits)
  then show "ao_element opts' = ao_element opts" "ao_form opts' = ao_form opts"
    "k \<notin> adapter_rules (ad_name ad) \<Longrightarrow> obj_get (ao_rules opts') k = obj_get (ao_rules opts) k
       \<and> obj_get (ao_messages opts') k = obj_get (ao_messages opts) k"
    by (auto dest!: adapted_frame)
qed

lemma apply_adapters_append:
  "apply_adapters (xs @ ys) opts = (case apply_adapters xs opts of None \<Rightarrow> None | Some o1 \<Rightarrow> apply_adapters ys o1)"
  by (induction xs arbitrary: opts) (auto split: option.split)

lemma apply_adapters_frame:
  assumes "list_all frame_adapter ads" "apply_adapters ads opts = Some opts'" "\<forall>ad\<in>set ads. k \<notin> adapter_rules (ad_name ad)"
  shows "ao_element opts' = ao_element opts \<and> ao_form opts' = ao_form opts
    \<and> obj_get (ao_rules opts') k = obj_get (ao_rules opts) k \<and> obj_get (ao_messages opts') k = obj_get (ao_messages opts) k"
  using assms
proof (induction ads arbitrary: opts)
  case (Cons ad ads)
  then obtain o1 where o1: "apply_adapter ad opts = Some o1" "apply_adapters ads o1 = Some opts'" by (auto split: option.splits)
  with Cons apply_adapter_frame(1,2) [of ad opts o1] apply_adapter_frame(3) [of ad opts o1 k] show ?case by auto
qed simp

text \<open>A rule that one adapter sets is what this adapter makes of its own attributes.\<close>

lemma apply_adapters_one:
  assumes "list_all frame_adapter (xs @ ad # ys)" "apply_adapters (xs @ ad # ys) opts = Some opts'"
    and "\<forall>a\<in>set xs \<union> set ys. k \<notin> adapter_rules (ad_name a)"
  shows "\<exists>o1 o2. apply_adapter ad o1 = Some o2 \<and> ao_element o1 = ao_element opts \<and> ao_form o1 = ao_form opts
    \<and> obj_get (ao_rules o1) k = obj_get (ao_rules opts) k \<and> obj_get (ao_messages o1) k = obj_get (ao_messages opts) k
    \<and> obj_get (ao_rules opts') k = obj_get (ao_rules o2) k \<and> obj_get (ao_messages opts') k = obj_get (ao_messages o2) k"
proof -
  obtain o1 o2 where "apply_adapters xs opts = Some o1" "apply_adapter ad o1 = Some o2" "apply_adapters ys o2 = Some opts'"
    using assms(2) by (auto simp: apply_adapters_append split: option.splits)
  with apply_adapters_frame [of xs opts o1 k] apply_adapters_frame [of ys o2 opts' k] assms(1,3) show ?thesis
    by (intro exI [of _ o1] exI [of _ o2]) auto
qed

lemma standard_names: "distinct (map ad_name (standard_adapters b))"
  by (simp add: standard_adapters_def adapters_add_def addBool_def addMinMax_def addSingleVal_def Let_def)

lemma standard_name:
  assumes "ad \<in> set (standard_adapters b)"
  shows "ad_name ad \<noteq> ''rangelength''" "ad_name ad \<noteq> ''equalTo''"
  using assms by (auto simp: standard_adapters_def adapters_add_def addBool_def addMinMax_def addSingleVal_def Let_def split: if_splits)

lemma standard_only:
  assumes "ad \<in> set (standard_adapters b)" "a \<in> set (standard_adapters b)" "a \<noteq> ad"
    and "(ad_name ad, k) \<in> {(''length'', ''rangelength''), (''equalto'', ''equalTo'')}"
  shows "k \<notin> adapter_rules (ad_name a)"
proof -
  have other: "ad_name a \<noteq> ad_name ad" using standard_names [of b] assms(1-3) by (auto simp: distinct_map dest: inj_onD)
  have "''rangelength'' \<in> adapter_rules n \<Longrightarrow> n = ''length'' \<or> n = ''rangelength''"
    "''equalTo'' \<in> adapter_rules n \<Longrightarrow> n = ''equalto'' \<or> n = ''equalTo''" for n
    by (auto simp: adapter_rules_def split: if_splits)
  from this [of "ad_name a"] show ?thesis using assms(4) other standard_name [OF assms(2)] by auto
qed

lemma standard_result:
  assumes ad: "ad \<in> set (standard_adapters b)" and k: "(ad_name ad, k) \<in> {(''length'', ''rangelength''), (''equalto'', ''equalTo'')}"
    and all: "apply_adapters (standard_adapters b) opts = Some opts'"
  shows "\<exists>o1 o2. apply_adapter ad o1 = Some o2 \<and> ao_element o1 = ao_element opts \<and> ao_form o1 = ao_form opts
    \<and> obj_get (ao_rules o1) k = obj_get (ao_rules opts) k \<and> obj_get (ao_messages o1) k = obj_get (ao_messages opts) k
    \<and> obj_get (ao_rules opts') k = obj_get (ao_rules o2) k \<and> obj_get (ao_messages opts') k = obj_get (ao_messages o2) k"
proof -
  obtain xs ys where split: "standard_adapters b = xs @ ad # ys" using split_list [OF ad] by blast
  have "a \<noteq> ad" if "a \<in> set xs \<union> set ys" for a
    using that standard_names [of b] by (auto simp: split)
  then have "\<forall>a\<in>set xs \<union> set ys. k \<notin> adapter_rules (ad_name a)"
    using standard_only [OF ad _ _ k] by (auto simp: split)
  then show ?thesis
    using apply_adapters_one [of xs ad ys opts opts' k] frame_standard [of b] all unfolding split by blast
qed

lemma length_rule:
  assumes "apply_adapters (standard_adapters b) (element_opts frm el funs) = Some opts'"
    and "obj_get (e_attrs el) ''data-val-length'' = Some msg"
    and "obj_get (e_attrs el) ''data-val-length-min'' = Some lo" "obj_get (e_attrs el) ''data-val-length-max'' = Some hi"
    and "lo \<noteq> []" "hi \<noteq> []"
  shows "obj_get (ao_rules opts') ''rangelength'' = Some (PArr [PStr lo, PStr hi])"
    and "msg \<noteq> [] \<Longrightarrow> obj_get (ao_messages opts') ''rangelength'' = Some msg"
proof -
  let ?ad = "\<lparr>ad_name = ''length'', ad_params = [''min'', ''max''],
    ad_adapt = minmax_adapt (Some ''minlength'') (Some ''maxlength'') (Some ''rangelength'')\<rparr>"
  have "?ad \<in> set (standard_adapters b)"
    by (simp add: standard_adapters_def adapters_add_def addBool_def addMinMax_def addSingleVal_def or_name_def Let_def)
  from standard_result [OF this _ assms(1), of "''rangelength''"] obtain o1 o2 where o: "apply_adapter ?ad o1 = Some o2" "ao_element o1 = el"
    "obj_get (ao_rules opts') ''rangelength'' = obj_get (ao_rules o2) ''rangelength''"
    "obj_get (ao_messages opts') ''rangelength'' = obj_get (ao_messages o2) ''rangelength''"
    by (auto simp: element_opts_def)
  have "o2 = setValidationValues (o1\<lparr>ao_message := msg, ao_params := [(''min'', Some lo), (''max'', Some hi)]\<rparr>)
      (Some ''rangelength'') (PArr [PStr lo, PStr hi])"
    using o(1) assms(2-6) unfolding apply_adapter_def o(2)
    by (simp add: minmax_adapt_def param_get_def obj_get_def of_param_def ptruthy_def Let_def)
  then show "obj_get (ao_rules opts') ''rangelength'' = Some (PArr [PStr lo, PStr hi])"
    "msg \<noteq> [] \<Longrightarrow> obj_get (ao_messages opts') ''rangelength'' = Some msg"
    using o(3,4) by (simp_all add: obj_get_set prop_key_def)
qed

lemma equalto_rule:
  assumes "apply_adapters (standard_adapters b) (element_opts frm el funs) = Some opts'"
    and "obj_get (e_attrs el) ''data-val-equalto'' = Some msg" "obj_get (e_attrs el) ''data-val-equalto-other'' = Some other"
  shows "obj_get (ao_rules opts') ''equalTo'' =
    Some (case inputs_named frm (appendModelPrefix other (getModelPrefix (e_name el))) of i # _ \<Rightarrow> PElem i | [] \<Rightarrow> PUndef)"
proof -
  let ?ad = "\<lparr>ad_name = ''equalto'', ad_params = [''other''], ad_adapt = equalto_adapt\<rparr>"
  have "?ad \<in> set (standard_adapters b)" by (simp add: standard_adapters_def adapters_add_def Let_def)
  from standard_result [OF this _ assms(1), of "''equalTo''"] obtain o1 o2 where o: "apply_adapter ?ad o1 = Some o2" "ao_element o1 = el"
    "ao_form o1 = frm" "obj_get (ao_rules opts') ''equalTo'' = obj_get (ao_rules o2) ''equalTo''"
    by (auto simp: element_opts_def)
  show ?thesis
    using o(1) assms(2,3) unfolding apply_adapter_def o(2,4)
    by (auto simp: equalto_adapt_def param_get_def obj_get_def Let_def o(2,3) prop_key_def obj_get_set [unfolded obj_get_def])
qed

section \<open>Parsing a form\<close>

lemma apply_adapters_distinct:
  assumes "list_all frame_adapter ads" "apply_adapters ads opts = Some opts'" "distinct (obj_keys (ao_rules opts))"
  shows "distinct (obj_keys (ao_rules opts'))"
  using assms
proof (induction ads arbitrary: opts)
  case (Cons ad ads)
  then obtain o1 where o1: "apply_adapter ad opts = Some o1" "apply_adapters ads o1 = Some opts'" by (auto split: option.splits)
  have keep: "adapted names opts0 opts1 \<Longrightarrow> distinct (obj_keys (ao_rules opts0)) \<Longrightarrow> distinct (obj_keys (ao_rules opts1))" for names opts0 opts1
    by (induction rule: adapted.induct) (auto simp: distinct_obj_set)
  have "opts = o1 \<or> (\<exists>m ps. adapted (adapter_rules (ad_name ad)) (opts\<lparr>ao_message := m, ao_params := ps\<rparr>) o1)"
    using Cons.prems(1) o1(1) by (auto simp: apply_adapter_def frame_adapter_def Let_def split: option.splits)
  then have "distinct (obj_keys (ao_rules o1))" using Cons.prems(3) keep by fastforce
  then show ?case using Cons.IH [OF _ o1(2)] Cons.prems(1) by simp
qed simp

definition field_entry :: "adapter list \<Rightarrow> felem list \<Rightarrow> felem \<Rightarrow> vinfo \<Rightarrow> bool" where
  "field_entry ads frm el info \<longleftrightarrow> (\<exists>funs opts. apply_adapters ads (element_opts frm el funs) = Some opts
     \<and> obj_get (vi_rules info) (e_name el) = Some (PObj (extend_one (ao_rules opts) [(''__dummy__'', PBool True)]))
     \<and> obj_get (vi_messages info) (e_name el) = Some (MsgBy (map (\<lambda>(k, m). (k, Some (MStr m))) (ao_messages opts))))"

lemma parse_elements_entries:
  assumes "parse_elements ads frm els info = Some info'" "distinct (map e_name els)"
  shows "(\<forall>k. k \<notin> e_name ` set els \<longrightarrow> obj_get (vi_rules info') k = obj_get (vi_rules info) k
        \<and> obj_get (vi_messages info') k = obj_get (vi_messages info) k)
    \<and> (\<forall>el\<in>set els. field_entry ads frm el info') \<and> vi_attached info' = vi_attached info
    \<and> (distinct (obj_keys (vi_rules info)) \<longrightarrow> distinct (obj_keys (vi_rules info')))"
  using assms
proof (induction els arbitrary: info)
  case (Cons el els)
  then obtain i1 where i1: "parseElement ads frm el True info = Some i1" "parse_elements ads frm els i1 = Some info'"
    by (auto split: option.splits)
  then obtain opts where opts: "apply_adapters ads (element_opts frm el (vi_funs info)) = Some opts"
    "i1 = info\<lparr>vi_rules := obj_set (e_name el) (PObj (extend_one (ao_rules opts) [(''__dummy__'', PBool True)])) (vi_rules info),
       vi_messages := obj_set (e_name el) (MsgBy (map (\<lambda>(k, m). (k, Some (MStr m))) (ao_messages opts))) (vi_messages info),
       vi_funs := ao_funs opts\<rparr>"
    by (auto simp: parseElement_def Let_def split: option.splits)
  note IH = Cons.IH [OF i1(2)]
  have new: "e_name el \<notin> e_name ` set els" using Cons.prems(2) by auto
  then have "obj_get (vi_rules info') (e_name el) = obj_get (vi_rules i1) (e_name el)"
    "obj_get (vi_messages info') (e_name el) = obj_get (vi_messages i1) (e_name el)"
    using IH Cons.prems(2) by auto
  then have "field_entry ads frm el info'" using opts unfolding field_entry_def by (auto simp: obj_get_set)
  moreover have "distinct (obj_keys (vi_rules info)) \<Longrightarrow> distinct (obj_keys (vi_rules i1))"
    by (simp add: opts(2) distinct_obj_set)
  ultimately show ?case using IH Cons.prems(2) by (auto simp: opts(2) obj_get_set)
qed simp

lemma extend_deep_get:
  assumes "distinct (obj_keys ob)" "k \<noteq> ''__proto__''"
  shows "obj_get (extend_deep t ob) k = (case obj_get ob k of None \<Rightarrow> obj_get t k
    | Some v \<Rightarrow> if v = PUndef then obj_get t k else Some (extend_value (pget t k) v))"
  using assms(1)
proof (induction ob arbitrary: t)
  case (Cons p ob)
  obtain l v where p: "p = (l, v)" by (cases p)
  have none: "obj_get ob l = None" using Cons.prems by (simp add: p obj_get_None)
  define t' where "t' = (if l = ''__proto__'' \<or> v = PUndef then t else obj_set l (extend_value (pget t l) v) t)"
  have step: "extend_deep t (p # ob) = extend_deep t' ob" by (simp add: p t'_def)
  have IH: "obj_get (extend_deep t' ob) k = (case obj_get ob k of None \<Rightarrow> obj_get t' k
    | Some w \<Rightarrow> if w = PUndef then obj_get t' k else Some (extend_value (pget t' k) w))"
    using Cons.IH [of t'] Cons.prems by (simp add: p)
  show ?case
  proof (cases "k = l")
    case True
    then show ?thesis unfolding step IH using none assms(2) by (simp add: p t'_def obj_get_set) (simp add: obj_get_def)
  next
    case False
    then have "pget t' k = pget t k" "obj_get t' k = obj_get t k" "obj_get (p # ob) k = obj_get ob k"
      by (simp_all add: t'_def pget_def obj_get_set) (simp add: obj_get_def p)
    then show ?thesis unfolding step IH by (simp split: option.split)
  qed
qed (simp add: obj_get_def)

lemma extend_deep_distinct: "distinct (obj_keys t) \<Longrightarrow> distinct (obj_keys (extend_deep t ob))"
  by (induction ob arbitrary: t) (auto simp: distinct_obj_set split: prod.splits)

lemma pget_extend_deep:
  assumes "distinct (obj_keys ob)" "k \<noteq> ''__proto__''"
  shows "pget (extend_deep [] ob) k = (if pget ob k = PUndef then PUndef else extend_value PUndef (pget ob k))"
  using extend_deep_get [OF assms, of "[]"] by (simp add: pget_def obj_get_def split: option.split)

text \<open>The static rules of a parsed field, as the validator reads them from its settings.\<close>

lemma parsed_static_rules:
  assumes parse: "parse ads frm new_info = Some info" and ads: "list_all frame_adapter ads"
    and el: "el \<in> set frm" "wants_validation el" and names: "distinct (map e_name (filter wants_validation frm))"
    and proto: "e_name el \<noteq> ''__proto__''"
  shows "\<exists>rs ms funs opts. vi_attached info = Some (rs, ms) \<and> apply_adapters ads (element_opts frm el funs) = Some opts
    \<and> distinct (obj_keys (ao_rules opts)) \<and> distinct (obj_keys (staticRules rs el))
    \<and> (\<forall>k. k \<noteq> ''__proto__'' \<longrightarrow> k \<noteq> ''__dummy__'' \<longrightarrow>
          pget (staticRules rs el) k = (if pget (ao_rules opts) k = PUndef then PUndef else extend_value PUndef (pget (ao_rules opts) k)))
    \<and> obj_get ms (e_name el) = Some (MsgBy (map (\<lambda>(k, m). (k, Some (MStr m))) (ao_messages opts)))"
proof -
  let ?els = "filter wants_validation frm"
  have "?els \<noteq> []" using el by (auto simp: filter_empty_conv)
  then obtain i1 where i1: "parse_elements ads frm ?els new_info = Some i1" "info = attachValidation i1"
    using parse by (auto simp: parse_def Let_def)
  have entries: "field_entry ads frm el i1" "vi_attached i1 = None" "distinct (obj_keys (vi_rules i1))"
    using parse_elements_entries [OF i1(1) names] el by (auto simp: new_info_def)
  then obtain funs opts where o: "apply_adapters ads (element_opts frm el funs) = Some opts"
    "obj_get (vi_rules i1) (e_name el) = Some (PObj (extend_one (ao_rules opts) [(''__dummy__'', PBool True)]))"
    "obj_get (vi_messages i1) (e_name el) = Some (MsgBy (map (\<lambda>(k, m). (k, Some (MStr m))) (ao_messages opts)))"
    unfolding field_entry_def by blast
  let ?rs = "extend_deep [] (vi_rules i1)" and ?ob = "extend_one (ao_rules opts) [(''__dummy__'', PBool True)]"
  have att: "vi_attached info = Some (?rs, vi_messages i1)" using entries(2) i1(2) by (simp add: attachValidation_def)
  have d: "distinct (obj_keys (ao_rules opts))" using apply_adapters_distinct [OF ads o(1)] by (simp add: element_opts_def)
  have static: "staticRules ?rs el = extend_deep [] ?ob"
    using extend_deep_get [OF entries(3) proto, of "[]"] o(2) by (simp add: staticRules_def pget_def obj_get_def normalizeRule_def obj_of_def)
  have "pget ?ob k = pget (ao_rules opts) k" if "k \<noteq> ''__proto__''" "k \<noteq> ''__dummy__''" for k
    using that pget_extend_one [of "[(''__dummy__'', PBool True)]" k "ao_rules opts"] by (simp add: pget_def obj_get_def)
  then have "\<forall>k. k \<noteq> ''__proto__'' \<longrightarrow> k \<noteq> ''__dummy__'' \<longrightarrow> pget (staticRules ?rs el) k =
      (if pget (ao_rules opts) k = PUndef then PUndef else extend_value PUndef (pget (ao_rules opts) k))"
    unfolding static using pget_extend_deep [of ?ob] extend_one_distinct [OF d] by simp
  moreover have "distinct (obj_keys (staticRules ?rs el))" unfolding static by (simp add: extend_deep_distinct)
  ultimately show ?thesis using att o d by blast
qed

section \<open>The rules the validator applies\<close>

lemma depend_rules_array:
  "depend_rules env i rs = (d, Some ob) \<Longrightarrow> (k, PArr xs) \<in> set rs \<Longrightarrow> (k, PArr xs) \<in> set ob"
proof (induction rs arbitrary: d ob)
  case (Cons r rs)
  obtain l x where r: "r = (l, x)" by (cases r)
  obtain d' rest where rest: "depend_rules env i rs = (d', rest)" by fastforce
  have nn: "\<not> is_null x" using Cons.prems(1) by (auto simp: r split: if_splits)
  obtain ob' where ob': "rest = Some ob'" "ob = ob' \<or> (\<exists>y. ob = (l, y) # ob')"
    using Cons.prems(1) nn by (auto simp: r rest split: if_splits pval.splits)
  moreover have "ob = (l, x) # ob'" if "x = PArr xs" using Cons.prems(1) nn that by (simp add: r rest ob'(1))
  ultimately show ?case using Cons.IH [of d' ob'] Cons.prems(2) rest by (auto simp: r)
qed simp

lemma normalizeRules_range:
  assumes "normalizeRules g env i rs = (d, Some ob)" "distinct (obj_keys rs)" "\<not> g_autoRanges g"
    and "pget rs ''rangelength'' = PArr [a, b]"
  shows "pget ob ''rangelength'' = PArr [PNum (pnum a), PNum (pnum b)]"
proof -
  obtain r where r: "depend_rules env i rs = (d, Some r)"
    and ob: "ob = clean_range ''range'' (clean_range ''rangelength'' (clean_number ''maxlength'' (clean_number ''minlength'' (eval_params env i r))))"
    using assms(1,3) by (auto simp: normalizeRules_def Let_def split: prod.splits)
  have "(''rangelength'', PArr [a, b]) \<in> set rs" using assms(4) by (auto simp: pget_def obj_get_def split: option.splits dest: map_of_SomeD)
  then have "(''rangelength'', PArr [a, b]) \<in> set r" using depend_rules_array [OF r] by blast
  then have "(''rangelength'', PArr [a, b]) \<in> set (eval_params env i r)" by (force simp: eval_params_def)
  moreover have "distinct (obj_keys (eval_params env i r))" using depend_rules_keys [OF r assms(2)] by simp
  ultimately have e: "pget (eval_params env i r) ''rangelength'' = PArr [a, b]" by (simp add: pget_def obj_get_def)
  have num: "pget (clean_number k q) ''rangelength'' = pget q ''rangelength''" if "k \<noteq> ''rangelength''" for k q
    using that by (simp add: clean_number_def pget_def obj_get_set)
  have rng: "pget (clean_range ''range'' q) ''rangelength'' = pget q ''rangelength''" for q
    by (simp add: clean_range_def pget_def obj_get_set Let_def split: pval.split)
  show ?thesis unfolding ob rng by (simp add: clean_range_def num e nth_or_def) (simp add: pget_def obj_get_set)
qed

lemma rules_range:
  assumes "rules g env rs i el = (dropped, Some ob)" "distinct (obj_keys (staticRules rs el))" "\<not> g_autoRanges g"
    and "pget (staticRules rs el) ''rangelength'' = PArr [a, b]"
  shows "pget ob ''rangelength'' = PArr [PNum (pnum a), PNum (pnum b)]"
proof -
  let ?all = "jq_extend [] [classRules g el, attributeRules g el, dataRules g el, staticRules rs el]"
  obtain d where d: "normalizeRules g env i ?all = (dropped, Some d)" and ob: "ob = remote_last (required_first d)"
    using assms(1) by (auto simp: rules_def split: prod.splits)
  have all: "distinct (obj_keys ?all)" by (simp add: jq_extend_distinct)
  have "pget ?all ''rangelength'' = PArr [a, b]" using assms(2,4) by (simp add: jq_extend_def pget_extend_one)
  then have "pget d ''rangelength'' = PArr [PNum (pnum a), PNum (pnum b)]" by (rule normalizeRules_range [OF d all assms(3)])
  moreover have "distinct (obj_keys d)" using normalizeRules_distinct [OF d all] .
  ultimately show ?thesis unfolding ob
    by (simp add: remote_last_def required_first_def jq_extend_def pget_extend_one pget_del distinct_obj_del)
      (simp add: pget_def obj_get_def)
qed

lemma number_string: "pnum (PStr (js_String m)) = Some (of_nat m)"
proof -
  have dig: "list_all is_dig (js_String m)" and val: "digits_value (js_String m) = int m" using js_String_value by auto
  have ne: "js_String m \<noteq> []" by (simp add: js_String_def to_radix.simps [of 10 m])
  have plain: "\<not> is_space c \<and> c \<noteq> CHR ''-'' \<and> c \<noteq> CHR ''+''" if "c \<in> set (js_String m)" for c
    using dig that by (fastforce simp: list_all_iff is_dig_def in_range_def is_space_def)
  have trim: "js_trim s = s" if "\<forall>c\<in>set s. \<not> is_space c" for s
  proof -
    have "dropWhile is_space s = s" "dropWhile is_space (rev s) = rev s"
      using that hd_in_set [of s] last_in_set [of s] by (auto simp: dropWhile_eq_self_iff hd_rev)
    then show ?thesis by (simp add: js_trim_def)
  qed
  have sign: "sign_split (js_String m) = (1, js_String m)" using plain ne by (cases "js_String m") (auto simp: sign_split_def)
  have all: "takeWhile is_dig (js_String m) = js_String m" "dropWhile is_dig (js_String m) = []"
    using dig by (auto simp: list_all_iff takeWhile_eq_all_conv)
  have "parse_decimal (js_String m) = Some (of_nat m)"
    unfolding parse_decimal_def sign prod.case Let_def all using ne val by (simp add: exponent_def)
  then show ?thesis using trim plain ne by (simp add: pnum_def str_num_def Let_def)
qed

text \<open>C14. What the length attributes of a field say is what the validator checks: after parsing the form, the rule it applies to
  the field accepts a text exactly when its length lies between the two numbers written in the attributes (or the field is
  optional and empty), whatever other \<open>data-val-*\<close> attributes, classes and HTML attributes the field has; and the message for
  it is the one in the attribute. Hypotheses: the field is a text field with a name of its own, and the range rules
  are not merged automatically.\<close>

theorem length_attributes_enforced:
  assumes "parse (standard_adapters b) frm new_info = Some info" and "vi_attached info = Some (rs, ms)"
    and "i < length frm" and "wants_validation (frm ! i)" and "distinct (map e_name (filter wants_validation frm))"
    and "e_name (frm ! i) \<noteq> ''__proto__''" and "obj_get (e_attrs (frm ! i)) ''data-val-length'' = Some msg"
    and "obj_get (e_attrs (frm ! i)) ''data-val-length-min'' = Some (js_String m)"
    and "obj_get (e_attrs (frm ! i)) ''data-val-length-max'' = Some (js_String n)"
    and "rules g env rs i (frm ! i) = (dropped, Some ob)" and "\<not> g_autoRanges g"
    and "elem v i = frm ! i" and "toLowerCase (e_node (frm ! i)) \<noteq> ''select''" and "\<not> checkable (frm ! i)"
  shows "builtin env v i ''rangelength'' (PStr x) (pget ob ''rangelength'') = opt_or v i (vbool (m \<le> length x \<and> length x \<le> n))
    \<and> (msg \<noteq> [] \<longrightarrow> (\<exists>mm. obj_get ms (e_name (frm ! i)) = Some (MsgBy mm) \<and> obj_get mm ''rangelength'' = Some (Some (MStr msg))))"
proof -
  let ?el = "frm ! i"
  have "?el \<in> set frm" using assms(3) by simp
  from parsed_static_rules [OF assms(1) frame_standard this assms(4,5,6)] obtain funs opts where
    o: "apply_adapters (standard_adapters b) (element_opts frm ?el funs) = Some opts" "distinct (obj_keys (staticRules rs ?el))"
      "\<forall>k. k \<noteq> ''__proto__'' \<longrightarrow> k \<noteq> ''__dummy__'' \<longrightarrow> pget (staticRules rs ?el) k =
        (if pget (ao_rules opts) k = PUndef then PUndef else extend_value PUndef (pget (ao_rules opts) k))"
      "obj_get ms (e_name ?el) = Some (MsgBy (map (\<lambda>(k, m). (k, Some (MStr m))) (ao_messages opts)))"
    using assms(2) by auto
  have ne: "js_String k \<noteq> []" for k by (simp add: js_String_def to_radix.simps [of 10 k])
  note set = length_rule [OF o(1) assms(7,8,9) ne ne]
  have "pget (staticRules rs ?el) ''rangelength'' = PArr [PStr (js_String m), PStr (js_String n)]"
    using o(3) set(1) by (simp add: pget_def)
  then have "pget ob ''rangelength'' = PArr [PNum (Some (of_nat m)), PNum (Some (of_nat n))]"
    using rules_range [OF assms(10) o(2) assms(11)] number_string by simp
  then have "builtin env v i ''rangelength'' (PStr x) (pget ob ''rangelength'') = opt_or v i (vbool (m \<le> length x \<and> length x \<le> n))"
    using assms(12-14) by (simp add: builtin_def rangelength_def length_method_def length_of_def getLength_def value_length_def
        between_def nth_or_def js_le_def to_primitive_def pnum_def Let_def)
  moreover have "obj_get (map (\<lambda>(k, m). (k, Some (MStr m))) (ao_messages opts)) ''rangelength'' = Some (Some (MStr msg))" if "msg \<noteq> []"
    using set(2) [OF that] by (simp add: obj_get_def map_of_map)
  ultimately show ?thesis using o(4) by blast
qed

definition user_field :: felem where
  "user_field = text_field ''user'' [(''data-val'', ''true''), (''data-val-length'', ''2 to 5 letters''),
     (''data-val-length-min'', ''2''), (''data-val-length-max'', ''5''), (''data-val-required'', ''Needed'')] ''abc''"

theorem length_attributes_enforced_witness:
  "\<exists>info rs ms ob. parse (standard_adapters True) [user_field] new_info = Some info \<and> vi_attached info = Some (rs, ms)
     \<and> rules plain_global plain_env rs 0 user_field = (False, Some ob)
     \<and> builtin plain_env (init rs [] [] [user_field] []) 0 ''rangelength'' (PStr ''abcdef'') (pget ob ''rangelength'') = VFalse"
proof -
  have "case parse (standard_adapters True) [user_field] new_info of None \<Rightarrow> False | Some info \<Rightarrow>
      (case vi_attached info of None \<Rightarrow> False | Some (rs, ms) \<Rightarrow> snd (rules plain_global plain_env rs 0 user_field) \<noteq> None
        \<and> \<not> fst (rules plain_global plain_env rs 0 user_field))" by code_simp
  then obtain info rs ms ob where p: "parse (standard_adapters True) [user_field] new_info = Some info" "vi_attached info = Some (rs, ms)"
    "rules plain_global plain_env rs 0 user_field = (False, Some ob)"
    by (fastforce split: option.splits simp: prod_eq_iff)
  let ?v = "init rs [] [] [user_field] []"
  have e: "elem ?v 0 = user_field" by (simp add: init_def reset_def resetInternals_def)
  have attrs: "obj_get (e_attrs user_field) ''data-val-length'' = Some ''2 to 5 letters''" "wants_validation user_field"
    "obj_get (e_attrs user_field) ''data-val-length-min'' = Some (js_String 2)" "obj_get (e_attrs user_field) ''data-val-length-max'' = Some (js_String 5)"
    "e_name user_field \<noteq> ''__proto__''" "\<not> g_autoRanges plain_global" "toLowerCase (e_node user_field) \<noteq> ''select''" "\<not> checkable user_field"
    by code_simp+
  have "builtin plain_env ?v 0 ''rangelength'' (PStr ''abcdef'') (pget ob ''rangelength'') = opt_or ?v 0 (vbool (2 \<le> length ''abcdef'' \<and> length ''abcdef'' \<le> 5))"
    using length_attributes_enforced [of True "[user_field]" info rs ms 0 "''2 to 5 letters''" 2 5 plain_global plain_env False ob ?v "''abcdef''"]
      p attrs e by simp
  moreover have "optional ?v 0 = VFalse" unfolding optional_def by (simp add: required_result_def elementValue_def e) (code_simp)
  ultimately show ?thesis using p by (auto simp: opt_or_def)
qed

section \<open>Fields that must agree\<close>

lemma expand_plain: "CHR ''$'' \<notin> set s \<Longrightarrow> expand_replacement matched rest s = s"
  by (induction matched rest s rule: expand_replacement.induct) auto

lemma model_prefix: "CHR ''.'' \<notin> set y \<Longrightarrow> getModelPrefix (p @ ''.'' @ y) = p @ ''.''"
  by (auto simp: getModelPrefix_def dropWhile_append)

text \<open>C40. A field that must equal a sibling of the same model object (\<open>*.Name\<close> in the attribute of \<open>Prefix.Other\<close>) is compared
  with the field \<open>Prefix.Name\<close>. When the form has no such field, the rule is undefined and the copy of the settings
  drops it: the field is then not compared with anything, without an error.\<close>

theorem equalto_compares_sibling:
  assumes "parse (standard_adapters b) frm new_info = Some info" and "vi_attached info = Some (rs, ms)"
    and "el \<in> set frm" and "wants_validation el" and "distinct (map e_name (filter wants_validation frm))"
    and "e_name el = p @ ''.'' @ y" and "CHR ''.'' \<notin> set y" and "CHR ''$'' \<notin> set p"
    and "obj_get (e_attrs el) ''data-val-equalto'' = Some msg" and "obj_get (e_attrs el) ''data-val-equalto-other'' = Some (''*.'' @ x)"
  shows "(\<forall>j js. inputs_named frm (p @ ''.'' @ x) = j # js \<longrightarrow> equalTo_targets env (pget (staticRules rs el) ''equalTo'') = [j])
    \<and> (inputs_named frm (p @ ''.'' @ x) = [] \<longrightarrow> pget (staticRules rs el) ''equalTo'' = PUndef)"
proof -
  have "e_name el \<noteq> ''__proto__''"
  proof
    assume "e_name el = ''__proto__''"
    then have "CHR ''.'' \<in> set ''__proto__''" using assms(6) by (metis in_set_conv_decomp append_Cons append_Nil)
    then show False by simp
  qed
  from parsed_static_rules [OF assms(1) frame_standard assms(3-5) this] obtain funs opts where
    o: "apply_adapters (standard_adapters b) (element_opts frm el funs) = Some opts"
      "\<forall>k. k \<noteq> ''__proto__'' \<longrightarrow> k \<noteq> ''__dummy__'' \<longrightarrow> pget (staticRules rs el) k =
        (if pget (ao_rules opts) k = PUndef then PUndef else extend_value PUndef (pget (ao_rules opts) k))"
    using assms(2) by auto
  have "appendModelPrefix (''*.'' @ x) (getModelPrefix (e_name el)) = p @ ''.'' @ x"
    unfolding assms(6) model_prefix [OF assms(7)] using expand_plain [of "p @ ''.''"] assms(8) by (simp add: appendModelPrefix_def)
  then have "pget (ao_rules opts) ''equalTo'' = (case inputs_named frm (p @ ''.'' @ x) of j # _ \<Rightarrow> PElem j | [] \<Rightarrow> PUndef)"
    using equalto_rule [OF o(1) assms(9,10)] by (simp add: pget_def)
  then show ?thesis using o(2) by (auto simp: equalTo_targets_def)
qed

definition password_fields :: "felem list" where
  "password_fields = [text_field ''m.pass'' [(''name'', ''m.pass'')] [], text_field ''m.again'' [(''name'', ''m.again''), (''data-val'', ''true''),
     (''data-val-equalto'', ''Not the same''), (''data-val-equalto-other'', ''*.pass'')] []]"

theorem equalto_compares_sibling_witness:
  "\<exists>info rs ms. parse (standard_adapters True) password_fields new_info = Some info \<and> vi_attached info = Some (rs, ms)
     \<and> equalTo_targets plain_env (pget (staticRules rs (password_fields ! 1)) ''equalTo'') = [0]"
proof -
  let ?el = "password_fields ! 1"
  have "case parse (standard_adapters True) password_fields new_info of None \<Rightarrow> False | Some info \<Rightarrow> vi_attached info \<noteq> None" by code_simp
  then obtain info rs ms where p: "parse (standard_adapters True) password_fields new_info = Some info" "vi_attached info = Some (rs, ms)"
    by (fastforce split: option.splits)
  have el: "?el \<in> set password_fields" "wants_validation ?el" "distinct (map e_name (filter wants_validation password_fields))"
    "e_name ?el = ''m'' @ ''.'' @ ''again''" "CHR ''.'' \<notin> set ''again''" "CHR ''$'' \<notin> set ''m''"
    "obj_get (e_attrs ?el) ''data-val-equalto'' = Some ''Not the same''" "obj_get (e_attrs ?el) ''data-val-equalto-other'' = Some (''*.'' @ ''pass'')"
    "inputs_named password_fields (''m'' @ ''.'' @ ''pass'') = [0]"
    by code_simp+
  from equalto_compares_sibling [OF p el(1-8), of plain_env] el(9) p show ?thesis by blast
qed

section \<open>Showing and clearing a message\<close>

lemma upd_display [simp]:
  "length (ud_containers (upd_containers ixs f d)) = length (ud_containers d)"
  "i < length (ud_containers d) \<Longrightarrow> ud_containers (upd_containers ixs f d) ! i =
     (if i \<in> set ixs then f (ud_containers d ! i) else ud_containers d ! i)"
  "ud_errors (upd_containers ixs f d) = ud_errors d" "ud_containers (upd_error e h d) = ud_containers d"
  "ud_errors (upd_error e h d) = (ud_errors d)[e := h (ud_errors d ! e)]"
  by (auto simp: upd_containers_def upd_error_def nth_enumerate_eq)

lemma validation_tokens: "token ''field-validation-valid''" "token ''field-validation-error''"
  by code_simp+

lemma swapped_classes:
  "hasClass (swap_class ''field-validation-valid'' ''field-validation-error'' c) ''field-validation-error''"
  "\<not> hasClass (swap_class ''field-validation-valid'' ''field-validation-error'' c) ''field-validation-valid''"
  "hasClass (removeClass (addClass c (ClassString ''field-validation-valid'')) (Some (ClassString ''field-validation-error''))) ''field-validation-valid''"
  "\<not> hasClass (removeClass (addClass c (ClassString ''field-validation-valid'')) (Some (ClassString ''field-validation-error''))) ''field-validation-error''"
  using cls.exchange [OF validation_tokens, of c]
  by (auto simp: hasClass_iff [OF validation_tokens(1)] hasClass_iff [OF validation_tokens(2)] swap_class_def
      cls.add [OF validation_tokens(2)] cls.remove [OF validation_tokens(1)] add_name_def)

lemma onError_shows:
  assumes "onError e name d = Some d1" "e < length (ud_errors d)" "i \<in> set (containers_for name d)"
  shows "vc_class (ud_containers d1 ! i) = swap_class ''field-validation-valid'' ''field-validation-error'' (vc_class (ud_containers d ! i))"
    and "ue_container (ud_errors d1 ! e) = Some (containers_for name d)" and "length (ud_containers d1) = length (ud_containers d)"
    and "replace_attr (containers_for name d) d1 = replace_attr (containers_for name d) d"
    and "replace_attr (containers_for name d) d = Some ''true'' \<Longrightarrow> vc_content (ud_containers d1 ! i) = [e]"
proof -
  let ?ixs = "containers_for name d"
  have i: "j < length (ud_containers d)" if "j \<in> set ?ixs" for j using that by (simp add: containers_for_def)
  have js: "parseJSON ''true'' = Some (PBool True)" by code_simp
  show "vc_class (ud_containers d1 ! i) = swap_class ''field-validation-valid'' ''field-validation-error'' (vc_class (ud_containers d ! i))"
    "ue_container (ud_errors d1 ! e) = Some ?ixs" "length (ud_containers d1) = length (ud_containers d)"
    "replace_attr ?ixs d = Some ''true'' \<Longrightarrow> vc_content (ud_containers d1 ! i) = [e]"
    using assms i js by (auto simp: onError_def Let_def or_name_def split: if_splits option.splits)
  show "replace_attr ?ixs d1 = replace_attr ?ixs d"
    using assms i by (cases ?ixs) (auto simp: replace_attr_def onError_def Let_def split: if_splits)
qed

text \<open>An error marks its containers as failed and a later success as valid, never both; with replacement on, the container holds
  exactly the error and is emptied again.\<close>

theorem message_shown_and_cleared:
  assumes "onError e name d = Some d1" and "onSuccess e d1 = Some d2" and "e < length (ud_errors d)" and "i \<in> set (containers_for name d)"
  shows "hasClass (vc_class (ud_containers d1 ! i)) ''field-validation-error'' \<and> \<not> hasClass (vc_class (ud_containers d1 ! i)) ''field-validation-valid''
    \<and> hasClass (vc_class (ud_containers d2 ! i)) ''field-validation-valid'' \<and> \<not> hasClass (vc_class (ud_containers d2 ! i)) ''field-validation-error''
    \<and> (replace_attr (containers_for name d) d = Some ''true'' \<longrightarrow>
         vc_content (ud_containers d1 ! i) = [e] \<and> vc_content (ud_containers d2 ! i) = [])"
proof -
  note shown = onError_shows [OF assms(1,3,4)]
  have i: "i < length (ud_containers d1)" using assms(4) shown(3) by (simp add: containers_for_def)
  have js: "parseJSON ''true'' = Some (PBool True)" by code_simp
  have "vc_class (ud_containers d2 ! i) = removeClass (addClass (vc_class (ud_containers d1 ! i)) (ClassString ''field-validation-valid''))
      (Some (ClassString ''field-validation-error''))"
    "replace_attr (containers_for name d) d1 = Some ''true'' \<Longrightarrow> vc_content (ud_containers d2 ! i) = []"
    using assms(2,4) i js by (auto simp: onSuccess_def shown(2) or_name_def ptruthy_def Let_def split: if_splits option.splits)
  then show ?thesis using shown by (auto simp: swapped_classes)
qed

theorem message_shown_and_cleared_witness:
  "\<exists>d1 d2. onError 0 ''user'' \<lparr>ud_containers = [\<lparr>vc_for = Some ''user'', vc_replace = Some ''true'', vc_class = None, vc_content = []\<rparr>],
       ud_errors = [\<lparr>ue_container = None, ue_class = None, ue_hidden = False\<rparr>], ud_summaries = []\<rparr> = Some d1
     \<and> onSuccess 0 d1 = Some d2 \<and> hasClass (vc_class (ud_containers d2 ! 0)) ''field-validation-valid'' \<and> vc_content (ud_containers d1 ! 0) = [0]"
proof -
  let ?d = "\<lparr>ud_containers = [\<lparr>vc_for = Some ''user'', vc_replace = Some ''true'', vc_class = None, vc_content = []\<rparr>],
       ud_errors = [\<lparr>ue_container = None, ue_class = None, ue_hidden = False\<rparr>], ud_summaries = []\<rparr>"
  have c: "0 < length (ud_errors ?d)" "0 \<in> set (containers_for ''user'' ?d)" "replace_attr (containers_for ''user'' ?d) ?d = Some ''true''"
    by (simp_all add: containers_for_def replace_attr_def)
  have js: "parseJSON ''true'' = Some (PBool True)" by code_simp
  obtain d1 where d1: "onError 0 ''user'' ?d = Some d1" using c(3) js by (simp add: onError_def or_name_def Let_def)
  obtain d2 where "onSuccess 0 d1 = Some d2"
    using onError_shows(2,4) [OF d1 c(1,2)] c(3) js by (simp add: onSuccess_def or_name_def Let_def)
  note d = d1 this
  from message_shown_and_cleared [OF d c(1,2)] c(3) d show ?thesis by blast
qed

end
