(* ===== verification/JQuery_Callbacks.thy ===== *)
theory JQuery_Callbacks
  imports JQuery_Classes "HOL-Library.While_Combinator"
begin

text \<open>
  \<open>jQuery.Callbacks\<close>: a list of functions that is fired with values, the base of jQuery's deferred objects. A callback may itself
  add, remove, fire, lock or disable while the list is firing, so \<open>fire\<close> is a loop whose steps are the model's steps.

  A callback is a number; an environment says, from the calls made so far, the callback and the value, which operations on the
  list the callback performs, and whether it returns \<open>false\<close>, something else, or throws. A value is the pair of context and
  arguments. The values \<open>undefined\<close>, \<open>false\<close> and \<open>""\<close> of \<open>memory\<close> are \<open>None\<close>, the value \<open>""\<close> of \<open>list\<close> is \<open>None\<close>.
\<close>

section \<open>State and operations\<close>

datatype phase = CIdle | CHead | CInner

record 'v callbacks =
  cb_once :: bool
  cb_keep :: bool
  cb_unique :: bool
  cb_stop :: bool
  cb_firing :: bool
  cb_memory :: "'v option"
  cb_fired :: bool
  cb_locked :: bool
  cb_list :: "nat list option"
  cb_queue :: "'v list"
  cb_index :: int
  cb_phase :: phase
  cb_log :: "(nat \<times> 'v option) list"

text \<open>\<open>createOptions\<close> on the words of the options, and the new object.\<close>

definition Callbacks :: "string \<Rightarrow> 'v callbacks" where
  "Callbacks options =
     (let flags = set (tokens options)
      in \<lparr>cb_once = ''once'' \<in> flags, cb_keep = ''memory'' \<in> flags, cb_unique = ''unique'' \<in> flags, cb_stop = ''stopOnFalse'' \<in> flags,
          cb_firing = False, cb_memory = None, cb_fired = False, cb_locked = False, cb_list = Some [], cb_queue = [], cb_index = -1,
          cb_phase = CIdle, cb_log = []\<rparr>)"

definition cb_items :: "'v callbacks \<Rightarrow> nat list" where
  "cb_items s = (case cb_list s of Some xs \<Rightarrow> xs | None \<Rightarrow> [])"

text \<open>The arguments of \<open>add\<close>: functions, arrays of them, and other values, which are skipped.\<close>

datatype cb_arg = ArgFun nat | ArgList "cb_arg list" | ArgOther

fun add_arg :: "bool \<Rightarrow> cb_arg \<Rightarrow> nat list \<Rightarrow> nat list"
  and add_args :: "bool \<Rightarrow> cb_arg list \<Rightarrow> nat list \<Rightarrow> nat list" where
  "add_arg uniq (ArgFun f) xs = (if uniq \<and> f \<in> set xs then xs else xs @ [f])"
| "add_arg uniq (ArgList as) xs = add_args uniq as xs"
| "add_arg uniq ArgOther xs = xs"
| "add_args uniq [] xs = xs"
| "add_args uniq (a # as) xs = add_args uniq as (add_arg uniq a xs)"

text \<open>The loop of \<open>remove\<close> for one function: the next occurrence from a position on is cut out.\<close>

fun index_from :: "nat \<Rightarrow> nat \<Rightarrow> nat list \<Rightarrow> nat option" where
  "index_from f k [] = None"
| "index_from f 0 (x # xs) = (if x = f then Some 0 else map_option Suc (index_from f 0 xs))"
| "index_from f (Suc k) (x # xs) = map_option Suc (index_from f k xs)"

lemma index_from_Some: "index_from f k xs = Some i \<Longrightarrow> k \<le> i \<and> i < length xs \<and> xs ! i = f \<and> f \<notin> set (drop k (take i xs))"
  by (induction f k xs arbitrary: i rule: index_from.induct) (auto split: if_splits)

lemma index_from_None: "index_from f k xs = None \<Longrightarrow> f \<notin> set (drop k xs)"
  by (induction f k xs rule: index_from.induct) (auto split: if_splits)

function remove_loop :: "nat \<Rightarrow> nat \<Rightarrow> nat list \<Rightarrow> int \<Rightarrow> nat list \<times> int" where
  "remove_loop f k xs idx =
     (case index_from f k xs of
        None \<Rightarrow> (xs, idx)
      | Some i \<Rightarrow> remove_loop f i (take i xs @ drop (Suc i) xs) (if int i \<le> idx then idx - 1 else idx))"
  by pat_completeness auto
termination
  by (relation "measure (\<lambda>(f, k, xs, idx). length xs)") (auto dest!: index_from_Some)

declare remove_loop.simps [simp del]

datatype 'v cb_op = CAdd "cb_arg list" | CRemove "nat list" | CEmpty | CDisable | CLock | CFire 'v

definition cb_remove :: "nat \<Rightarrow> 'v callbacks \<Rightarrow> 'v callbacks" where
  "cb_remove f s =
     (case cb_list s of
        None \<Rightarrow> s
      | Some xs \<Rightarrow> (case remove_loop f 0 xs (cb_index s) of (ys, idx) \<Rightarrow> s\<lparr>cb_list := Some ys, cb_index := idx\<rparr>))"

text \<open>An operation, and whether it calls \<open>fire\<close>.\<close>

fun cb_do :: "'v cb_op \<Rightarrow> 'v callbacks \<Rightarrow> 'v callbacks \<times> bool" where
  "cb_do (CAdd as) s =
     (case cb_list s of
        None \<Rightarrow> (s, False)
      | Some xs \<Rightarrow>
          let again = cb_memory s \<noteq> None \<and> \<not> cb_firing s;
              s1 = (if again then s\<lparr>cb_index := int (length xs) - 1, cb_queue := cb_queue s @ [the (cb_memory s)]\<rparr> else s)
          in (s1\<lparr>cb_list := Some (add_args (cb_unique s) as xs)\<rparr>, again))"
| "cb_do (CRemove fs) s = (fold cb_remove fs s, False)"
| "cb_do CEmpty s = (if cb_list s \<noteq> None then s\<lparr>cb_list := Some []\<rparr> else s, False)"
| "cb_do CDisable s = (s\<lparr>cb_locked := True, cb_queue := [], cb_list := None, cb_memory := None\<rparr>, False)"
| "cb_do CLock s =
     (let s1 = s\<lparr>cb_locked := True, cb_queue := []\<rparr>
      in if cb_memory s = None \<and> \<not> cb_firing s then s1\<lparr>cb_list := None, cb_memory := None\<rparr> else s1, False)"
| "cb_do (CFire v) s =
     (if cb_locked s then (s, False) else (s\<lparr>cb_queue := cb_queue s @ [v]\<rparr>, \<not> cb_firing s))"

definition cb_has :: "nat option \<Rightarrow> 'v callbacks \<Rightarrow> bool" where
  "cb_has fn s = (case fn of Some f \<Rightarrow> f \<in> set (cb_items s) | None \<Rightarrow> cb_items s \<noteq> [])"

definition cb_disabled :: "'v callbacks \<Rightarrow> bool" where
  "cb_disabled s \<longleftrightarrow> cb_list s = None"

section \<open>Firing\<close>

datatype cb_result = RFalse | ROther | RThrow

type_synonym 'v cb_env = "(nat \<times> 'v option) list \<Rightarrow> nat \<Rightarrow> 'v option \<Rightarrow> 'v cb_op list \<times> cb_result"

definition cb_start :: "'v callbacks \<Rightarrow> 'v callbacks" where
  "cb_start s = s\<lparr>cb_locked := cb_locked s \<or> cb_once s, cb_fired := True, cb_firing := True, cb_phase := CHead\<rparr>"

definition cb_finish :: "'v callbacks \<Rightarrow> 'v callbacks" where
  "cb_finish s =
     (let m = (if cb_keep s then cb_memory s else None)
      in s\<lparr>cb_memory := m, cb_firing := False, cb_phase := CIdle,
           cb_list := (if cb_locked s then (if m \<noteq> None then Some [] else None) else cb_list s)\<rparr>)"

text \<open>One callback: its operations never fire on their own, since the list is firing. An exception leaves the loop.\<close>

definition cb_call :: "'v cb_env \<Rightarrow> nat \<Rightarrow> 'v callbacks \<Rightarrow> 'v callbacks" where
  "cb_call env f s =
     (case env (cb_log s) f (cb_memory s) of
        (ops, r) \<Rightarrow>
          let s1 = fold (\<lambda>a t. fst (cb_do a t)) ops (s\<lparr>cb_log := cb_log s @ [(f, cb_memory s)]\<rparr>)
          in (case r of
                RThrow \<Rightarrow> s1\<lparr>cb_phase := CIdle\<rparr>
              | RFalse \<Rightarrow> if cb_stop s then s1\<lparr>cb_index := int (length (cb_items s1)), cb_memory := None\<rparr> else s1
              | ROther \<Rightarrow> s1))"

definition cb_next :: "'v cb_env \<Rightarrow> 'v callbacks \<Rightarrow> 'v callbacks" where
  "cb_next env s =
     (case cb_phase s of
        CIdle \<Rightarrow> s
      | CHead \<Rightarrow> (case cb_queue s of [] \<Rightarrow> cb_finish s | v # q \<Rightarrow> s\<lparr>cb_memory := Some v, cb_queue := q, cb_phase := CInner\<rparr>)
      | CInner \<Rightarrow>
          let i = cb_index s + 1
          in if i < int (length (cb_items s)) then cb_call env (cb_items s ! nat i) (s\<lparr>cb_index := i\<rparr>)
             else s\<lparr>cb_index := -1, cb_phase := CHead\<rparr>)"

text \<open>A call from outside, run to its end; \<open>None\<close> when the callbacks keep the list firing for ever.\<close>

definition cb_run :: "'v cb_env \<Rightarrow> 'v cb_op \<Rightarrow> 'v callbacks \<Rightarrow> 'v callbacks option" where
  "cb_run env a s =
     (case cb_do a s of (s1, fires) \<Rightarrow>
        if fires then while_option (\<lambda>t. cb_phase t \<noteq> CIdle) (cb_next env) (cb_start s1) else Some s1)"

fun cb_runs :: "'v cb_env \<Rightarrow> 'v cb_op list \<Rightarrow> 'v callbacks \<Rightarrow> 'v callbacks option" where
  "cb_runs env [] s = Some s"
| "cb_runs env (a # as) s = (case cb_run env a s of None \<Rightarrow> None | Some t \<Rightarrow> cb_runs env as t)"

end
