(* ===== verification/JQuery_Callbacks_Correct.thy ===== *)
theory JQuery_Callbacks_Correct
  imports JQuery_Callbacks
begin

text \<open>
  What holds of \<open>jQuery.Callbacks\<close>: removing during a pass neither skips nor repeats another callback, a list that fires once and
  remembers calls every function once with the first value, and an exception ends every further firing.
\<close>

section \<open>Removing while firing\<close>

text \<open>What is left of the pass: the callbacks after \<open>firingIndex\<close>.\<close>

definition cb_rest :: "'v callbacks \<Rightarrow> nat list" where
  "cb_rest s = drop (nat (cb_index s + 1)) (cb_items s)"

lemma not_in_take_split: "f \<notin> set (take k xs) \<Longrightarrow> f \<notin> set (drop k (take i xs)) \<Longrightarrow> k \<le> i \<Longrightarrow> f \<notin> set (take i xs)"
  by (metis Un_iff append_take_drop_id min.absorb1 set_append take_take)

lemma remove_loop_spec:
  assumes "f \<notin> set (take k xs)" "-1 \<le> idx"
  shows "remove_loop f k xs idx = (filter (\<lambda>x. x \<noteq> f) xs, idx - int (count_list (take (nat (idx + 1)) xs) f))"
  using assms
proof (induction f k xs idx rule: remove_loop.induct)
  case (1 f k xs idx)
  show ?case
  proof (cases "index_from f k xs")
    case None
    have "f \<notin> set xs"
      using index_from_None [OF None] 1(2) by (metis Un_iff append_take_drop_id set_append)
    then have "filter (\<lambda>x. x \<noteq> f) xs = xs" "count_list (take (nat (idx + 1)) xs) f = 0"
      by (auto simp: filter_id_conv count_list_0_iff dest: in_set_takeD)
    then show ?thesis
      using None by (simp add: remove_loop.simps)
  next
    case (Some i)
    define as bs where "as = take i xs" and "bs = drop (Suc i) xs"
    have i: "k \<le> i" "i < length xs" "xs ! i = f" "f \<notin> set as"
      using index_from_Some [OF Some] not_in_take_split [OF 1(2), of i] by (auto simp: as_def)
    have xs: "xs = as @ f # bs" and len: "length as = i"
      using i id_take_nth_drop [of i xs] by (auto simp: as_def bs_def)
    let ?idx = "if int i \<le> idx then idx - 1 else idx"
    have ih: "remove_loop f i (as @ bs) ?idx =
        (filter (\<lambda>x. x \<noteq> f) (as @ bs), ?idx - int (count_list (take (nat (?idx + 1)) (as @ bs)) f))"
      using 1(1) [OF Some] i(4) 1(3) len by (auto simp: as_def bs_def)
    have "int (count_list (take (nat (idx + 1)) xs) f) = idx - ?idx + int (count_list (take (nat (?idx + 1)) (as @ bs)) f)"
    proof (cases "int i \<le> idx")
      case True
      then obtain j where j: "nat (idx + 1) = i + Suc j" "nat idx = i + j"
        by (metis Suc_nat_eq_nat_zadd1 add.commute add_Suc_right le_add_diff_inverse nat_int nat_mono of_nat_0_le_iff order_trans)
      then show ?thesis
        using True i(4) by (simp add: xs len count_list_append)
    next
      case False
      then have "nat (idx + 1) \<le> i" by linarith
      then show ?thesis
        using False i(4) len by (auto simp: xs count_list_0_iff dest: in_set_takeD)
    qed
    moreover have "remove_loop f k xs idx = remove_loop f i (as @ bs) ?idx"
      using remove_loop.simps [of f k xs idx] Some by (simp add: as_def bs_def)
    moreover have "filter (\<lambda>x. x \<noteq> f) xs = filter (\<lambda>x. x \<noteq> f) (as @ bs)"
      by (simp add: xs)
    ultimately show ?thesis
      using ih by simp
  qed
qed

lemma count_filter_neq: "count_list (filter (\<lambda>x. x \<noteq> f) xs) g = (if g = f then 0 else count_list xs g)"
  by (induction xs) auto

lemma length_filter_neq: "length (filter (\<lambda>x. x \<noteq> f) xs) + count_list xs f = length xs"
  by (induction xs) auto

text \<open>\<open>remove\<close> lowers \<open>firingIndex\<close> so that what is left of the pass is what was left, without the removed function.\<close>

lemma cb_remove_rest:
  assumes "-1 \<le> cb_index s"
  shows "cb_rest (cb_remove f s) = filter (\<lambda>x. x \<noteq> f) (cb_rest s)" "-1 \<le> cb_index (cb_remove f s)"
proof -
  have "cb_rest (cb_remove f s) = filter (\<lambda>x. x \<noteq> f) (cb_rest s) \<and> -1 \<le> cb_index (cb_remove f s)"
  proof (cases "cb_list s")
    case None
    then show ?thesis using assms by (simp add: cb_remove_def cb_rest_def cb_items_def)
  next
    case (Some xs)
    define n where "n = nat (cb_index s + 1)"
    define c where "c = count_list (take n xs) f"
    have c: "length (filter (\<lambda>x. x \<noteq> f) (take n xs)) + c = min (length xs) n" "c \<le> n"
      using length_filter_neq [of f "take n xs"] by (auto simp: c_def)
    have rm: "cb_remove f s = s\<lparr>cb_list := Some (filter (\<lambda>x. x \<noteq> f) xs), cb_index := cb_index s - int c\<rparr>"
      using Some remove_loop_spec [of f 0 xs "cb_index s"] assms by (simp add: cb_remove_def c_def n_def)
    have xs: "filter (\<lambda>x. x \<noteq> f) xs = filter (\<lambda>x. x \<noteq> f) (take n xs) @ filter (\<lambda>x. x \<noteq> f) (drop n xs)"
      by (metis append_take_drop_id filter_append)
    have "drop (n - c) (filter (\<lambda>x. x \<noteq> f) xs) = filter (\<lambda>x. x \<noteq> f) (drop n xs)"
    proof (cases "n \<le> length xs")
      case True
      then have "n - c = length (filter (\<lambda>x. x \<noteq> f) (take n xs))" using c by simp
      then show ?thesis by (simp only: xs append_eq_conv_conj [symmetric]) simp
    next
      case False
      then have "length (filter (\<lambda>x. x \<noteq> f) xs) \<le> n - c" "drop n xs = []" using c by simp_all
      then show ?thesis by simp
    qed
    moreover have "nat (cb_index s - int c + 1) = n - c"
      using c(2) assms unfolding n_def by linarith
    moreover have "-1 \<le> cb_index s - int c"
      using c(2) assms unfolding n_def by linarith
    ultimately show ?thesis
      using Some by (simp add: rm cb_rest_def cb_items_def n_def [symmetric])
  qed
  then show "cb_rest (cb_remove f s) = filter (\<lambda>x. x \<noteq> f) (cb_rest s)" "-1 \<le> cb_index (cb_remove f s)"
    by auto
qed

lemma cb_remove_frame [simp]:
  "cb_memory (cb_remove f s) = cb_memory s" "cb_firing (cb_remove f s) = cb_firing s" "cb_stop (cb_remove f s) = cb_stop s"
  "cb_log (cb_remove f s) = cb_log s" "cb_phase (cb_remove f s) = cb_phase s"
  by (auto simp: cb_remove_def split: option.splits prod.splits)

lemma cb_remove_None [simp]: "cb_list (cb_remove f s) = None \<longleftrightarrow> cb_list s = None"
  by (auto simp: cb_remove_def split: option.splits prod.splits)

text \<open>The functions among the arguments of \<open>add\<close>, in order; they are pushed one by one, unless the list is \<open>unique\<close> and has one already.\<close>

fun arg_fun :: "cb_arg \<Rightarrow> nat list"
  and arg_funs :: "cb_arg list \<Rightarrow> nat list" where
  "arg_fun (ArgFun f) = [f]"
| "arg_fun (ArgList as) = arg_funs as"
| "arg_fun ArgOther = []"
| "arg_funs [] = []"
| "arg_funs (a # as) = arg_fun a @ arg_funs as"

definition push :: "bool \<Rightarrow> nat \<Rightarrow> nat list \<Rightarrow> nat list" where
  "push uniq f xs = (if uniq \<and> f \<in> set xs then xs else xs @ [f])"

lemma add_args_push: "add_arg u a xs = fold (push u) (arg_fun a) xs" "add_args u as xs = fold (push u) (arg_funs as) xs"
  by (induction u a xs and u as xs rule: add_arg_add_args.induct) (auto simp: push_def)

lemma push_new: "\<exists>ys. fold (push u) fs xs = xs @ ys \<and> set ys \<subseteq> set fs"
proof (induction fs arbitrary: xs)
  case (Cons f fs)
  obtain ys where "fold (push u) fs (push u f xs) = push u f xs @ ys" "set ys \<subseteq> set fs"
    using Cons.IH by blast
  then have "fold (push u) (f # fs) xs = xs @ (if u \<and> f \<in> set xs then ys else f # ys)"
    by (simp add: push_def [of u f])
  moreover have "set (if u \<and> f \<in> set xs then ys else f # ys) \<subseteq> set (f # fs)"
    using \<open>set ys \<subseteq> set fs\<close> by auto
  ultimately show ?case by blast
qed simp

lemma add_args_new: "\<exists>ys. add_args u as xs = xs @ ys \<and> set ys \<subseteq> set (arg_funs as)"
  unfolding add_args_push by (rule push_new)

lemma add_args_all: "add_args False as xs = xs @ arg_funs as"
proof -
  have "fold (push False) fs ys = ys @ fs" for fs ys
    by (induction fs arbitrary: ys) (auto simp: push_def)
  then show ?thesis by (simp add: add_args_push)
qed

text \<open>What one operation of a callback does to the pass.\<close>

fun harmless :: "nat \<Rightarrow> 'v cb_op \<Rightarrow> bool" where
  "harmless f (CAdd as) = (f \<notin> set (arg_funs as))"
| "harmless f (CRemove gs) = (f \<notin> set gs)"
| "harmless f (CFire v) = True"
| "harmless f CLock = True"
| "harmless f CEmpty = False"
| "harmless f CDisable = False"

fun adds :: "'v cb_op \<Rightarrow> bool" where
  "adds (CAdd as) = True"
| "adds a = False"

definition same_pass :: "nat \<Rightarrow> 'v callbacks \<Rightarrow> 'v callbacks \<Rightarrow> bool" where
  "same_pass f s t \<longleftrightarrow> -1 \<le> cb_index t \<and> count_list (cb_rest t) f = count_list (cb_rest s) f \<and> cb_memory t = cb_memory s \<and>
     cb_firing t = cb_firing s \<and> cb_stop t = cb_stop s \<and> cb_log t = cb_log s \<and> cb_phase t = cb_phase s"

lemma same_pass_refl: "-1 \<le> cb_index s \<Longrightarrow> same_pass f s s"
  by (simp add: same_pass_def)

lemma same_pass_trans: "same_pass f s t \<Longrightarrow> same_pass f t u \<Longrightarrow> same_pass f s u"
  by (simp add: same_pass_def)

lemma same_pass_removes:
  assumes "-1 \<le> cb_index s" "f \<notin> set gs"
  shows "same_pass f s (fold cb_remove gs s) \<and> length (cb_rest (fold cb_remove gs s)) \<le> length (cb_rest s)"
  using assms
proof (induction gs arbitrary: s)
  case (Cons g gs)
  have "same_pass f s (cb_remove g s)" "length (cb_rest (cb_remove g s)) \<le> length (cb_rest s)"
    using cb_remove_rest [OF Cons.prems(1), of g] Cons.prems(2) by (auto simp: same_pass_def count_filter_neq)
  then show ?case
    using Cons.IH [of "cb_remove g s"] Cons.prems same_pass_trans by (fastforce simp: same_pass_def)
qed (simp add: same_pass_refl)

lemma same_pass_add:
  assumes "-1 \<le> cb_index s" "f \<notin> set (arg_funs as)" "cb_list s = Some xs"
  shows "same_pass f s (s\<lparr>cb_list := Some (add_args u as xs)\<rparr>)"
proof -
  obtain ys where "add_args u as xs = xs @ ys" "f \<notin> set ys"
    using add_args_new [of u as xs] assms(2) by blast
  then show ?thesis
    using assms(1,3) by (auto simp: same_pass_def cb_rest_def cb_items_def count_list_0_iff dest: in_set_dropD)
qed

lemma cb_do_harmless:
  assumes "harmless f a" "cb_firing s" "-1 \<le> cb_index s"
  shows "same_pass f s (fst (cb_do a s)) \<and> (\<not> adds a \<longrightarrow> length (cb_rest (fst (cb_do a s))) \<le> length (cb_rest s))"
proof (cases a)
  case (CAdd as)
  then show ?thesis
    using assms same_pass_add [of s f as] by (auto simp: same_pass_refl Let_def split: option.splits)
next
  case (CRemove gs)
  then show ?thesis
    using assms same_pass_removes by simp
qed (use assms in \<open>simp_all add: same_pass_def cb_rest_def cb_items_def Let_def\<close>)

lemma cb_dos_harmless:
  assumes "\<forall>a\<in>set ops. harmless f a" "cb_firing s" "-1 \<le> cb_index s"
  shows "same_pass f s (fold (\<lambda>a t. fst (cb_do a t)) ops s) \<and>
     ((\<forall>a\<in>set ops. \<not> adds a) \<longrightarrow> length (cb_rest (fold (\<lambda>a t. fst (cb_do a t)) ops s)) \<le> length (cb_rest s))"
  using assms
proof (induction ops arbitrary: s)
  case (Cons a ops)
  have "harmless f a" using Cons.prems(1) by simp
  note a = cb_do_harmless [OF this Cons.prems(2,3)]
  have "cb_firing (fst (cb_do a s))" "-1 \<le> cb_index (fst (cb_do a s))"
    using a Cons.prems by (auto simp: same_pass_def)
  then show ?case
    using Cons.IH [of "fst (cb_do a s)"] a Cons.prems same_pass_trans by fastforce
qed (simp add: same_pass_refl)

section \<open>A callback is neither skipped nor called twice\<close>

text \<open>One pass over the list, and an environment that leaves \<open>f\<close> alone: nobody removes it, empties or disables the list, throws or
  stops the pass. The list may grow, but from some point on it does not, since otherwise the pass need not end.\<close>

definition cb_pass :: "'v cb_env \<Rightarrow> 'v callbacks \<Rightarrow> 'v callbacks option" where
  "cb_pass env s = while_option (\<lambda>t. cb_phase t = CInner) (cb_next env) s"

definition spares :: "nat \<Rightarrow> bool \<Rightarrow> 'v cb_env \<Rightarrow> bool" where
  "spares f stops env \<longleftrightarrow>
     (\<forall>l g v. (\<forall>a\<in>set (fst (env l g v)). harmless f a) \<and> snd (env l g v) \<noteq> RThrow \<and> (stops \<longrightarrow> snd (env l g v) \<noteq> RFalse))"

definition grows_until :: "nat \<Rightarrow> 'v cb_env \<Rightarrow> bool" where
  "grows_until n env \<longleftrightarrow> (\<forall>l g v. n \<le> length l \<longrightarrow> (\<forall>a\<in>set (fst (env l g v)). \<not> adds a))"

lemma cb_call_rest:
  fixes g :: nat
  assumes "spares f (cb_stop s) env" "cb_firing s" "-1 \<le> cb_index s"
  defines "t \<equiv> cb_call env g s"
  shows "count_list (cb_rest t) f = count_list (cb_rest s) f" "cb_log t = cb_log s @ [(g, cb_memory s)]" "cb_memory t = cb_memory s"
    "cb_firing t" "cb_stop t = cb_stop s" "cb_phase t = cb_phase s" "-1 \<le> cb_index t"
    "grows_until n env \<Longrightarrow> n \<le> length (cb_log s) \<Longrightarrow> length (cb_rest t) \<le> length (cb_rest s)"
proof -
  obtain ops r where e: "env (cb_log s) g (cb_memory s) = (ops, r)" by fastforce
  define s0 where "s0 = s\<lparr>cb_log := cb_log s @ [(g, cb_memory s)]\<rparr>"
  define s1 where "s1 = fold (\<lambda>a t. fst (cb_do a t)) ops s0"
  have ops: "\<forall>a\<in>set ops. harmless f a" "r \<noteq> RThrow" "cb_stop s \<longrightarrow> r \<noteq> RFalse"
    using assms(1) e unfolding spares_def by (metis fst_conv, metis snd_conv, metis snd_conv)
  have s1: "same_pass f s0 s1" "(\<forall>a\<in>set ops. \<not> adds a) \<Longrightarrow> length (cb_rest s1) \<le> length (cb_rest s0)"
    using cb_dos_harmless [OF ops(1), of s0] assms(2,3) by (auto simp: s0_def s1_def)
  have t: "t = s1"
    using e ops s1(1) by (cases r) (auto simp: t_def cb_call_def s0_def s1_def same_pass_def Let_def)
  have rest: "cb_rest s0 = cb_rest s" by (simp add: s0_def cb_rest_def cb_items_def)
  show "count_list (cb_rest t) f = count_list (cb_rest s) f" "cb_log t = cb_log s @ [(g, cb_memory s)]" "cb_memory t = cb_memory s"
    "cb_firing t" "cb_stop t = cb_stop s" "cb_phase t = cb_phase s" "-1 \<le> cb_index t"
    using s1(1) assms(2) rest by (simp_all add: t same_pass_def) (simp_all add: s0_def)
  show "length (cb_rest t) \<le> length (cb_rest s)" if "grows_until n env" "n \<le> length (cb_log s)"
  proof -
    have "\<forall>a\<in>set ops. \<not> adds a" using that e unfolding grows_until_def by (metis fst_conv)
    then show ?thesis using s1(2) rest by (simp add: t)
  qed
qed

lemma cb_next_Inner:
  assumes "cb_phase s = CInner" "-1 \<le> cb_index s"
  shows "cb_rest s = [] \<Longrightarrow> cb_next env s = s\<lparr>cb_index := -1, cb_phase := CHead\<rparr>"
    "cb_rest s = g # gs \<Longrightarrow> cb_next env s = cb_call env g (s\<lparr>cb_index := cb_index s + 1\<rparr>) \<and> cb_rest (s\<lparr>cb_index := cb_index s + 1\<rparr>) = gs"
proof -
  show "cb_next env s = s\<lparr>cb_index := -1, cb_phase := CHead\<rparr>" if "cb_rest s = []"
    using that assms by (simp add: cb_next_def cb_rest_def Let_def)
  show "cb_next env s = cb_call env g (s\<lparr>cb_index := cb_index s + 1\<rparr>) \<and> cb_rest (s\<lparr>cb_index := cb_index s + 1\<rparr>) = gs"
    if r: "cb_rest s = g # gs"
  proof -
    define k where "k = nat (cb_index s + 1)"
    have k: "cb_index s + 1 = int k" using assms(2) by (simp add: k_def)
    have d: "drop k (cb_items s) = g # gs" using r by (simp add: cb_rest_def k_def)
    then have "k < length (cb_items s)" by (metis drop_all linorder_not_le list.distinct(1))
    moreover from this d have "cb_items s ! k = g" "drop (Suc k) (cb_items s) = gs"
      by (simp_all add: Cons_nth_drop_Suc [symmetric])
    moreover have "nat (int k + 1) = Suc k" by simp
    ultimately show ?thesis
      using assms(1) by (simp add: cb_next_def cb_rest_def cb_items_def Let_def k)
  qed
qed

lemma cb_pass_unfold:
  "cb_pass env s = (if cb_phase s = CInner then cb_pass env (cb_next env s) else Some s)"
  unfolding cb_pass_def by (rule while_option_unfold)

lemma cb_pass_calls:
  assumes "spares f (cb_stop s) env" "grows_until n env" "cb_phase s = CInner" "cb_firing s" "-1 \<le> cb_index s"
  shows "\<exists>t l. cb_pass env s = Some t \<and> cb_phase t = CHead \<and> cb_log t = cb_log s @ l \<and> (\<forall>c\<in>set l. snd c = cb_memory s) \<and>
     count_list (map fst l) f = count_list (cb_rest s) f"
  using assms
proof (induction s rule: wf_induct [OF wf_measures [of "[\<lambda>s. n - length (cb_log s), \<lambda>s. length (cb_rest s)]"], case_names less])
  case (less s)
  show ?case
  proof (cases "cb_rest s")
    case Nil
    then show ?thesis
      using less.prems cb_next_Inner(1) [of s env] cb_pass_unfold [of env s] cb_pass_unfold [of env "cb_next env s"]
      by (intro exI [of _ "cb_next env s"] exI [of _ "[]"]) simp
  next
    case (Cons g gs)
    define s' where "s' = s\<lparr>cb_index := cb_index s + 1\<rparr>"
    define t where "t = cb_call env g s'"
    have n: "cb_next env s = t" "cb_rest s' = gs"
      using cb_next_Inner(2) [OF less.prems(3,5) Cons] by (simp_all add: s'_def t_def)
    have s': "cb_stop s' = cb_stop s" "cb_firing s'" "-1 \<le> cb_index s'" "cb_log s' = cb_log s" "cb_memory s' = cb_memory s"
      "cb_phase s' = CInner"
      using less.prems by (simp_all add: s'_def)
    note c = cb_call_rest [where f = f and s = s' and env = env and g = g, unfolded s'(1), OF less.prems(1) s'(2,3), folded t_def, unfolded n s']
    have "n \<le> length (cb_log s) \<Longrightarrow> length (cb_rest t) < length (cb_rest s)"
      using c(8) [OF less.prems(2)] Cons by simp
    then have "(t, s) \<in> measures [\<lambda>s. n - length (cb_log s), \<lambda>s. length (cb_rest s)]"
      using c(2) by simp linarith
    moreover have "spares f (cb_stop t) env" "cb_phase t = CInner" "cb_firing t" "-1 \<le> cb_index t"
      using c less.prems(1) by simp_all
    ultimately obtain u l where u: "cb_pass env t = Some u" "cb_phase u = CHead" "cb_log u = cb_log t @ l" "\<forall>x\<in>set l. snd x = cb_memory t"
        "count_list (map fst l) f = count_list (cb_rest t) f"
      using less.IH less.prems(2) by blast
    then show ?thesis
      using c Cons less.prems(3) cb_pass_unfold [of env s] n
      by (intro exI [of _ u] exI [of _ "(g, cb_memory s) # l"]) auto
  qed
qed

text \<open>C28. In a pass every function of the list is called as often as it is on it, whatever the callbacks add and remove meanwhile, if it
  is itself left alone.\<close>

theorem callbacks_not_skipped:
  assumes "spares f (cb_stop s) env" "grows_until n env" "cb_phase s = CInner" "cb_firing s" "cb_index s = -1"
  shows "\<exists>t l. cb_pass env s = Some t \<and> cb_phase t = CHead \<and> cb_log t = cb_log s @ l \<and> (\<forall>c\<in>set l. snd c = cb_memory s) \<and>
     count_list (map fst l) f = count_list (cb_items s) f"
  using cb_pass_calls [OF assms(1-4)] assms(5) by (simp add: cb_rest_def)

text \<open>Callback 0 removes itself, callback 1 adds callback 7 as long as few calls were made; callback 2 is called all the same.\<close>

definition busy_env :: "nat cb_env" where
  "busy_env l g v =
     (if g = 0 then ([CRemove [0]], ROther)
      else if g = 1 \<and> length l < 4 then ([CAdd [ArgFun 7], CFire 5], RFalse)
      else ([], ROther))"

definition busy_list :: "nat callbacks" where
  "busy_list = (Callbacks '''')\<lparr>cb_list := Some [0, 1, 2, 0], cb_firing := True, cb_memory := Some 3, cb_phase := CInner\<rparr>"

theorem callbacks_not_skipped_witness:
  "\<exists>t l. cb_pass busy_env busy_list = Some t \<and> cb_log t = l \<and> count_list (map fst l) 2 = 1"
proof -
  have "spares 2 (cb_stop busy_list) busy_env" "grows_until 4 busy_env"
    by (auto simp: spares_def grows_until_def busy_env_def busy_list_def Callbacks_def Let_def split: if_splits)
  then show ?thesis
    using callbacks_not_skipped [of 2 busy_list busy_env 4]
    by (auto simp: busy_list_def Callbacks_def Let_def cb_items_def)
qed

section \<open>A callback that throws\<close>

text \<open>\<open>firing\<close> is reset only at the end of \<open>fire\<close>: after an exception every later \<open>fire\<close> and \<open>add\<close> only fills queue and list.\<close>

lemma cb_do_firing:
  assumes "cb_firing s"
  shows "cb_firing (fst (cb_do a s)) \<and> cb_log (fst (cb_do a s)) = cb_log s \<and> cb_phase (fst (cb_do a s)) = cb_phase s \<and> \<not> snd (cb_do a s)"
proof -
  have "cb_log (fold cb_remove gs u) = cb_log u \<and> cb_firing (fold cb_remove gs u) = cb_firing u \<and> cb_phase (fold cb_remove gs u) = cb_phase u"
    for gs and u :: "'a callbacks"
    by (induction gs arbitrary: u) auto
  then show ?thesis
    using assms by (cases a) (auto simp: Let_def split: option.splits)
qed

lemma cb_dos_firing:
  "cb_firing s \<Longrightarrow> cb_firing (fold (\<lambda>a t. fst (cb_do a t)) ops s) \<and> cb_log (fold (\<lambda>a t. fst (cb_do a t)) ops s) = cb_log s"
  by (induction ops arbitrary: s) (simp_all add: cb_do_firing)

lemma stuck_runs:
  "cb_firing s \<Longrightarrow> cb_phase s = CIdle \<Longrightarrow> \<exists>t. cb_runs env as s = Some t \<and> cb_log t = cb_log s"
proof (induction as arbitrary: s)
  case (Cons a as)
  have "cb_run env a s = Some (fst (cb_do a s))"
    using cb_do_firing [OF Cons.prems(1), of a] by (auto simp: cb_run_def split: prod.splits)
  then show ?case
    using Cons.IH [of "fst (cb_do a s)"] cb_do_firing [OF Cons.prems(1), of a] Cons.prems(2) by simp
qed simp

text \<open>\<open>firing\<close> is reset only at the end of \<open>fire\<close>: after an exception every later \<open>fire\<close> and \<open>add\<close> only fills the queue and the list, and
  nothing is called any more.\<close>

theorem thrown_callback_jams_list:
  assumes "cb_phase s = CInner" "cb_firing s" "-1 \<le> cb_index s" "cb_rest s = g # gs"
    "snd (env (cb_log s) g (cb_memory s)) = RThrow"
  shows "\<exists>t. cb_runs env' as (cb_next env s) = Some t \<and> cb_log t = cb_log s @ [(g, cb_memory s)]"
proof -
  define u where "u = cb_next env s"
  obtain ops where "env (cb_log s) g (cb_memory s) = (ops, RThrow)"
    using assms(5) by (metis prod.collapse)
  then have "cb_firing u \<and> cb_phase u = CIdle \<and> cb_log u = cb_log s @ [(g, cb_memory s)]"
    using cb_next_Inner(2) [OF assms(1,3,4), of env] assms(2) by (simp add: u_def cb_call_def Let_def cb_dos_firing)
  then show ?thesis
    using stuck_runs [of u env' as] by (simp add: u_def)
qed

theorem thrown_callback_jams_list_witness:
  "\<exists>t. cb_runs (\<lambda>l g v. ([], ROther)) [CFire 4, CAdd [ArgFun 6]] (cb_next (\<lambda>l g v. ([], if g = 0 then RThrow else ROther)) busy_list) = Some t \<and>
     cb_log t = [(0, Some 3)]"
  using thrown_callback_jams_list [of busy_list 0 "[1, 2, 0]" "\<lambda>l g v. ([], if g = 0 then RThrow else ROther)" "\<lambda>l g v. ([], ROther)"
      "[CFire 4, CAdd [ArgFun 6]]"]
  by (simp add: busy_list_def Callbacks_def Let_def cb_rest_def cb_items_def)

section \<open>Lists that fire once and remember\<close>

text \<open>The kind deferred objects use, when the callbacks leave the list alone: every function ever added is called once, in the order
  in which they were added, with the first value fired.\<close>

fun added :: "'v cb_op list \<Rightarrow> nat list" where
  "added [] = []"
| "added (CAdd as # ops) = arg_funs as @ added ops"
| "added (a # ops) = added ops"

fun first_fired :: "'v cb_op list \<Rightarrow> 'v option" where
  "first_fired [] = None"
| "first_fired (CFire v # ops) = Some v"
| "first_fired (a # ops) = first_fired ops"

fun add_or_fire :: "'v cb_op \<Rightarrow> bool" where
  "add_or_fire (CAdd as) = True"
| "add_or_fire (CFire v) = True"
| "add_or_fire a = False"

definition quiet :: "'v cb_env \<Rightarrow> bool" where
  "quiet env \<longleftrightarrow> (\<forall>l f v. fst (env l f v) = [] \<and> snd (env l f v) \<noteq> RThrow)"

abbreviation "cb_go env \<equiv> while_option (\<lambda>t. cb_phase t \<noteq> CIdle) (cb_next env)"

lemma cb_go_step: "cb_phase s \<noteq> CIdle \<Longrightarrow> cb_go env s = cb_go env (cb_next env s)"
  by (subst while_option_unfold) simp

lemma cb_go_idle: "cb_phase s = CIdle \<Longrightarrow> cb_go env s = Some s"
  by (subst while_option_unfold) simp

lemma quiet_call:
  assumes "quiet env" "\<not> cb_stop s"
  shows "cb_call env g s = s\<lparr>cb_log := cb_log s @ [(g, cb_memory s)]\<rparr>"
proof -
  obtain r where "env (cb_log s) g (cb_memory s) = ([], r)" "r \<noteq> RThrow"
    using assms(1) unfolding quiet_def by (metis prod.collapse)
  then show ?thesis
    using assms(2) by (cases r) (simp_all add: cb_call_def)
qed

lemma quiet_pass:
  assumes "quiet env" "cb_phase s = CInner" "\<not> cb_stop s" "-1 \<le> cb_index s"
  shows "cb_go env s = cb_go env (s\<lparr>cb_index := -1, cb_phase := CHead, cb_log := cb_log s @ map (\<lambda>f. (f, cb_memory s)) (cb_rest s)\<rparr>)"
  using assms
proof (induction "cb_rest s" arbitrary: s)
  case Nil
  then show ?case
    using cb_next_Inner(1) [of s env] cb_go_step [of s env] by simp
next
  case (Cons g gs)
  define t where "t = s\<lparr>cb_index := cb_index s + 1, cb_log := cb_log s @ [(g, cb_memory s)]\<rparr>"
  have "cb_next env s = t" "cb_rest t = gs"
    using cb_next_Inner(2) [OF Cons.prems(2,4) Cons.hyps(2) [symmetric], of env] Cons.prems
    by (simp_all add: quiet_call t_def cb_rest_def cb_items_def)
  then show ?case
    using Cons.hyps(1) [of t] Cons.prems Cons.hyps(2) [symmetric] cb_go_step [of s env] by (simp add: t_def)
qed

text \<open>\<open>fire\<close> on the whole list, or from the position \<open>add\<close> sets, when one value is queued.\<close>

lemma quiet_fire:
  assumes "quiet env" "cb_phase s = CHead" "\<not> cb_stop s" "-1 \<le> cb_index s" "cb_queue s = [v]"
  shows "cb_go env s = Some (cb_finish (s\<lparr>cb_memory := Some v, cb_queue := [], cb_index := -1,
     cb_log := cb_log s @ map (\<lambda>f. (f, Some v)) (cb_rest s)\<rparr>))"
proof -
  define t where "t = s\<lparr>cb_memory := Some v, cb_queue := [], cb_phase := CInner\<rparr>"
  have "cb_next env s = t" "cb_rest t = cb_rest s"
    using assms by (simp_all add: cb_next_def t_def cb_rest_def cb_items_def)
  then have "cb_go env s = cb_go env (t\<lparr>cb_index := -1, cb_phase := CHead, cb_log := cb_log s @ map (\<lambda>f. (f, Some v)) (cb_rest s)\<rparr>)"
    using cb_go_step [of s env] quiet_pass [of env t] assms by (simp add: t_def)
  also have "\<dots> = Some (cb_finish (s\<lparr>cb_memory := Some v, cb_queue := [], cb_index := -1,
     cb_log := cb_log s @ map (\<lambda>f. (f, Some v)) (cb_rest s)\<rparr>))"
    by (simp add: cb_go_step cb_next_def t_def cb_go_idle cb_finish_def Let_def assms(2))
  finally show ?thesis .
qed

text \<open>A list of this kind before and after its only firing.\<close>

definition waiting :: "nat list \<Rightarrow> 'v callbacks \<Rightarrow> bool" where
  "waiting xs s \<longleftrightarrow> s = (Callbacks ''once memory'')\<lparr>cb_list := Some xs\<rparr>"

definition settled :: "'v \<Rightarrow> (nat \<times> 'v option) list \<Rightarrow> 'v callbacks \<Rightarrow> bool" where
  "settled v l s \<longleftrightarrow>
     s = (Callbacks ''once memory'')\<lparr>cb_list := Some [], cb_memory := Some v, cb_locked := True, cb_fired := True, cb_log := l\<rparr>"

lemma once_memory [simp]:
  "Callbacks ''once memory'' =
     \<lparr>cb_once = True, cb_keep = True, cb_unique = False, cb_stop = False, cb_firing = False, cb_memory = None, cb_fired = False,
      cb_locked = False, cb_list = Some [], cb_queue = [], cb_index = -1, cb_phase = CIdle, cb_log = []\<rparr>"
  by (simp add: Callbacks_def Let_def) code_simp

lemma settled_run:
  assumes "quiet env" "settled v l s"
  shows "cb_run env (CFire w) s = Some s"
    "\<exists>t. cb_run env (CAdd as) s = Some t \<and> settled v (l @ map (\<lambda>f. (f, Some v)) (arg_funs as)) t"
proof -
  show "cb_run env (CFire w) s = Some s"
    using assms(2) by (simp add: cb_run_def settled_def)
  define s1 where "s1 = cb_start (s\<lparr>cb_queue := [v], cb_list := Some (arg_funs as)\<rparr>)"
  have "cb_run env (CAdd as) s = cb_go env s1"
    using assms(2) by (simp add: cb_run_def settled_def s1_def Let_def add_args_all)
  moreover have "cb_go env s1 = Some (cb_finish (s1\<lparr>cb_memory := Some v, cb_queue := [], cb_index := -1,
     cb_log := cb_log s1 @ map (\<lambda>f. (f, Some v)) (cb_rest s1)\<rparr>))"
    using assms by (intro quiet_fire) (simp_all add: s1_def settled_def cb_start_def)
  ultimately show "\<exists>t. cb_run env (CAdd as) s = Some t \<and> settled v (l @ map (\<lambda>f. (f, Some v)) (arg_funs as)) t"
    using assms(2) by (simp add: s1_def settled_def cb_start_def cb_finish_def Let_def cb_rest_def cb_items_def)
qed

lemma waiting_run:
  assumes "quiet env" "waiting xs s"
  shows "\<exists>t. cb_run env (CAdd as) s = Some t \<and> waiting (xs @ arg_funs as) t"
    "\<exists>t. cb_run env (CFire v) s = Some t \<and> settled v (map (\<lambda>f. (f, Some v)) xs) t"
proof -
  show "\<exists>t. cb_run env (CAdd as) s = Some t \<and> waiting (xs @ arg_funs as) t"
    using assms(2) by (simp add: cb_run_def waiting_def Let_def add_args_all)
  define s1 where "s1 = cb_start (s\<lparr>cb_queue := [v]\<rparr>)"
  have "cb_run env (CFire v) s = cb_go env s1"
    using assms(2) by (simp add: cb_run_def waiting_def s1_def)
  moreover have "cb_go env s1 = Some (cb_finish (s1\<lparr>cb_memory := Some v, cb_queue := [], cb_index := -1,
     cb_log := cb_log s1 @ map (\<lambda>f. (f, Some v)) (cb_rest s1)\<rparr>))"
    using assms by (intro quiet_fire) (simp_all add: s1_def waiting_def cb_start_def)
  ultimately show "\<exists>t. cb_run env (CFire v) s = Some t \<and> settled v (map (\<lambda>f. (f, Some v)) xs) t"
    using assms(2) by (simp add: s1_def waiting_def settled_def cb_start_def cb_finish_def Let_def cb_rest_def cb_items_def)
qed

lemma settled_runs:
  assumes "quiet env" "\<forall>a\<in>set ops. add_or_fire a" "settled v l s"
  shows "\<exists>t. cb_runs env ops s = Some t \<and> cb_log t = l @ map (\<lambda>f. (f, Some v)) (added ops)"
  using assms(2,3)
proof (induction ops arbitrary: l s)
  case Nil
  then show ?case by (simp add: settled_def)
next
  case (Cons a ops)
  then show ?case
  proof (cases a)
    case (CAdd as)
    obtain t where t: "cb_run env (CAdd as) s = Some t" "settled v (l @ map (\<lambda>f. (f, Some v)) (arg_funs as)) t"
      using settled_run(2) [OF assms(1) Cons.prems(2)] by blast
    then show ?thesis
      using Cons.IH [OF _ t(2)] t(1) Cons.prems(1) CAdd by simp
  next
    case (CFire w)
    then show ?thesis
      using settled_run(1) [OF assms(1) Cons.prems(2), of w] Cons by simp
  qed simp_all
qed

lemma waiting_runs:
  assumes "quiet env" "\<forall>a\<in>set ops. add_or_fire a" "waiting xs s"
  shows "\<exists>t. cb_runs env ops s = Some t \<and>
     cb_log t = (case first_fired ops of None \<Rightarrow> [] | Some v \<Rightarrow> map (\<lambda>f. (f, Some v)) (xs @ added ops))"
  using assms(2,3)
proof (induction ops arbitrary: xs s)
  case Nil
  then show ?case by (simp add: waiting_def)
next
  case (Cons a ops)
  then show ?case
  proof (cases a)
    case (CAdd as)
    obtain t where t: "cb_run env (CAdd as) s = Some t" "waiting (xs @ arg_funs as) t"
      using waiting_run(1) [OF assms(1) Cons.prems(2)] by blast
    then show ?thesis
      using Cons.IH [OF _ t(2)] t(1) Cons.prems(1) CAdd by (simp split: option.splits)
  next
    case (CFire v)
    obtain t where "cb_run env (CFire v) s = Some t" "settled v (map (\<lambda>f. (f, Some v)) xs) t"
      using waiting_run(2) [OF assms(1) Cons.prems(2)] by blast
    then show ?thesis
      using settled_runs [OF assms(1), of ops v _ t] Cons.prems(1) CFire by fastforce
  qed simp_all
qed

text \<open>C29. With quiet callbacks, any sequence of \<open>add\<close> and \<open>fire\<close> on a list created with \<open>once memory\<close> ends with every function
  called once, in the order added and with the first value fired, or with no call when nothing was fired.\<close>

theorem once_memory_calls_each_once:
  assumes "quiet env" "\<forall>a\<in>set ops. add_or_fire a"
  shows "\<exists>t. cb_runs env ops (Callbacks ''once memory'') = Some t \<and>
     cb_log t = (case first_fired ops of None \<Rightarrow> [] | Some v \<Rightarrow> map (\<lambda>f. (f, Some v)) (added ops))"
proof -
  have "waiting [] (Callbacks ''once memory'' :: 'a callbacks)" by (simp add: waiting_def)
  from waiting_runs [OF assms this] show ?thesis by (simp only: append_Nil)
qed

theorem once_memory_calls_each_once_witness:
  "\<exists>t. cb_runs (\<lambda>l g v. ([], RFalse)) [CAdd [ArgFun 1, ArgOther], CFire 8, CAdd [ArgList [ArgFun 2, ArgFun 1]], CFire (9::nat)]
     (Callbacks ''once memory'') = Some t \<and> cb_log t = [(1, Some 8), (2, Some 8), (1, Some 8)]"
  using once_memory_calls_each_once [of "\<lambda>l g v. ([], RFalse)"
      "[CAdd [ArgFun 1, ArgOther], CFire 8, CAdd [ArgList [ArgFun 2, ArgFun 1]], CFire (9::nat)]"]
  by (simp add: quiet_def)

end
