(* ===== verification/Spec2Isabelle.thy ===== *)
theory Spec2Isabelle
  imports Sha256_Correct Crc32 Page_Correct Client_Server Validators_Correct Validator_Report Unobtrusive_Correct JQuery_Callbacks_Correct
begin

text \<open>
  The File Uploader: a browser client that sends very large files in chunks to an upload service. This
  development verifies the client (\<open>src/WebApp/wwwroot/js/upload.js\<close>), the service it talks to
  (\<open>src/WebApi\<close>, C#) with its in-memory and database repositories and its file system storage, and the two together: a
  file that the client uploads ends on the server's disk byte for byte. It also verifies the form validation library the web
  application ships under \<open>wwwroot/lib\<close> (jQuery Validation with its additional methods and unobtrusive adapters) and
  the parts of jQuery that library is built on.

  \<^bold>\<open>The program.\<close> The page computes the SHA-256 of the chosen file (with WebCrypto, or in a worker that
  streams the file through its own hasher), asks the server to initiate an upload (the server may answer that
  it has the content already), sends the missing chunks of 32 MiB with an adaptive number of concurrent
  workers and up to three retries per chunk, asks the server to merge, and polls until the merge is done. The
  user can pause, resume, cancel, and resume after a reload from a session kept in \<open>localStorage\<close>. The service keeps a
  session per upload, whose status changes only by compare-and-set, stores each chunk as a file, and a background service
  verifies and merges the chunks of an upload once a request to complete has won the right to merge; another one expires
  abandoned uploads.

  \<^bold>\<open>The theories.\<close>
  \<^item> \<open>JS_Prelude\<close>: types and values of JavaScript (bytes, 32-bit words, number printing, typed arrays),
    shared lemmas and the collections \<open>js_simps\<close>, \<open>inv_intros\<close>, \<open>frame_simps\<close>. \<open>JS_Regex\<close>: regular
    expressions with a derivative matcher proved against their language.
  \<^item> \<open>Sha256_Spec\<close>, \<open>Sha256\<close>, \<open>Sha256_Correct\<close>: FIPS 180-4, the model of \<open>createSha256\<close> (the record \<open>sha\<close>
    holds its closure variables; \<open>sha_compress\<close>, \<open>sha_update\<close>, \<open>sha_hexDigest\<close> are \<open>compress\<close>, \<open>update\<close>,
    \<open>hexDigest\<close>) and of the hash worker, and the proof that they compute the standard's digest, however the
    input is cut. The constants are checked against the cube and square roots of the primes.
  \<^item> \<open>Crc32\<close>: \<open>crc32Hex\<close> against the bitwise CRC, burst detection, and the comparison made by the server.
  \<^item> \<open>Session_Store\<close>: \<open>saveSession\<close>, \<open>loadSession\<close>, \<open>clearSession\<close> over the locale \<open>string_store\<close>,
    interpreted on the model of \<open>localStorage\<close>; JSON printing and parsing with a round trip.
  \<^item> \<open>Http_Api\<close>: each \<open>api*\<close> function as the request it builds and the reading of the outcome
    (errors are values of a sum), chunk compression, and \<open>ChunkDecompression.Wrap\<close>.
  \<^item> \<open>Adaptive\<close>: \<open>noteBytes\<close>, \<open>adaptWorkers\<close>, the speed and progress displays.
  \<^item> \<open>Complete_Poll\<close>: \<open>waitForComplete\<close> over the list of its rounds, with termination under a clock that
    advances by the pauses.
  \<^item> \<open>Transition_System\<close>: the locales \<open>invariant_system\<close> and \<open>bounded_system\<close> for systems of labelled
    steps; both are interpreted on the scheduler, the first also on the page.
  \<^item> \<open>Upload_Run\<close>, \<open>Upload_Correct\<close>: the scheduler inside \<open>runUpload\<close> (\<open>pump\<close>, \<open>workerOne\<close>, the main loop) as
    steps between \<open>await\<close>s, its invariant, and the properties: the completing branch is reached only with the
    whole file on the server, each chunk is acknowledged once, at most twelve requests are in flight and four are
    made per chunk, a pause loses nothing, and no reachable state is stuck.
  \<^item> \<open>Page\<close>, \<open>Page_Correct\<close>: the variables and widgets of the page, every handler and asynchronous
    function cut at its \<open>await\<close>s, results delivered in any order; buttons, cancel, failure, resume after a
    reload, deduplication and completion.
  \<^item> \<open>JQuery_Base\<close>, \<open>JQuery_Classes\<close>, \<open>JQuery_Param\<close>: JavaScript values and objects as jQuery and its plugins use them
    (\<open>pval\<close>, association lists in insertion order), \<open>jQuery.extend\<close>; the class methods of \<open>jquery.js\<close>, which edit
    one string, against the list of names in it (locale \<open>class_set\<close>); \<open>jQuery.param\<close> with a reader for its output.
  \<^item> \<open>JQuery_Callbacks\<close>, \<open>JQuery_Callbacks_Correct\<close>: \<open>jQuery.Callbacks\<close> with callbacks that change the list while it fires. The
    record \<open>callbacks\<close> holds the closure variables, \<open>cb_do\<close> is one method call, \<open>cb_next\<close> one round of the loops in \<open>fire\<close>, and
    \<open>cb_run\<close> a call to its end (\<open>None\<close> when it never ends). Shown: no callback is skipped or repeated by a removal, a list
    that fires once and remembers calls each function once, and an exception ends all firing.
  \<^item> \<open>Validator_Base\<close>, \<open>Validators_Checksum\<close>, \<open>Validators_Format\<close>, \<open>Validators_Correct\<close>: the methods of
    \<open>additional-methods.js\<close>. The first group computes check digits (bank accounts, cards, tax and vehicle numbers); the
    second tests formats, dates, files and other fields. Shown: \<open>iban\<close> decides a remainder modulo 97, \<open>creditcard\<close> and
    \<open>abaRoutingNumber\<close> catch every wrong digit, \<open>dateITA\<close> follows the calendar, and several inputs on which a method does not do
    what its message says.
  \<^item> \<open>Validator_Rules\<close>, \<open>Validator_State\<close>, \<open>Validator_Core\<close>, \<open>Validator_Form\<close>, \<open>Validator_Events\<close>: \<open>jquery.validate.js\<close>. Rules
    are collected from classes, attributes, data and settings and normalised; the record \<open>vstate\<close> holds the validator, the elements of its form
    and the error labels; \<open>check\<close>, \<open>showErrors\<close>, \<open>element\<close>, \<open>form\<close>, the remote method and the submit handler follow the code;
    \<open>validator_step\<close> is one event of the user, of the page or of a pending request. \<open>Validator_Correct\<close>: what the display functions
    leave alone (locale \<open>display_frame\<close>), the shape of a rules object, the count of pending requests in every reachable
    state (an interpretation of \<open>invariant_system\<close>), and when a form is submitted.
  \<^item> \<open>Validator_Report\<close>: a checked form reports exactly the fields that break a rule, each with the message of its first broken
    rule.
  \<^item> \<open>Unobtrusive\<close>, \<open>Unobtrusive_Correct\<close>: \<open>jquery.validate.unobtrusive.js\<close>. An adapter is a record with the function that
    turns \<open>data-val-*\<close> attributes into rules; \<open>parse\<close> collects them for a form, \<open>onError\<close>, \<open>onSuccess\<close> and the others show
    messages. Each adapter sets only its own rules (\<open>frame_adapter\<close>), what length attributes say is what the validator
    checks, and an escaped name in a selector is read back as that name.
  \<^item> \<open>Server_Repository\<close>: upload sessions, \<open>InMemoryUploadRepository\<close> (an association list), \<open>EfUploadRepository\<close> (a table), and
    their contract, the locale \<open>upload_repository\<close>, interpreted on both: at most one node wins the right to merge.
  \<^item> \<open>Server_Storage\<close>: \<open>FileSystemStorage\<close> (parts and final files), its two ways to merge, which agree, and
    \<open>ContentFingerprint\<close>. \<open>Server_Service\<close>: \<open>UploadService\<close>, the chunk handler of \<open>UploadController\<close>, the caches and the
    background services over the record \<open>server\<close>; \<open>server_step\<close> is one request or one piece of background work.
  \<^item> \<open>Server_Frame\<close>, \<open>Server_Files\<close>, \<open>Server_Upload\<close>: what each operation leaves alone, sessions never go back in their life
    cycle, the invariant of the final files (an interpretation of \<open>invariant_system\<close>), an upload in any order of its
    chunks, and the uploads that cannot succeed.
  \<^item> \<open>Client_Server\<close>: a run of the client's scheduler as the sequence of requests the service handles, from the file in the
    browser to the file on the disk.
  \<^item> This theory: properties that need the page and the scheduler together.

  \<^bold>\<open>Choices.\<close> A JavaScript segment between two \<open>await\<close>s runs without interruption, so steps are such segments and
  all interleavings are covered; on the page the end of a run's main loop is one result that carries the events of the run. A run
  can start with workers of an earlier failed run still pending (\<open>u_stale\<close>); the claims on a single run are for starts without such
  workers, and what the others do to the next run is a property of its own. Rationals stand for doubles in the speed window, and percentages are exact. Loops
  are total functions; the only bound is the number of rounds of \<open>waitForComplete\<close>, for which 907 rounds
  are proved to be enough. \<open>crypto.subtle\<close>, gzip and .NET's CRC class are parameters, with their documented
  behaviour as hypotheses. Strings are byte sequences (UTF-8). In the validation library numbers are rationals or
  \<open>NaN\<close>, property names are not those of \<open>Object.prototype\<close>, and the functions, selectors and methods of
  the page's author are the parameter \<open>venv\<close>. Its recursions are total: \<open>replace_all_fuel\<close> takes the length of its
  input as fuel and every round consumes a character. On the server a handler is one step, except that a chunk request is cut
  where its body is read and a complete job between verification and merge, where other requests can come between; times are
  given with the events; a \<open>Guid\<close> is its printed form, paths are those of Unix, and sizes stay below the limits where
  \<open>long\<close> and \<open>double\<close> are exact; the number of chunks is cast to \<open>int\<close> as the code does (\<open>to_int32\<close>), so an upload of more than
  2^31 - 1 chunks is a case of the model. Decompression, .NET's CRC and \<open>EnsureSessionDirectoriesAsync\<close>, which the file system storage
  lacks, are parameters.

  \<^bold>\<open>What the code does not do.\<close> Several properties state behaviour that is not what the page means to do: Start
  after a cancel, a cancel during \<open>initiate\<close>, workers left over from a failed run, two runs at once, lost
  checksum flags after a reload, the byte order of the chunk checksum, \<open>keepalive\<close> on large bodies, and the
  carry of the bit counter. On the server: a chunk request that breaks off spoils the upload for good, and a malformed
  checksum leaves it merging until it expires. In the validation library: a method that throws lets the form be submitted, and the patterns and
  check digits of some methods accept or reject the wrong strings; a field compared with a missing field is not compared at all.

  \<^bold>\<open>Not modelled.\<close> On the server: the S3 and blob node storage, whose effects are those of external services, the Redis caches, the
  queries of the database repository, events, audit, metrics, health checks, the API key check, configuration, and
  migrations. On the client: console output and the texts of the status line while chunks are being sent; the Razor pages. Of the
  libraries under \<open>wwwroot/lib\<close>: Bootstrap, the rest of jQuery (deferred objects, selectors, DOM manipulation, animation, the ajax transports), and of
  jQuery Validation \<open>strippedminlength\<close>, \<open>destroy\<close>, \<open>setDefaults\<close>, the search for the form of an element, and ajax settings in the
  parameter of a remote rule other than \<open>data\<close>. Limits of the file system on the length and characters of names.
\<close>

section \<open>The page and the scheduler together\<close>







end
